(* ===== verification/Prelude.thy ===== *)
theory Prelude
imports Main "HOL-Library.State_Monad" "HOL-Library.Word" "HOL-Library.Signed_Division"
begin

text \<open>
  Shared vocabulary of the development: Go's fixed-width integers, Go errors as values, the
  state monad in which the effectful code runs (with a ghost trace of the external calls), and
  the calculus \<open>emits\<close> / \<open>precedes\<close> that the components use to speak about that trace.
\<close>

named_theorems run_simps \<open>equations that run an effectful operation\<close>
named_theorems emits_intros \<open>which external calls an operation makes\<close>
named_theorems wp \<open>rules that compute what is to be shown of a program from its calls\<close>
named_theorems name_simps \<open>unfolding of the naming functions\<close>
named_theorems build_simps \<open>unfolding of the object builders\<close>

section \<open>Go integers\<close>

type_synonym i32 = "32 word"
type_synonym i64 = "64 word"

text \<open>Go's \<open>/\<close> on \<open>int64\<close> truncates towards zero and wraps like the other operators.\<close>

definition go_div64 :: "i64 \<Rightarrow> i64 \<Rightarrow> i64" where
  "go_div64 a b = word_of_int (sint a sdiv sint b)"

text \<open>The conversion \<open>int64(x)\<close> of an \<open>int32\<close> keeps the sign.\<close>

definition int64_of_i32 :: "i32 \<Rightarrow> i64" where
  "int64_of_i32 x = word_of_int (sint x)"

section \<open>Go errors\<close>

text \<open>
  An \<open>error\<close> value. \<open>KubeErr\<close> is an error of the Kubernetes client together with what
  \<open>apierrors.IsNotFound\<close> and \<open>apierrors.IsAlreadyExists\<close> report about it;
  \<open>ErrCodeInvalid\<close> is the sentinel \<open>errCodeInvalid\<close> of twofa.go that the code compares
  with \<open>errors.Is\<close>; \<open>GoErr\<close> is any other error, known by its text.
\<close>

datatype reason = NotFound | AlreadyExists | OtherReason

datatype go_error =
    KubeErr reason string
  | ErrCodeInvalid
  | GoErr string

type_synonym 'a result = "go_error + 'a"

fun is_not_found :: "go_error \<Rightarrow> bool" where
  "is_not_found (KubeErr NotFound _) = True"
| "is_not_found _ = False"

fun is_already_exists :: "go_error \<Rightarrow> bool" where
  "is_already_exists (KubeErr AlreadyExists _) = True"
| "is_already_exists _ = False"

text \<open>The method \<open>err.Error()\<close>.\<close>

fun error_text :: "go_error \<Rightarrow> string" where
  "error_text (KubeErr _ m) = m"
| "error_text ErrCodeInvalid = ''invalid 2FA code''"
| "error_text (GoErr m) = m"

fun err_of :: "'a result \<Rightarrow> go_error option" where
  "err_of (Inl e) = Some e"
| "err_of (Inr _) = None"

lemma err_of_None_iff: "err_of r = None \<longleftrightarrow> (\<exists>a. r = Inr a)"
  by (cases r) auto

section \<open>Effects\<close>

text \<open>
  The world is the environment the program runs in (the API server, the database server, the
  clock, the random source: everything that is not under src/, of a type \<open>'e\<close> the model
  leaves open) and a ghost trace of the calls made to it, each with the error it returned.
\<close>

record ('e, 'c) world =
  env :: 'e
  trace :: "('c \<times> go_error option) list"

type_synonym ('e, 'c, 'a) act = "(('e, 'c) world, 'a) state"

abbreviation ret :: "'a \<Rightarrow> ('e, 'c, 'a) act" where
  "ret \<equiv> State_Monad.return"

text \<open>A call that may fail, and a query that cannot.\<close>

definition call :: "'c \<Rightarrow> ('e \<Rightarrow> 'a result \<times> 'e) \<Rightarrow> ('e, 'c, 'a result) act" where
  "call c f = State (\<lambda>w. case f (env w) of
     (r, e) \<Rightarrow> (r, w\<lparr>env := e, trace := trace w @ [(c, err_of r)]\<rparr>))"

definition query :: "'c \<Rightarrow> ('e \<Rightarrow> 'a \<times> 'e) \<Rightarrow> ('e, 'c, 'a) act" where
  "query c f = State (\<lambda>w. case f (env w) of
     (a, e) \<Rightarrow> (a, w\<lparr>env := e, trace := trace w @ [(c, None)]\<rparr>))"

lemma run_call [run_simps]:
  "run_state (call c f) w =
     (case f (env w) of (r, e) \<Rightarrow> (r, w\<lparr>env := e, trace := trace w @ [(c, err_of r)]\<rparr>))"
  by (simp add: call_def)

lemma run_query [run_simps]:
  "run_state (query c f) w =
     (case f (env w) of (a, e) \<Rightarrow> (a, w\<lparr>env := e, trace := trace w @ [(c, None)]\<rparr>))"
  by (simp add: query_def)

text \<open>A call through an interface: what the implementation does, then the call itself.\<close>

definition noted :: "'c \<Rightarrow> ('e, 'c, 'a result) act \<Rightarrow> ('e, 'c, 'a result) act" where
  "noted c m = State (\<lambda>w. case run_state m w of
     (r, w1) \<Rightarrow> (r, w1\<lparr>trace := trace w1 @ [(c, err_of r)]\<rparr>))"

lemma run_noted [run_simps]:
  "run_state (noted c m) w =
     (case run_state m w of (r, w1) \<Rightarrow> (r, w1\<lparr>trace := trace w1 @ [(c, err_of r)]\<rparr>))"
  by (simp add: noted_def)

subsection \<open>Which calls an operation makes\<close>

text \<open>
  \<open>emits P m\<close>: from every world, \<open>m\<close> only appends calls that satisfy \<open>P\<close> to the trace.
\<close>

definition emits ::
  "('c \<times> go_error option \<Rightarrow> bool) \<Rightarrow> ('e, 'c, 'a) act \<Rightarrow> bool" where
  "emits P m \<longleftrightarrow>
     (\<forall>w. \<exists>l. trace (snd (run_state m w)) = trace w @ l \<and> list_all P l)"

text \<open>The calls \<open>m\<close> makes when started in \<open>w\<close>.\<close>

definition emitted :: "('e, 'c, 'a) act \<Rightarrow> ('e, 'c) world \<Rightarrow> ('c \<times> go_error option) list" where
  "emitted m w = drop (length (trace w)) (trace (snd (run_state m w)))"

lemma emitsD:
  "emits P m \<Longrightarrow> trace (snd (run_state m w)) = trace w @ emitted m w \<and> list_all P (emitted m w)"
  unfolding emits_def emitted_def by (metis append_eq_conv_conj)

lemma emitsE:
  assumes "emits P m" and "run_state m w = (a, w')"
  obtains l where "trace w' = trace w @ l" and "list_all P l" and "emitted m w = l"
  using emitsD [OF assms(1), of w] assms(2) by auto

lemma emits_return [emits_intros]: "emits P (ret a)"
  by (simp add: emits_def)

lemma emits_call [emits_intros]: "(\<And>r. P (c, r)) \<Longrightarrow> emits P (call c f)"
  by (auto simp: emits_def run_simps split: prod.splits)

lemma emits_query [emits_intros]: "P (c, None) \<Longrightarrow> emits P (query c f)"
  by (auto simp: emits_def run_simps split: prod.splits)

lemma emits_noted [emits_intros]:
  assumes "emits P m" and "\<And>r. P (c, r)"
  shows "emits P (noted c m)"
  unfolding emits_def
proof
  fix w
  obtain r w1 where m: "run_state m w = (r, w1)"
    by fastforce
  obtain l where "trace w1 = trace w @ l" "list_all P l"
    using assms(1) m by (rule emitsE)
  with m assms(2) show "\<exists>l. trace (snd (run_state (noted c m) w)) = trace w @ l \<and> list_all P l"
    by (intro exI [of _ "l @ [(c, err_of r)]"]) (simp add: run_simps)
qed

lemma emits_bind [emits_intros]:
  assumes "emits P m" and "\<And>a. emits P (f a)"
  shows "emits P (State_Monad.bind m f)"
  unfolding emits_def
proof
  fix w
  obtain a w1 where m: "run_state m w = (a, w1)"
    by fastforce
  obtain l1 where l1: "trace w1 = trace w @ l1" "list_all P l1"
    using assms(1) m by (rule emitsE)
  obtain l2 where "trace (snd (run_state (f a) w1)) = trace w1 @ l2" "list_all P l2"
    using assms(2) unfolding emits_def by blast
  with l1 m show "\<exists>l. trace (snd (run_state (State_Monad.bind m f) w)) = trace w @ l \<and> list_all P l"
    by (intro exI [of _ "l1 @ l2"]) simp
qed

lemma emits_if [emits_intros]:
  "(b \<Longrightarrow> emits P m) \<Longrightarrow> (\<not> b \<Longrightarrow> emits P n) \<Longrightarrow> emits P (if b then m else n)"
  by simp

lemma emits_sum [emits_intros]:
  "(\<And>e. r = Inl e \<Longrightarrow> emits P (f e)) \<Longrightarrow> (\<And>a. r = Inr a \<Longrightarrow> emits P (g a)) \<Longrightarrow>
   emits P (case r of Inl e \<Rightarrow> f e | Inr a \<Rightarrow> g a)"
  by (cases r) auto

lemma emits_option [emits_intros]:
  "(r = None \<Longrightarrow> emits P m) \<Longrightarrow> (\<And>a. r = Some a \<Longrightarrow> emits P (g a)) \<Longrightarrow>
   emits P (case r of None \<Rightarrow> m | Some a \<Rightarrow> g a)"
  by (cases r) auto

lemma emits_prod [emits_intros]:
  "(\<And>a b. r = (a, b) \<Longrightarrow> emits P (g a b)) \<Longrightarrow> emits P (case r of (a, b) \<Rightarrow> g a b)"
  by (cases r) auto

lemma emits_let [emits_intros]: "emits P (f t) \<Longrightarrow> emits P (let x = t in f x)"
  by simp

lemma emits_mono: "emits P m \<Longrightarrow> (\<And>c. P c \<Longrightarrow> Q c) \<Longrightarrow> emits Q m"
  unfolding emits_def by (metis list.pred_mono_strong)

lemma emitted_return [simp]: "emitted (ret a) w = []"
  by (simp add: emitted_def)

lemma emitted_bind:
  assumes "emits P m" and "\<And>a. emits Q (f a)"
  shows "emitted (State_Monad.bind m f) w =
    emitted m w @ emitted (f (fst (run_state m w))) (snd (run_state m w))"
proof -
  obtain a w1 where m: "run_state m w = (a, w1)"
    by fastforce
  obtain l1 where l1: "trace w1 = trace w @ l1" "emitted m w = l1"
    using assms(1) m by (rule emitsE)
  obtain l2 where "trace (snd (run_state (f a) w1)) = trace w1 @ l2" "emitted (f a) w1 = l2"
    using assms(2) [of a] by (metis emitsE prod.collapse)
  with l1 m show ?thesis
    by (simp add: emitted_def)
qed

subsection \<open>What an operation returns and which calls it has then made\<close>

text \<open>
  \<open>runs m Q\<close>: from every world, \<open>m\<close> appends a list of calls to the trace that satisfies \<open>Q\<close>
  together with the value \<open>m\<close> returns. The rules of \<open>wp\<close> work backwards through a program.
\<close>

definition runs ::
  "('e, 'c, 'a) act \<Rightarrow> ('a \<Rightarrow> ('c \<times> go_error option) list \<Rightarrow> bool) \<Rightarrow> bool" where
  "runs m Q \<longleftrightarrow>
     (\<forall>w. \<exists>l. trace (snd (run_state m w)) = trace w @ l \<and> Q (fst (run_state m w)) l)"

lemma runsD: "runs m Q \<Longrightarrow> Q (fst (run_state m w)) (emitted m w)"
  unfolding runs_def emitted_def by (metis append_eq_conv_conj)

lemma runs_trace: "runs m Q \<Longrightarrow> trace (snd (run_state m w)) = trace w @ emitted m w"
  unfolding runs_def emitted_def by (metis append_eq_conv_conj)

lemma runs_return [wp]: "Q a [] \<Longrightarrow> runs (ret a) Q"
  by (simp add: runs_def)

lemma runs_call [wp]: "(\<And>r. Q r [(c, err_of r)]) \<Longrightarrow> runs (call c f) Q"
  by (auto simp: runs_def run_simps split: prod.splits)

lemma runs_query [wp]: "(\<And>a. Q a [(c, None)]) \<Longrightarrow> runs (query c f) Q"
  by (auto simp: runs_def run_simps split: prod.splits)

lemma runs_bind [wp]:
  assumes "runs m (\<lambda>a l. runs (f a) (\<lambda>b l'. R b (l @ l')))"
  shows "runs (State_Monad.bind m f) R"
  unfolding runs_def
proof
  fix w
  obtain a w1 where m: "run_state m w = (a, w1)"
    by fastforce
  with assms obtain l where l: "trace w1 = trace w @ l" and f: "runs (f a) (\<lambda>b l'. R b (l @ l'))"
    unfolding runs_def by (metis fst_conv snd_conv)
  from f obtain l' where "trace (snd (run_state (f a) w1)) = trace w1 @ l'"
    and "R (fst (run_state (f a) w1)) (l @ l')"
    unfolding runs_def by blast
  with m l show "\<exists>l. trace (snd (run_state (State_Monad.bind m f) w)) = trace w @ l \<and>
      R (fst (run_state (State_Monad.bind m f) w)) l"
    by (intro exI [of _ "l @ l'"]) simp
qed

lemma runs_noted [wp]:
  assumes "runs m (\<lambda>a l. Q a (l @ [(c, err_of a)]))"
  shows "runs (noted c m) Q"
  unfolding runs_def
proof
  fix w
  obtain a w1 where m: "run_state m w = (a, w1)"
    by fastforce
  with assms obtain l where "trace w1 = trace w @ l" "Q a (l @ [(c, err_of a)])"
    unfolding runs_def by (metis fst_conv snd_conv)
  with m show "\<exists>l. trace (snd (run_state (noted c m) w)) = trace w @ l \<and>
      Q (fst (run_state (noted c m) w)) l"
    by (intro exI [of _ "l @ [(c, err_of a)]"]) (simp add: run_simps)
qed

lemma runs_if [wp]: "(b \<Longrightarrow> runs m Q) \<Longrightarrow> (\<not> b \<Longrightarrow> runs n Q) \<Longrightarrow> runs (if b then m else n) Q"
  by simp

lemma runs_sum [wp]:
  "(\<And>e. r = Inl e \<Longrightarrow> runs (f e) Q) \<Longrightarrow> (\<And>a. r = Inr a \<Longrightarrow> runs (g a) Q) \<Longrightarrow>
   runs (case r of Inl e \<Rightarrow> f e | Inr a \<Rightarrow> g a) Q"
  by (cases r) auto

lemma runs_option [wp]:
  "(r = None \<Longrightarrow> runs m Q) \<Longrightarrow> (\<And>a. r = Some a \<Longrightarrow> runs (g a) Q) \<Longrightarrow>
   runs (case r of None \<Rightarrow> m | Some a \<Rightarrow> g a) Q"
  by (cases r) auto

lemma runs_prod [wp]:
  "(\<And>a b. r = (a, b) \<Longrightarrow> runs (g a b) Q) \<Longrightarrow> runs (case r of (a, b) \<Rightarrow> g a b) Q"
  by (cases r) auto

lemma runs_let [wp]: "runs (f t) Q \<Longrightarrow> runs (let x = t in f x) Q"
  by simp

lemma runs_mono: "runs m Q \<Longrightarrow> (\<And>a l. Q a l \<Longrightarrow> R a l) \<Longrightarrow> runs m R"
  unfolding runs_def by metis

lemma runs_emits: "emits P m \<Longrightarrow> (\<And>a l. list_all P l \<Longrightarrow> Q a l) \<Longrightarrow> runs m Q"
  unfolding emits_def runs_def by metis

lemma emits_runs: "runs m (\<lambda>_ l. list_all P l) \<Longrightarrow> emits P m"
  unfolding emits_def runs_def by blast

text \<open>What is known of the result of a program, next to the calls it makes.\<close>

lemma runs_post:
  assumes "emits P m" and "\<And>w a w'. run_state m w = (a, w') \<Longrightarrow> R a"
  shows "runs m (\<lambda>a l. R a \<and> list_all P l)"
  using assms unfolding emits_def runs_def by (metis prod.collapse)

subsection \<open>The order of calls\<close>

text \<open>\<open>precedes P Q cs\<close>: no call of \<open>cs\<close> satisfies \<open>Q\<close> before one has satisfied \<open>P\<close>.\<close>

fun precedes :: "('c \<Rightarrow> bool) \<Rightarrow> ('c \<Rightarrow> bool) \<Rightarrow> 'c list \<Rightarrow> bool" where
  "precedes P Q [] = True"
| "precedes P Q (c # cs) = (P c \<or> (\<not> Q c \<and> precedes P Q cs))"

lemma precedes_append:
  "precedes P Q (xs @ ys) \<longleftrightarrow> precedes P Q xs \<and> (list_ex P xs \<or> precedes P Q ys)"
  by (induction xs) auto

lemma precedes_none: "list_all (\<lambda>c. \<not> Q c) cs \<Longrightarrow> precedes P Q cs"
  by (induction cs) auto

lemma precedes_trans:
  "precedes P Q cs \<Longrightarrow> precedes Q R cs \<Longrightarrow> (\<And>c. R c \<Longrightarrow> \<not> Q c) \<Longrightarrow> precedes P R cs"
  by (induction cs) auto

lemma precedes_weaken:
  "precedes P Q cs \<Longrightarrow> (\<And>c. P c \<Longrightarrow> P' c) \<Longrightarrow> (\<And>c. Q' c \<Longrightarrow> Q c) \<Longrightarrow> precedes P' Q' cs"
  by (induction cs) auto

lemma precedes_nth:
  "precedes P Q cs \<Longrightarrow> i < length cs \<Longrightarrow> Q (cs ! i) \<Longrightarrow> \<exists>j \<le> i. P (cs ! j)"
proof (induction cs arbitrary: i)
  case Nil
  then show ?case by simp
next
  case (Cons c cs)
  show ?case
  proof (cases "P c")
    case True
    then show ?thesis by (intro exI [of _ 0]) simp
  next
    case False
    with Cons.prems obtain k where k: "i = Suc k"
      by (cases i) auto
    with Cons False obtain j where "j \<le> k" "P (cs ! j)"
      by auto
    with k show ?thesis
      by (intro exI [of _ "Suc j"]) simp
  qed
qed

section \<open>Lists\<close>

lemma list_all_imp: "list_all P xs \<Longrightarrow> (\<And>x. P x \<Longrightarrow> Q x) \<Longrightarrow> list_all Q xs"
  by (induction xs) auto

lemma list_all_takeI: "list_all P xs \<Longrightarrow> list_all P (take n xs)"
  by (auto simp: list_all_iff dest: in_set_takeD)

lemma list_all_dropWhileI: "list_all P xs \<Longrightarrow> list_all P (dropWhile Q xs)"
  by (auto simp: list_all_iff dest: set_dropWhileD)

end
