(* ===== verification/GoStrings.thy ===== *)
theory GoStrings
imports Prelude
begin

text \<open>
  Go strings and the functions of Go's standard library the program applies to them. A Go
  string is a byte sequence, so it is a \<open>string\<close> (a list of 8-bit characters) here and
  \<open>length\<close> is Go's \<open>len\<close>. Where Go iterates over runes the bytes are decoded by
  \<open>utf8_decode\<close>, with U+FFFD of width 1 for every invalid byte, as Go does.
\<close>

section \<open>Bytes and runes\<close>

definition byte_of :: "char \<Rightarrow> nat" where
  "byte_of c = of_char c"

definition byte_char :: "nat \<Rightarrow> char" where
  "byte_char n = char_of n"

lemma byte_char_of [simp]: "byte_char (byte_of c) = c"
  by (simp add: byte_of_def byte_char_def)

lemma byte_of_char_mod: "byte_of (byte_char n) = n mod 256"
  by (simp add: byte_of_def byte_char_def)

lemma byte_of_char [simp]: "n < 256 \<Longrightarrow> byte_of (byte_char n) = n"
  by (simp add: byte_of_char_mod)

lemma byte_of_less [simp]: "byte_of c < 256"
  unfolding byte_of_def using of_char_mod_256 [of c, where 'a = nat] mod_less_divisor [of 256]
  by (metis zero_less_numeral)

lemma byte_of_inject [simp]: "byte_of c = byte_of d \<longleftrightarrow> c = d"
  by (metis byte_char_of)

definition bytes :: "string \<Rightarrow> nat list" where
  "bytes s = map byte_of s"

lemma length_bytes [simp]: "length (bytes s) = length s"
  by (simp add: bytes_def)

definition newline :: string where "newline = [CHR 0x0A]"
definition squote :: string where "squote = [CHR 0x27]"
definition backslash :: string where "backslash = [CHR 0x5C]"

text \<open>One UTF-8 sequence: the rune and its width (\<open>utf8.DecodeRune\<close>).\<close>

definition rune_error :: nat where "rune_error = 0xFFFD"

definition cont_in :: "nat \<Rightarrow> nat \<Rightarrow> nat \<Rightarrow> bool" where
  "cont_in lo hi b \<longleftrightarrow> lo \<le> b \<and> b \<le> hi"

definition second_lo :: "nat \<Rightarrow> nat" where
  "second_lo b0 = (if b0 = 0xE0 then 0xA0 else if b0 = 0xF0 then 0x90 else 0x80)"

definition second_hi :: "nat \<Rightarrow> nat" where
  "second_hi b0 = (if b0 = 0xED then 0x9F else if b0 = 0xF4 then 0x8F else 0xBF)"

definition utf8_next :: "nat \<Rightarrow> nat list \<Rightarrow> nat \<times> nat" where
  "utf8_next b0 r =
     (if b0 < 0x80 then (b0, 1)
      else if b0 < 0xC2 \<or> 0xF4 < b0 then (rune_error, 1)
      else case r of
        [] \<Rightarrow> (rune_error, 1)
      | b1 # r1 \<Rightarrow>
        if \<not> cont_in (second_lo b0) (second_hi b0) b1 then (rune_error, 1)
        else if b0 < 0xE0 then ((b0 mod 0x20) * 0x40 + b1 mod 0x40, 2)
        else case r1 of
          [] \<Rightarrow> (rune_error, 1)
        | b2 # r2 \<Rightarrow>
          if \<not> cont_in 0x80 0xBF b2 then (rune_error, 1)
          else if b0 < 0xF0 then
            ((b0 mod 0x10) * 0x1000 + (b1 mod 0x40) * 0x40 + b2 mod 0x40, 3)
          else case r2 of
            [] \<Rightarrow> (rune_error, 1)
          | b3 # _ \<Rightarrow>
            if \<not> cont_in 0x80 0xBF b3 then (rune_error, 1)
            else ((b0 mod 0x08) * 0x40000 + (b1 mod 0x40) * 0x1000 + (b2 mod 0x40) * 0x40
                  + b3 mod 0x40, 4))"

text \<open>The runes a \<open>for _, r := range s\<close> loop visits.\<close>

fun utf8_decode :: "nat list \<Rightarrow> nat list" where
  "utf8_decode [] = []"
| "utf8_decode (b # bs) = fst (utf8_next b bs) # utf8_decode (drop (snd (utf8_next b bs) - 1) bs)"

definition runes :: "string \<Rightarrow> nat list" where
  "runes s = utf8_decode (bytes s)"

lemma utf8_next_ascii: "b < 0x80 \<Longrightarrow> utf8_next b bs = (b, 1)"
  by (simp add: utf8_next_def)

lemma utf8_decode_ascii: "list_all (\<lambda>b. b < 0x80) bs \<Longrightarrow> utf8_decode bs = bs"
  by (induction bs) (auto simp: utf8_next_ascii)

lemma runes_ascii: "list_all (\<lambda>c. byte_of c < 0x80) s \<Longrightarrow> runes s = bytes s"
  unfolding runes_def by (rule utf8_decode_ascii) (simp add: bytes_def list_all_iff)

text \<open>A string that holds a byte outside ASCII has a rune outside ASCII.\<close>

lemma mod_in_block:
  fixes d k n :: nat
  shows "d * k \<le> n \<Longrightarrow> n < d * k + d \<Longrightarrow> n mod d = n - d * k"
  by (rule mod_nat_eqI) auto

lemma utf8_two_byte:
  fixes b x :: nat
  shows "0xC2 \<le> b \<Longrightarrow> b < 0xE0 \<Longrightarrow> 0x80 \<le> (b mod 0x20) * 0x40 + x"
  using mod_in_block [of 32 6 b] by simp

lemma utf8_three_byte:
  assumes "0xE0 \<le> b" "b < 0xF0" "second_lo b \<le> c" "c \<le> second_hi b"
  shows "0x80 \<le> (b mod 0x10) * 0x1000 + (c mod 0x40) * 0x40 + x"
  using assms mod_in_block [of 16 14 b] mod_in_block [of 64 2 c]
  by (cases "b = 0xE0") (auto simp: second_lo_def second_hi_def)

lemma utf8_four_byte:
  assumes "0xF0 \<le> b" "b \<le> 0xF4" "second_lo b \<le> c" "c \<le> second_hi b"
  shows "0x80 \<le> (b mod 0x08) * 0x40000 + (c mod 0x40) * 0x1000 + y + x"
  using assms mod_in_block [of 8 30 b] mod_in_block [of 64 2 c]
  by (cases "b = 0xF0") (auto simp: second_lo_def second_hi_def)

lemma utf8_next_non_ascii:
  assumes "\<not> b < 0x80"
  shows "\<not> fst (utf8_next b bs) < 0x80"
proof -
  have "0x80 \<le> fst (utf8_next b bs)"
  proof (cases "b < 0xC2 \<or> 0xF4 < b")
    case True
    with assms show ?thesis by (simp add: utf8_next_def rune_error_def)
  next
    case valid: False
    show ?thesis
    proof (cases "b < 0xE0")
      case True
      with valid show ?thesis
        by (simp add: utf8_next_def rune_error_def utf8_two_byte [simplified] split: list.split)
    next
      case three: False
      show ?thesis
      proof (cases "b < 0xF0")
        case True
        with valid three show ?thesis
          using utf8_three_byte [of b]
          by (simp add: utf8_next_def rune_error_def cont_in_def split: list.split)
      next
        case False
        with valid three show ?thesis
          using utf8_four_byte [of b]
          by (simp add: utf8_next_def rune_error_def cont_in_def split: list.split)
      qed
    qed
  qed
  then show ?thesis by simp
qed

lemma utf8_decode_ascii_iff:
  "list_all (\<lambda>r. r < 0x80) (utf8_decode bs) \<longleftrightarrow> list_all (\<lambda>b. b < 0x80) bs"
proof (induction bs)
  case (Cons b bs)
  then show ?case
    by (cases "b < 0x80") (auto simp: utf8_next_ascii utf8_next_non_ascii)
qed simp

text \<open>A test that only accepts ASCII gives the same answer on the runes and on the bytes.\<close>

lemma list_all_runes_iff:
  assumes "\<And>r. P r \<Longrightarrow> r < 0x80"
  shows "list_all P (runes s) \<longleftrightarrow> list_all P (bytes s)"
proof (cases "list_all (\<lambda>b. b < 0x80) (bytes s)")
  case True
  then show ?thesis by (simp add: runes_def utf8_decode_ascii)
next
  case False
  then have "\<not> list_all (\<lambda>r. r < 0x80) (runes s)"
    by (simp add: runes_def utf8_decode_ascii_iff)
  with False assms show ?thesis
    by (meson list_all_imp)
qed

section \<open>The strings package\<close>

definition has_prefix :: "string \<Rightarrow> string \<Rightarrow> bool" where
  "has_prefix s p \<longleftrightarrow> take (length p) s = p"

definition trim_prefix :: "string \<Rightarrow> string \<Rightarrow> string" where
  "trim_prefix s p = (if has_prefix s p then drop (length p) s else s)"

lemma has_prefix_append [simp]: "has_prefix (p @ s) p"
  by (simp add: has_prefix_def)

lemma trim_prefix_append [simp]: "trim_prefix (p @ s) p = s"
  by (simp add: trim_prefix_def)

text \<open>\<open>strings.Trim(s, c)\<close> for a cutset of one ASCII character.\<close>

definition trim_char :: "char \<Rightarrow> string \<Rightarrow> string" where
  "trim_char c s = rev (dropWhile (\<lambda>x. x = c) (rev (dropWhile (\<lambda>x. x = c) s)))"

lemma set_trim_char: "set (trim_char c s) \<subseteq> set s"
  by (auto simp: trim_char_def dest!: set_dropWhileD)

lemma length_trim_char: "length (trim_char c s) \<le> length s"
  unfolding trim_char_def length_rev
  by (rule order_trans [OF length_dropWhile_le]) (simp add: length_dropWhile_le)

definition contains_any :: "string \<Rightarrow> string \<Rightarrow> bool" where
  "contains_any s cs \<longleftrightarrow> list_ex (\<lambda>c. c \<in> set cs) s"

text \<open>
  \<open>strings.ToLower\<close> on one rune, exact up to the choice among non-ASCII results: of the runes
  outside ASCII only U+0130 and the Kelvin sign U+212A lower to an ASCII letter, the others to
  runes outside ASCII, which the code that uses this function replaces by one underscore each.
\<close>

definition lower_rune :: "nat \<Rightarrow> nat" where
  "lower_rune r = (if 0x41 \<le> r \<and> r \<le> 0x5A then r + 0x20
     else if r = 0x130 then 0x69 else if r = 0x212A then 0x6B else r)"

section \<open>Formatting of numbers: the verb d\<close>

fun itoa :: "nat \<Rightarrow> string" where
  "itoa n = (if n < 10 then [byte_char (48 + n)] else itoa (n div 10) @ [byte_char (48 + n mod 10)])"

declare itoa.simps [simp del]

section \<open>encoding/base64\<close>

definition b64_alphabet :: string where
  "b64_alphabet = ''ABCDEFGHIJKLMNOPQRSTUVWXYZabcdefghijklmnopqrstuvwxyz0123456789''"

definition b64_std_char :: "nat \<Rightarrow> char" where
  "b64_std_char n = (b64_alphabet @ ''+/'') ! n"

definition b64_url_char :: "nat \<Rightarrow> char" where
  "b64_url_char n = (b64_alphabet @ ''-_'') ! n"

text \<open>Encoding with a given alphabet and padding: \<open>pad = []\<close> is Go's \<open>Raw\<close> variant.\<close>

fun b64_encode :: "(nat \<Rightarrow> char) \<Rightarrow> string \<Rightarrow> nat list \<Rightarrow> string" where
  "b64_encode f pad [] = []"
| "b64_encode f pad [a] = [f (a div 4), f ((a mod 4) * 16)] @ pad @ pad"
| "b64_encode f pad [a, b] =
     [f (a div 4), f ((a mod 4) * 16 + b div 16), f ((b mod 16) * 4)] @ pad"
| "b64_encode f pad (a # b # c # r) =
     [f (a div 4), f ((a mod 4) * 16 + b div 16), f ((b mod 16) * 4 + c div 64), f (c mod 64)]
     @ b64_encode f pad r"

definition raw_url_encode :: "string \<Rightarrow> string" where
  "raw_url_encode s = b64_encode b64_url_char [] (bytes s)"

definition std_encode :: "string \<Rightarrow> string" where
  "std_encode s = b64_encode b64_std_char ''='' (bytes s)"

lemma length_b64_alphabet: "length b64_alphabet = 62"
  by (simp add: b64_alphabet_def)

definition url_safe_char :: "char \<Rightarrow> bool" where
  "url_safe_char c \<longleftrightarrow> c \<in> set (b64_alphabet @ ''-_'')"

lemma b64_url_char_safe: "n < 64 \<Longrightarrow> url_safe_char (b64_url_char n)"
  unfolding url_safe_char_def b64_url_char_def
  by (rule nth_mem) (simp add: length_b64_alphabet)

text \<open>The sextets the encoder looks up are below 64.\<close>

lemma sextets:
  fixes a b :: nat
  assumes "a < 256"
  shows "a div 4 < 64" and "(a mod 4) * 16 < 64" and "(a mod 16) * 4 < 64" and "a mod 64 < 64"
    and "b < 256 \<Longrightarrow> (a mod 4) * 16 + b div 16 < 64"
    and "b < 256 \<Longrightarrow> (a mod 16) * 4 + b div 64 < 64"
proof -
  have m: "a mod 4 < 4" "a mod 16 < 16" by simp_all
  show "a div 4 < 64" using assms by linarith
  show "(a mod 4) * 16 < 64" "(a mod 16) * 4 < 64" "a mod 64 < 64" using m by simp_all
  show "(a mod 4) * 16 + b div 16 < 64" if "b < 256" using that m by linarith
  show "(a mod 16) * 4 + b div 64 < 64" if "b < 256" using that m by linarith
qed

lemma b64_encode_chars:
  assumes P: "\<And>n. n < 64 \<Longrightarrow> P (f n)" and pad: "list_all P pad" and bs: "list_all (\<lambda>b. b < 256) bs"
  shows "list_all P (b64_encode f pad bs)"
  using bs
  by (induction "length bs" arbitrary: bs rule: less_induct)
    (case_tac bs rule: b64_encode.cases [of "(f, pad, bs)" for bs]; simp add: P pad sextets)

lemma list_all_bytes: "list_all (\<lambda>b. b < 256) (bytes s)"
  by (simp add: bytes_def list_all_iff)

lemma raw_url_encode_safe: "list_all url_safe_char (raw_url_encode s)"
  unfolding raw_url_encode_def
  by (rule b64_encode_chars) (simp_all add: b64_url_char_safe list_all_bytes)

text \<open>Without padding, \<open>n\<close> bytes become \<open>(4 n + 2) div 3\<close> characters (\<open>RawEncoding.EncodedLen\<close>).\<close>

lemma length_b64_encode: "length (b64_encode f [] bs) = (length bs * 4 + 2) div 3"
  by (induction f "[] :: string" bs rule: b64_encode.induct) simp_all

lemma length_raw_url_encode: "length (raw_url_encode s) = (length s * 4 + 2) div 3"
  by (simp add: raw_url_encode_def length_b64_encode)

end
