(* ===== verification/ApiTypes.thy ===== *)
theory ApiTypes
imports GoStrings "HOL-Library.Finite_Map"
begin

text \<open>
  The API types of api/v1alpha1/wordpresssite_types.go and, of the Kubernetes types of other
  modules, the fields that the program reads or writes. A Go pointer that may be nil is an
  \<open>option\<close>; a Go map is a partial function; a nil map and an empty one are told apart only where
  the code does (annotations). A resource quantity is known by its text alone.
\<close>

section \<open>Object metadata\<close>

text \<open>\<open>time.Time\<close>: the zero time, or an instant in seconds.\<close>

datatype gotime = ZeroTime | At int

text \<open>\<open>(*metav1.Time).IsZero\<close>, true of a nil pointer as well.\<close>

fun time_ptr_is_zero :: "gotime option \<Rightarrow> bool" where
  "time_ptr_is_zero None = True"
| "time_ptr_is_zero (Some t) = (t = ZeroTime)"

type_synonym smap = "string \<rightharpoonup> string"

text \<open>
  The data of a Secret, which the code compares, and annotations, of which it asks whether there
  are any, are finite maps.
\<close>

type_synonym sdata = "(string, string) fmap"

datatype owner_ref = OwnerRef (owner_kind: string) (owner_name: string) (owner_controller: bool)

record object_meta =
  m_name :: string
  m_namespace :: string
  m_labels :: smap
  m_annotations :: "sdata option"
  m_finalizers :: "string list"
  m_owners :: "owner_ref list"
  m_resourceVersion :: string
  m_generation :: i64
  m_deletion :: "gotime option"
  m_creation :: gotime

text \<open>A composite literal \<open>metav1.ObjectMeta{Name: n, Namespace: ns, Labels: l}\<close>.\<close>

definition new_meta :: "string \<Rightarrow> string \<Rightarrow> smap \<Rightarrow> object_meta" where
  "new_meta n ns l = \<lparr>m_name = n, m_namespace = ns, m_labels = l, m_annotations = None,
     m_finalizers = [], m_owners = [], m_resourceVersion = [], m_generation = 0,
     m_deletion = None, m_creation = ZeroTime\<rparr>"

section \<open>Types of k8s.io/api used in a WordPressSite\<close>

datatype quantity = Quantity string

datatype env_source = SecretKeyRef (ref_secret: string) (ref_key: string) | OtherEnvSource string

record env_var =
  ev_name :: string
  ev_value :: string
  ev_from :: "env_source option"

record resource_requirements =
  rr_requests :: "string \<rightharpoonup> quantity"
  rr_limits :: "string \<rightharpoonup> quantity"

record condition =
  c_type :: string
  c_status :: string
  c_reason :: string
  c_message :: string
  c_observedGeneration :: i64
  c_lastTransition :: gotime

section \<open>WordPressSite\<close>

record storage_spec =
  st_sharedPVCName :: string
  st_subPath :: string

record database_spec =
  db_name :: string
  db_user :: string
  db_host :: string

record tls_spec =
  tls_enabled :: bool
  tls_issuer :: string
  tls_secretName :: string

record site_spec =
  sp_domain :: string
  sp_aliases :: "string list"
  sp_image :: string
  sp_replicas :: "i32 option"
  sp_resources :: resource_requirements
  sp_storage :: storage_spec
  sp_database :: database_spec
  sp_tls :: tls_spec
  sp_ingressClassName :: string
  sp_ingressAnnotations :: sdata
  sp_env :: "env_var list"
  sp_phpConfig :: string
  sp_phpIni :: string
  sp_tablePrefix :: string
  sp_forceHTTPS :: "bool option"
  sp_suspend :: bool

record site_status =
  ss_phase :: string
  ss_url :: string
  ss_databaseName :: string
  ss_databaseUser :: string
  ss_secretName :: string
  ss_observedGeneration :: i64
  ss_conditions :: "condition list"

record site =
  site_meta :: object_meta
  site_spec :: site_spec
  site_status :: site_status

abbreviation site_name :: "site \<Rightarrow> string" where
  "site_name s \<equiv> m_name (site_meta s)"

abbreviation site_ns :: "site \<Rightarrow> string" where
  "site_ns s \<equiv> m_namespace (site_meta s)"

text \<open>The zero values of the Go structs.\<close>

definition no_resources :: resource_requirements where
  "no_resources = \<lparr>rr_requests = Map.empty, rr_limits = Map.empty\<rparr>"

definition empty_spec :: site_spec where
  "empty_spec = \<lparr>sp_domain = [], sp_aliases = [], sp_image = [], sp_replicas = None,
     sp_resources = no_resources,
     sp_storage = \<lparr>st_sharedPVCName = [], st_subPath = []\<rparr>,
     sp_database = \<lparr>db_name = [], db_user = [], db_host = []\<rparr>,
     sp_tls = \<lparr>tls_enabled = False, tls_issuer = [], tls_secretName = []\<rparr>,
     sp_ingressClassName = [], sp_ingressAnnotations = fmempty, sp_env = [],
     sp_phpConfig = [], sp_phpIni = [], sp_tablePrefix = [], sp_forceHTTPS = None,
     sp_suspend = False\<rparr>"

definition empty_status :: site_status where
  "empty_status = \<lparr>ss_phase = [], ss_url = [], ss_databaseName = [], ss_databaseUser = [],
     ss_secretName = [], ss_observedGeneration = 0, ss_conditions = []\<rparr>"

definition new_site :: "string \<Rightarrow> string \<Rightarrow> site_spec \<Rightarrow> site" where
  "new_site n ns sp =
     \<lparr>site_meta = new_meta n ns Map.empty, site_spec = sp, site_status = empty_status\<rparr>"

text \<open>Phase constants and the finalizer.\<close>

definition PhasePending :: string where "PhasePending = ''Pending''"
definition PhaseProvisioning :: string where "PhaseProvisioning = ''Provisioning''"
definition PhaseReady :: string where "PhaseReady = ''Ready''"
definition PhaseSuspended :: string where "PhaseSuspended = ''Suspended''"
definition PhaseError :: string where "PhaseError = ''Error''"

definition Finalizer :: string where "Finalizer = ''wp.benji.dev/finalizer''"

text \<open>groupversion_info.go: the group and version, and \<open>GroupVersion.String()\<close>.\<close>

definition GroupVersion :: "string \<times> string" where
  "GroupVersion = (''wp.benji.dev'', ''v1alpha1'')"

definition apiVersion :: string where
  "apiVersion = fst GroupVersion @ ''/'' @ snd GroupVersion"

lemmas phase_defs =
  PhasePending_def PhaseProvisioning_def PhaseReady_def PhaseSuspended_def PhaseError_def

section \<open>The objects the operator owns\<close>

record secret =
  sec_meta :: object_meta
  sec_type :: string
  sec_data :: sdata

record configmap =
  cm_meta :: object_meta
  cm_data :: smap

record service_port =
  svp_name :: string
  svp_port :: i32
  svp_targetPort :: i32
  svp_protocol :: string

record service =
  svc_meta :: object_meta
  svc_type :: string
  svc_selector :: smap
  svc_ports :: "service_port list"

record ingress_rule =
  ir_host :: string
  ir_path :: string
  ir_pathType :: string
  ir_backend :: string
  ir_port :: i32

record ingress_tls =
  it_hosts :: "string list"
  it_secretName :: string

record ingress =
  ing_meta :: object_meta
  ing_className :: string
  ing_rules :: "ingress_rule list"
  ing_tls :: "ingress_tls list"

record probe =
  pr_path :: string
  pr_port :: i32
  pr_initialDelay :: i32
  pr_period :: i32
  pr_timeout :: i32
  pr_failureThreshold :: i32

record volume_mount =
  vm_name :: string
  vm_mountPath :: string
  vm_subPath :: string
  vm_readOnly :: bool

datatype volume_source = ClaimVolume string | ConfigMapVolume string

record volume =
  vol_name :: string
  vol_source :: volume_source

record container =
  ct_name :: string
  ct_image :: string
  ct_ports :: "(string \<times> i32) list"
  ct_env :: "env_var list"
  ct_mounts :: "volume_mount list"
  ct_resources :: resource_requirements
  ct_readiness :: probe
  ct_liveness :: probe
  ct_postStart :: "string list option"

record deployment =
  dep_meta :: object_meta
  dep_replicas :: i32
  dep_selector :: smap
  dep_strategy :: string
  dep_podLabels :: smap
  dep_podAnnotations :: smap
  dep_containers :: "container list"
  dep_volumes :: "volume list"

text \<open>The objects that \<open>apply\<close> sends, as the interface type \<open>client.Object\<close>.\<close>

datatype owned =
    OwnedConfigMap configmap
  | OwnedDeployment deployment
  | OwnedService service
  | OwnedIngress ingress

fun owned_meta :: "owned \<Rightarrow> object_meta" where
  "owned_meta (OwnedConfigMap c) = cm_meta c"
| "owned_meta (OwnedDeployment d) = dep_meta d"
| "owned_meta (OwnedService v) = svc_meta v"
| "owned_meta (OwnedIngress i) = ing_meta i"

fun with_meta :: "object_meta \<Rightarrow> owned \<Rightarrow> owned" where
  "with_meta m (OwnedConfigMap c) = OwnedConfigMap (c\<lparr>cm_meta := m\<rparr>)"
| "with_meta m (OwnedDeployment d) = OwnedDeployment (d\<lparr>dep_meta := m\<rparr>)"
| "with_meta m (OwnedService v) = OwnedService (v\<lparr>svc_meta := m\<rparr>)"
| "with_meta m (OwnedIngress i) = OwnedIngress (i\<lparr>ing_meta := m\<rparr>)"

lemma owned_meta_with_meta [simp]: "owned_meta (with_meta m b) = m"
  by (cases b) simp_all

lemma with_meta_owned_meta [simp]: "with_meta (owned_meta b) b = b"
  by (cases b) simp_all

end
