(* ===== verification/Naming.thy ===== *)
theory Naming
imports ApiTypes
begin

text \<open>
  internal/resources/names.go: the names of everything that backs a site. The package variables
  \<open>DefaultSharedPVCName\<close> and \<open>DefaultIngressClass\<close>, set once by cmd/operator, are a record
  the functions take. The lemmas say what alphabet and length the generated names have and on
  which site names they are injective.
\<close>

record globals =
  g_sharedPVCName :: string
  g_ingressClass :: string

definition DefaultSharedPVCName :: string where "DefaultSharedPVCName = ''wordpress-shared''"

section \<open>The functions of names.go\<close>

definition SharedPVCName :: "globals \<Rightarrow> site \<Rightarrow> string" where
  "SharedPVCName g s =
     (if st_sharedPVCName (sp_storage (site_spec s)) \<noteq> []
      then st_sharedPVCName (sp_storage (site_spec s)) else g_sharedPVCName g)"

text \<open>The regular expression \<open>[^a-z0-9_]\<close>, as the runes it does not match.\<close>

definition slug_rune :: "nat \<Rightarrow> bool" where
  "slug_rune r \<longleftrightarrow> (0x61 \<le> r \<and> r \<le> 0x7A) \<or> (0x30 \<le> r \<and> r \<le> 0x39) \<or> r = 0x5F"

definition sanitize_rune :: "nat \<Rightarrow> char" where
  "sanitize_rune r = (if slug_rune (lower_rune r) then byte_char (lower_rune r) else CHR ''_'')"

definition sanitize :: "string \<Rightarrow> string" where
  "sanitize name = trim_char (CHR ''_'') (map sanitize_rune (runes name))"

definition truncate_str :: "string \<Rightarrow> nat \<Rightarrow> string" where
  "truncate_str s n = (if length s \<le> n then s else take n s)"

definition DatabaseName :: "site \<Rightarrow> string" where
  "DatabaseName s =
     (if db_name (sp_database (site_spec s)) \<noteq> [] then db_name (sp_database (site_spec s))
      else truncate_str (''wp_'' @ sanitize (site_name s)) 64)"

definition DatabaseUser :: "site \<Rightarrow> string" where
  "DatabaseUser s =
     (if db_user (sp_database (site_spec s)) \<noteq> [] then db_user (sp_database (site_spec s))
      else truncate_str (''wpu_'' @ sanitize (site_name s)) 32)"

definition DatabaseHost :: "site \<Rightarrow> string" where
  "DatabaseHost s =
     (if db_host (sp_database (site_spec s)) \<noteq> [] then db_host (sp_database (site_spec s))
      else ''%'')"

definition SecretName :: "site \<Rightarrow> string" where
  "SecretName s = site_name s @ ''-wp''"

definition SubPath :: "site \<Rightarrow> string" where
  "SubPath s =
     (if st_subPath (sp_storage (site_spec s)) \<noteq> [] then st_subPath (sp_storage (site_spec s))
      else site_name s)"

definition TLSSecretName :: "site \<Rightarrow> string" where
  "TLSSecretName s =
     (if tls_secretName (sp_tls (site_spec s)) \<noteq> [] then tls_secretName (sp_tls (site_spec s))
      else site_name s @ ''-tls'')"

definition Hosts :: "site \<Rightarrow> string list" where
  "Hosts s = [sp_domain (site_spec s)] @ sp_aliases (site_spec s)"

definition Labels :: "site \<Rightarrow> smap" where
  "Labels s = [''app.kubernetes.io/managed-by'' \<mapsto> ''wordpress-manager-operator'',
     ''app.kubernetes.io/name'' \<mapsto> ''wordpress'',
     ''app.kubernetes.io/instance'' \<mapsto> site_name s,
     ''wp.benji.dev/site'' \<mapsto> site_name s]"

definition URL :: "site \<Rightarrow> string" where
  "URL s = (if tls_enabled (sp_tls (site_spec s)) then ''https'' else ''http'') @ ''://''
     @ sp_domain (site_spec s)"

lemmas naming_defs [name_simps] =
  SharedPVCName_def DatabaseName_def DatabaseUser_def DatabaseHost_def SecretName_def SubPath_def
  TLSSecretName_def Hosts_def URL_def truncate_str_def

section \<open>Alphabet and length of the generated names\<close>

definition slug_char :: "char \<Rightarrow> bool" where
  "slug_char c \<longleftrightarrow> slug_rune (byte_of c)"

lemma slug_rune_ascii: "slug_rune r \<Longrightarrow> r < 0x80"
  by (auto simp: slug_rune_def)

lemma slug_char_underscore [simp]: "slug_char (CHR ''_'')"
  by (simp add: slug_char_def slug_rune_def byte_of_def)

lemma slug_sanitize_rune: "slug_char (sanitize_rune r)"
proof (cases "slug_rune (lower_rune r)")
  case True
  with slug_rune_ascii [OF True] show ?thesis
    by (simp add: sanitize_rune_def slug_char_def)
next
  case False
  then show ?thesis
    by (simp only: sanitize_rune_def if_False slug_char_underscore)
qed

lemma sanitize_slug: "list_all slug_char (sanitize n)"
  using set_trim_char [of "CHR ''_''" "map sanitize_rune (runes n)"]
  by (auto simp: sanitize_def list_all_iff slug_sanitize_rune)

lemma length_truncate: "length (truncate_str s n) \<le> n"
  by (simp add: truncate_str_def)

lemma truncate_prefix: "\<exists>r. s = truncate_str s n @ r"
  by (metis append_Nil2 append_take_drop_id truncate_str_def)

lemma truncate_nonempty: "s \<noteq> [] \<Longrightarrow> 0 < n \<Longrightarrow> truncate_str s n \<noteq> []"
  by (simp add: truncate_str_def)

lemma list_all_truncate: "list_all P s \<Longrightarrow> list_all P (truncate_str s n)"
  by (simp add: truncate_str_def list_all_takeI)

section \<open>Where the generated names are injective\<close>

text \<open>The names Kubernetes calls DNS labels: letters, digits and inner hyphens.\<close>

definition label_char :: "char \<Rightarrow> bool" where
  "label_char c \<longleftrightarrow> (let b = byte_of c in
     (0x61 \<le> b \<and> b \<le> 0x7A) \<or> (0x30 \<le> b \<and> b \<le> 0x39) \<or> b = 0x2D)"

definition dns_label :: "string \<Rightarrow> bool" where
  "dns_label n \<longleftrightarrow> n \<noteq> [] \<and> list_all label_char n \<and> hd n \<noteq> CHR ''-'' \<and> last n \<noteq> CHR ''-''"

text \<open>On such a name \<open>sanitize\<close> only turns hyphens into underscores.\<close>

definition slug_of_label_char :: "char \<Rightarrow> char" where
  "slug_of_label_char c = (if c = CHR ''-'' then CHR ''_'' else c)"

lemma byte_of_eq_iff: "n < 256 \<Longrightarrow> byte_of c = n \<longleftrightarrow> c = byte_char n"
  using byte_of_char byte_char_of by metis

lemma hyphen_underscore [simp]: "byte_char 0x2D = CHR ''-''" "byte_char 0x5F = CHR ''_''"
  using byte_char_of [of "CHR ''-''"] byte_char_of [of "CHR ''_''"]
  by (simp_all add: byte_of_def del: byte_char_of)

lemma sanitize_rune_label: "label_char c \<Longrightarrow> sanitize_rune (byte_of c) = slug_of_label_char c"
proof (cases "byte_of c = 0x2D")
  case True
  then have "c = CHR ''-''" by (simp add: byte_of_eq_iff)
  then show ?thesis
    by (simp add: sanitize_rune_def slug_rune_def lower_rune_def slug_of_label_char_def byte_of_def)
next
  case False
  moreover assume "label_char c"
  ultimately have "slug_rune (byte_of c)" "lower_rune (byte_of c) = byte_of c" "c \<noteq> CHR ''-''"
    by (auto simp: label_char_def slug_rune_def lower_rune_def Let_def byte_of_def)
  then show ?thesis by (simp add: sanitize_rune_def slug_of_label_char_def)
qed

lemma label_char_ascii: "label_char c \<Longrightarrow> byte_of c < 0x80"
  by (auto simp: label_char_def Let_def)

lemma label_char_not_underscore: "label_char c \<Longrightarrow> c \<noteq> CHR ''_''"
  by (auto simp: label_char_def byte_of_def)

lemma dropWhile_hd: "xs = [] \<or> \<not> P (hd xs) \<Longrightarrow> dropWhile P xs = xs"
  by (cases xs) auto

lemma trim_char_id: "xs \<noteq> [] \<Longrightarrow> hd xs \<noteq> c \<Longrightarrow> last xs \<noteq> c \<Longrightarrow> trim_char c xs = xs"
  by (simp add: trim_char_def dropWhile_hd hd_rev)

lemma slug_not_underscore:
  "label_char c \<Longrightarrow> c \<noteq> CHR ''-'' \<Longrightarrow> slug_of_label_char c \<noteq> CHR ''_''"
  using label_char_not_underscore [of c] by (auto simp: slug_of_label_char_def)

lemma sanitize_label: "dns_label n \<Longrightarrow> sanitize n = map slug_of_label_char n"
proof -
  assume n: "dns_label n"
  then have "runes n = bytes n"
    by (auto intro!: runes_ascii simp: dns_label_def list_all_iff label_char_ascii)
  then have "map sanitize_rune (runes n) = map slug_of_label_char n"
    using n by (auto simp: bytes_def dns_label_def list_all_iff sanitize_rune_label)
  moreover have "slug_of_label_char (hd n) \<noteq> CHR ''_''" "slug_of_label_char (last n) \<noteq> CHR ''_''"
    using n by (simp_all add: dns_label_def list_all_iff slug_not_underscore)
  ultimately show ?thesis
    using n by (simp add: sanitize_def dns_label_def trim_char_id hd_map last_map)
qed

lemma slug_of_label_inj:
  "label_char c \<Longrightarrow> label_char d \<Longrightarrow> slug_of_label_char c = slug_of_label_char d \<Longrightarrow> c = d"
  using label_char_not_underscore by (auto simp: slug_of_label_char_def split: if_splits)

lemma sanitize_label_inj:
  assumes m: "dns_label m" and n: "dns_label n" and eq: "sanitize m = sanitize n"
  shows "m = n"
proof -
  have "map slug_of_label_char m = map slug_of_label_char n"
    using assms by (simp add: sanitize_label)
  moreover have "inj_on slug_of_label_char (set m \<union> set n)"
    using m n slug_of_label_inj by (auto simp: dns_label_def list_all_iff intro!: inj_onI)
  ultimately show ?thesis
    by (rule map_inj_on)
qed

lemma length_sanitize_label: "dns_label n \<Longrightarrow> length (sanitize n) = length n"
  by (simp add: sanitize_label)

end
