(* ===== verification/Sha256.thy ===== *)
theory Sha256
imports GoStrings
begin

text \<open>
  The two functions of the standard library behind \<open>PHPIniHash\<close>: \<open>crypto/sha256.Sum256\<close>
  (FIPS 180-4) and \<open>encoding/hex.EncodeToString\<close>, on 32-bit words with wrap-around addition.
\<close>

unbundle bit_operations_syntax

section \<open>SHA-256\<close>

definition sha_k :: "i32 list" where
  "sha_k =
    [0x428a2f98, 0x71374491, 0xb5c0fbcf, 0xe9b5dba5, 0x3956c25b, 0x59f111f1, 0x923f82a4, 0xab1c5ed5,
     0xd807aa98, 0x12835b01, 0x243185be, 0x550c7dc3, 0x72be5d74, 0x80deb1fe, 0x9bdc06a7, 0xc19bf174,
     0xe49b69c1, 0xefbe4786, 0x0fc19dc6, 0x240ca1cc, 0x2de92c6f, 0x4a7484aa, 0x5cb0a9dc, 0x76f988da,
     0x983e5152, 0xa831c66d, 0xb00327c8, 0xbf597fc7, 0xc6e00bf3, 0xd5a79147, 0x06ca6351, 0x14292967,
     0x27b70a85, 0x2e1b2138, 0x4d2c6dfc, 0x53380d13, 0x650a7354, 0x766a0abb, 0x81c2c92e, 0x92722c85,
     0xa2bfe8a1, 0xa81a664b, 0xc24b8b70, 0xc76c51a3, 0xd192e819, 0xd6990624, 0xf40e3585, 0x106aa070,
     0x19a4c116, 0x1e376c08, 0x2748774c, 0x34b0bcb5, 0x391c0cb3, 0x4ed8aa4a, 0x5b9cca4f, 0x682e6ff3,
     0x748f82ee, 0x78a5636f, 0x84c87814, 0x8cc70208, 0x90befffa, 0xa4506ceb, 0xbef9a3f7, 0xc67178f2]"

type_synonym sha_state = "i32 \<times> i32 \<times> i32 \<times> i32 \<times> i32 \<times> i32 \<times> i32 \<times> i32"

definition sha_init :: sha_state where
  "sha_init = (0x6a09e667, 0xbb67ae85, 0x3c6ef372, 0xa54ff53a,
               0x510e527f, 0x9b05688c, 0x1f83d9ab, 0x5be0cd19)"

definition small_sigma0 :: "i32 \<Rightarrow> i32" where
  "small_sigma0 x = word_rotr 7 x XOR word_rotr 18 x XOR drop_bit 3 x"

definition small_sigma1 :: "i32 \<Rightarrow> i32" where
  "small_sigma1 x = word_rotr 17 x XOR word_rotr 19 x XOR drop_bit 10 x"

definition big_sigma0 :: "i32 \<Rightarrow> i32" where
  "big_sigma0 x = word_rotr 2 x XOR word_rotr 13 x XOR word_rotr 22 x"

definition big_sigma1 :: "i32 \<Rightarrow> i32" where
  "big_sigma1 x = word_rotr 6 x XOR word_rotr 11 x XOR word_rotr 25 x"

definition sha_ch :: "i32 \<Rightarrow> i32 \<Rightarrow> i32 \<Rightarrow> i32" where
  "sha_ch x y z = (x AND y) XOR (NOT x AND z)"

definition sha_maj :: "i32 \<Rightarrow> i32 \<Rightarrow> i32 \<Rightarrow> i32" where
  "sha_maj x y z = (x AND y) XOR (x AND z) XOR (y AND z)"

text \<open>Padding to a multiple of 64 bytes: a 1 bit, zeros, the length in bits as 8 bytes.\<close>

definition be_bytes :: "nat \<Rightarrow> nat \<Rightarrow> nat list" where
  "be_bytes n x = map (\<lambda>i. (x div 256 ^ (n - 1 - i)) mod 256) [0..<n]"

definition sha_pad :: "nat list \<Rightarrow> nat list" where
  "sha_pad m = m @ [0x80] @ replicate ((119 - length m mod 64) mod 64) 0 @ be_bytes 8 (8 * length m)"

fun words_of :: "nat list \<Rightarrow> i32 list" where
  "words_of (a # b # c # d # r) =
     of_nat (a * 0x1000000 + b * 0x10000 + c * 0x100 + d) # words_of r"
| "words_of _ = []"

text \<open>The message schedule: 48 words follow the 16 of the block.\<close>

fun sha_extend :: "nat \<Rightarrow> i32 list \<Rightarrow> i32 list" where
  "sha_extend 0 ws = ws"
| "sha_extend (Suc n) ws =
     (let i = length ws in
      sha_extend n (ws @ [small_sigma1 (ws ! (i - 2)) + ws ! (i - 7)
                          + small_sigma0 (ws ! (i - 15)) + ws ! (i - 16)]))"

fun sha_round :: "i32 \<times> i32 \<Rightarrow> sha_state \<Rightarrow> sha_state" where
  "sha_round (k, w) (a, b, c, d, e, f, g, h) =
     (let t1 = h + big_sigma1 e + sha_ch e f g + k + w;
          t2 = big_sigma0 a + sha_maj a b c
      in (t1 + t2, a, b, c, d + t1, e, f, g))"

fun sha_add :: "sha_state \<Rightarrow> sha_state \<Rightarrow> sha_state" where
  "sha_add (a, b, c, d, e, f, g, h) (a', b', c', d', e', f', g', h') =
     (a + a', b + b', c + c', d + d', e + e', f + f', g + g', h + h')"

definition sha_block :: "i32 list \<Rightarrow> sha_state \<Rightarrow> sha_state" where
  "sha_block blk s = sha_add s (fold sha_round (zip sha_k (sha_extend 48 blk)) s)"

fun sha_blocks :: "i32 list \<Rightarrow> sha_state \<Rightarrow> sha_state" where
  "sha_blocks ws s = (if length ws < 16 then s else sha_blocks (drop 16 ws) (sha_block (take 16 ws) s))"

declare sha_blocks.simps [simp del]

fun sha_words :: "sha_state \<Rightarrow> i32 list" where
  "sha_words (a, b, c, d, e, f, g, h) = [a, b, c, d, e, f, g, h]"

definition sum256 :: "string \<Rightarrow> nat list" where
  "sum256 s = concat (map (\<lambda>w. be_bytes 4 (unat w))
     (sha_words (sha_blocks (words_of (sha_pad (bytes s))) sha_init)))"

lemma length_be_bytes [simp]: "length (be_bytes n x) = n"
  by (simp add: be_bytes_def)

lemma be_bytes_less: "list_all (\<lambda>b. b < 256) (be_bytes n x)"
  by (simp add: be_bytes_def list_all_iff)

lemma length_sum256: "length (sum256 s) = 32"
proof -
  obtain a b c d e f g h where
    "sha_blocks (words_of (sha_pad (bytes s))) sha_init = (a, b, c, d, e, f, g, h)"
    by (cases "sha_blocks (words_of (sha_pad (bytes s))) sha_init") auto
  then show ?thesis by (simp add: sum256_def)
qed

section \<open>Hexadecimal\<close>

definition hex_digit :: "nat \<Rightarrow> char" where
  "hex_digit n = ''0123456789abcdef'' ! n"

definition hex_encode :: "nat list \<Rightarrow> string" where
  "hex_encode bs = concat (map (\<lambda>b. [hex_digit (b div 16), hex_digit (b mod 16)]) bs)"

lemma length_hex_encode: "length (hex_encode bs) = 2 * length bs"
  by (induction bs) (simp_all add: hex_encode_def)

end
