(* ===== verification/PhpConfig.thy ===== *)
theory PhpConfig
imports Naming Sha256
begin

text \<open>
  internal/resources/configmap.go and the constants of deployment.go it uses: the php.ini of a
  site, its hash, and the ConfigMap that carries it with the forwarded-proto snippet.
\<close>

section \<open>Constants\<close>

definition PHPIniFileName :: string where
  "PHPIniFileName = ''zz-wpmgr.ini''"

definition PHPMountPath :: string where
  "PHPMountPath = ''/usr/local/etc/php/conf.d/'' @ PHPIniFileName"

definition DefaultPHPIni :: string where
  "DefaultPHPIni =
     ''file_uploads = On'' @ newline @
     ''memory_limit = 256M'' @ newline @
     ''upload_max_filesize = 500M'' @ newline @
     ''post_max_size = 500M'' @ newline @
     ''max_execution_time = 300'' @ newline @
     newline @
     ''; Ensure mysqli is enabled'' @ newline @
     ''extension=mysqli'' @ newline"

definition ForceHTTPSSnippet :: string where
  "ForceHTTPSSnippet = ''$_SERVER['' @ squote @ ''HTTP_X_FORWARDED_PROTO'' @ squote @ ''] = ''
     @ squote @ ''https'' @ squote @ '';''"

definition ForwardedProtoFile :: string where
  "ForwardedProtoFile = ''forwarded-proto.php''"

definition ForwardedProtoMount :: string where
  "ForwardedProtoMount = ''/etc/wpmgr/'' @ ForwardedProtoFile"

definition forwardedProtoMarker :: string where
  "forwardedProtoMarker = ''wpmgr-forwarded-proto''"

definition forwardedProtoPostStart :: string where
  "forwardedProtoPostStart =
     ''f=\"${WPMGR_WPCONFIG:-/var/www/html/wp-config.php}\"; '' @
     ''snip=\"${WPMGR_SNIPPET:-'' @ ForwardedProtoMount @ ''}\"; '' @
     ''for i in $(seq 1 60); do [ -f \"$f\" ] && break; sleep 1; done; '' @
     ''if [ -f \"$f\" ] && ! grep -q '' @ forwardedProtoMarker @ '' \"$f\"; then '' @
     ''sed \"/^<?php/r $snip\" \"$f\" > \"$f.wpmgr\" && mv \"$f.wpmgr\" \"$f\"; fi; exit 0''"

section \<open>The functions of configmap.go\<close>

definition PHPConfigMapName :: "site \<Rightarrow> string" where
  "PHPConfigMapName s = site_name s @ ''-php''"

definition EffectivePHPIni :: "site \<Rightarrow> string" where
  "EffectivePHPIni s = (if sp_phpIni (site_spec s) \<noteq> [] then sp_phpIni (site_spec s) else DefaultPHPIni)"

definition PHPIniHash :: "site \<Rightarrow> string" where
  "PHPIniHash s = take 16 (hex_encode (sum256 (EffectivePHPIni s)))"

definition DesiredPHPConfigMap :: "site \<Rightarrow> configmap" where
  "DesiredPHPConfigMap s =
     \<lparr>cm_meta = new_meta (PHPConfigMapName s) (site_ns s) (Labels s),
      cm_data = [PHPIniFileName \<mapsto> EffectivePHPIni s,
        ForwardedProtoFile \<mapsto> ForceHTTPSSnippet @ '' // '' @ forwardedProtoMarker @ newline]\<rparr>"

section \<open>Lemmas\<close>

lemma php_keys_distinct: "PHPIniFileName \<noteq> ForwardedProtoFile"
  by (simp add: PHPIniFileName_def ForwardedProtoFile_def)

lemma EffectivePHPIni_nonempty: "EffectivePHPIni s \<noteq> []"
  by (simp add: EffectivePHPIni_def DefaultPHPIni_def)

lemma length_PHPIniHash: "length (PHPIniHash s) = 16"
  by (simp add: PHPIniHash_def length_hex_encode length_sum256)

lemma ConfigMap_php_ini [build_simps]:
  "cm_data (DesiredPHPConfigMap s) PHPIniFileName = Some (EffectivePHPIni s)"
  using php_keys_distinct by (simp add: DesiredPHPConfigMap_def)

lemma ConfigMap_snippet [build_simps]:
  "cm_data (DesiredPHPConfigMap s) ForwardedProtoFile =
     Some (ForceHTTPSSnippet @ '' // '' @ forwardedProtoMarker @ newline)"
  by (simp add: DesiredPHPConfigMap_def)

end
