(* ===== verification/Externals.thy ===== *)
theory Externals
imports Naming
begin

text \<open>
  What the program uses and src/ does not hold: the controller-runtime client, its controllerutil
  helpers, the SQL drivers and the file system, the clock, the random source, and the JWT, bcrypt
  and TOTP packages. Each is a parameter: a field of a record of functions on the environment,
  about which nothing is assumed. \<open>ext_call\<close> names the calls in the ghost trace.
\<close>

section \<open>Objects the program only reads\<close>

record container_state =
  cs_ready :: bool
  cs_restartCount :: i32
  cs_waiting :: "(string \<times> string) option"
  cs_terminated :: "(string \<times> string) option"

record pod_condition =
  pc_type :: string
  pc_status :: string
  pc_reason :: string
  pc_message :: string

record pod =
  pod_meta :: object_meta
  pod_containers :: "string list"
  pod_nodeName :: string
  pod_phase :: string
  pod_reason :: string
  pod_statuses :: "container_state list"
  pod_conditions :: "pod_condition list"

record kube_event =
  ke_type :: string
  ke_reason :: string
  ke_message :: string
  ke_count :: i32
  ke_kind :: string
  ke_name :: string
  ke_lastTimestamp :: gotime
  ke_eventTime :: gotime

record node =
  nd_name :: string
  nd_capacity :: "string \<rightharpoonup> quantity"
  nd_allocatable :: "string \<rightharpoonup> quantity"

record node_usage =
  nu_name :: string
  nu_usage :: "string \<rightharpoonup> quantity"

record pod_usage =
  pu_labels :: smap
  pu_containers :: "(string \<rightharpoonup> quantity) list"

section \<open>The calls\<close>

record manager_options =
  mo_metricsAddr :: string
  mo_healthAddr :: string
  mo_leaderElection :: bool
  mo_leaderElectionID :: string

datatype ext_call =
    CGetSite string string
  | CListSites string
  | CCreateSite site
  | CUpdateSite site
  | CDeleteSite site
  | CStatusUpdate site
  | CGetSecret string string
  | CCreateSecret secret
  | CUpdateSecret secret
  | CGetOwned owned
  | CCreateOwned owned
  | CUpdateOwned owned
  | CPatchOwned string owned
  | CListPods string string
  | CListEvents string
  | CListNodes
  | CListNodeUsage
  | CListPodUsage string
  | CNow
  | CRand nat
  | CSqlOpen string string
  | CSqlPing
  | CSqlExec string "string list"
  | CSqlClose
  | CRemoveFile string
  | CMakeDir string
  | CMapOrder
  | CEnsureDatabase string string string string
  | CDropDatabase string string string
  | CTotpGenerate string string
  | CTotpValidate string string
  | CQrImage string
  | CSignToken string
  | CParseToken string
  | CHashPassword
  | CGetConfig
  | CNewClient
  | CNewManager manager_options
  | CComplete string "string list"
  | CAddHealthz string
  | CAddReadyz string
  | CStart
  | CServe string "string list"
  | CShutdown nat

type_synonym traced = "ext_call \<times> go_error option"
type_synonym ('e, 'a) prog = "('e, ext_call, 'a) act"
type_synonym 'e state_of = "('e, ext_call) world"

text \<open>Calls of a database driver (or of the file system, for a SQLite file).\<close>

fun db_driver_call :: "traced \<Rightarrow> bool" where
  "db_driver_call (CSqlOpen _ _, _) = True"
| "db_driver_call (CSqlPing, _) = True"
| "db_driver_call (CSqlExec _ _, _) = True"
| "db_driver_call (CSqlClose, _) = True"
| "db_driver_call (CRemoveFile _, _) = True"
| "db_driver_call (CMapOrder, _) = True"
| "db_driver_call _ = False"

text \<open>Writes of the objects a site owns other than its Secret.\<close>

fun workload_write :: "traced \<Rightarrow> bool" where
  "workload_write (CCreateOwned _, _) = True"
| "workload_write (CUpdateOwned _, _) = True"
| "workload_write (CPatchOwned _ _, _) = True"
| "workload_write _ = False"

text \<open>Calls that change nothing: reads, the clock, the random source.\<close>

fun read_call :: "traced \<Rightarrow> bool" where
  "read_call (CGetSite _ _, _) = True"
| "read_call (CListSites _, _) = True"
| "read_call (CGetSecret _ _, _) = True"
| "read_call (CGetOwned _, _) = True"
| "read_call (CListPods _ _, _) = True"
| "read_call (CListEvents _, _) = True"
| "read_call (CListNodes, _) = True"
| "read_call (CListNodeUsage, _) = True"
| "read_call (CListPodUsage _, _) = True"
| "read_call (CNow, _) = True"
| "read_call (CRand _, _) = True"
| "read_call (CTotpValidate _ _, _) = True"
| "read_call (CSignToken _, _) = True"
| "read_call (CParseToken _, _) = True"
| "read_call _ = False"

section \<open>The Kubernetes client\<close>

text \<open>
  \<open>client.Client\<close> at the kinds the program uses. \<open>Create\<close>, \<open>Update\<close> and \<open>Status().Update\<close>
  decode the server's answer into the object they are given: the result is that object. A call
  that fails leaves the object as it was. \<open>k_getOwned\<close> reads the object with the kind and key of
  its argument; \<open>k_patchOwned\<close> is Server-Side Apply with field owner "wordpress-operator" and
  forced ownership.
\<close>

record 'e kube =
  k_getSite :: "string \<Rightarrow> string \<Rightarrow> 'e \<Rightarrow> site result \<times> 'e"
  k_listSites :: "string \<Rightarrow> 'e \<Rightarrow> site list result \<times> 'e"
  k_createSite :: "site \<Rightarrow> 'e \<Rightarrow> site result \<times> 'e"
  k_updateSite :: "site \<Rightarrow> 'e \<Rightarrow> site result \<times> 'e"
  k_deleteSite :: "site \<Rightarrow> 'e \<Rightarrow> unit result \<times> 'e"
  k_statusUpdate :: "site \<Rightarrow> 'e \<Rightarrow> site result \<times> 'e"
  k_getSecret :: "string \<Rightarrow> string \<Rightarrow> 'e \<Rightarrow> secret result \<times> 'e"
  k_createSecret :: "secret \<Rightarrow> 'e \<Rightarrow> secret result \<times> 'e"
  k_updateSecret :: "secret \<Rightarrow> 'e \<Rightarrow> secret result \<times> 'e"
  k_getOwned :: "owned \<Rightarrow> 'e \<Rightarrow> owned result \<times> 'e"
  k_createOwned :: "owned \<Rightarrow> 'e \<Rightarrow> unit result \<times> 'e"
  k_updateOwned :: "owned \<Rightarrow> 'e \<Rightarrow> unit result \<times> 'e"
  k_patchOwned :: "string \<Rightarrow> owned \<Rightarrow> 'e \<Rightarrow> unit result \<times> 'e"
  k_listPods :: "string \<Rightarrow> string \<Rightarrow> 'e \<Rightarrow> pod list result \<times> 'e"
  k_listEvents :: "string \<Rightarrow> 'e \<Rightarrow> kube_event list result \<times> 'e"
  k_listNodes :: "'e \<Rightarrow> node list result \<times> 'e"
  k_listNodeUsage :: "'e \<Rightarrow> node_usage list result \<times> 'e"
  k_listPodUsage :: "string \<Rightarrow> 'e \<Rightarrow> pod_usage list result \<times> 'e"
  k_now :: "'e \<Rightarrow> gotime \<times> 'e"
  k_rand :: "nat \<Rightarrow> 'e \<Rightarrow> string \<times> 'e"
  k_addFinalizer :: "site \<Rightarrow> string \<Rightarrow> site \<times> bool"
  k_removeFinalizer :: "site \<Rightarrow> string \<Rightarrow> site"
  k_containsFinalizer :: "site \<Rightarrow> string \<Rightarrow> bool"
  k_setControllerRef :: "site \<Rightarrow> object_meta \<Rightarrow> object_meta result"
  k_gvk :: "owned \<Rightarrow> string result"
  k_milliValue :: "quantity \<Rightarrow> i64"
  k_value :: "quantity \<Rightarrow> i64"

text \<open>The same operations as programs: they run on the world and leave their name in the trace.\<close>

definition getSite :: "'e kube \<Rightarrow> string \<Rightarrow> string \<Rightarrow> ('e, site result) prog" where
  "getSite k ns n = call (CGetSite ns n) (k_getSite k ns n)"

definition listSites :: "'e kube \<Rightarrow> string \<Rightarrow> ('e, site list result) prog" where
  "listSites k ns = call (CListSites ns) (k_listSites k ns)"

definition createSiteObj :: "'e kube \<Rightarrow> site \<Rightarrow> ('e, site result) prog" where
  "createSiteObj k s = call (CCreateSite s) (k_createSite k s)"

definition updateSiteObj :: "'e kube \<Rightarrow> site \<Rightarrow> ('e, site result) prog" where
  "updateSiteObj k s = call (CUpdateSite s) (k_updateSite k s)"

definition deleteSiteObj :: "'e kube \<Rightarrow> site \<Rightarrow> ('e, unit result) prog" where
  "deleteSiteObj k s = call (CDeleteSite s) (k_deleteSite k s)"

definition statusUpdate :: "'e kube \<Rightarrow> site \<Rightarrow> ('e, site result) prog" where
  "statusUpdate k s = call (CStatusUpdate s) (k_statusUpdate k s)"

definition getSecret :: "'e kube \<Rightarrow> string \<Rightarrow> string \<Rightarrow> ('e, secret result) prog" where
  "getSecret k ns n = call (CGetSecret ns n) (k_getSecret k ns n)"

definition createSecret :: "'e kube \<Rightarrow> secret \<Rightarrow> ('e, secret result) prog" where
  "createSecret k s = call (CCreateSecret s) (k_createSecret k s)"

definition updateSecret :: "'e kube \<Rightarrow> secret \<Rightarrow> ('e, secret result) prog" where
  "updateSecret k s = call (CUpdateSecret s) (k_updateSecret k s)"

definition getOwned :: "'e kube \<Rightarrow> owned \<Rightarrow> ('e, owned result) prog" where
  "getOwned k b = call (CGetOwned b) (k_getOwned k b)"

definition createOwned :: "'e kube \<Rightarrow> owned \<Rightarrow> ('e, unit result) prog" where
  "createOwned k b = call (CCreateOwned b) (k_createOwned k b)"

definition updateOwned :: "'e kube \<Rightarrow> owned \<Rightarrow> ('e, unit result) prog" where
  "updateOwned k b = call (CUpdateOwned b) (k_updateOwned k b)"

definition patchOwned :: "'e kube \<Rightarrow> string \<Rightarrow> owned \<Rightarrow> ('e, unit result) prog" where
  "patchOwned k gvk b = call (CPatchOwned gvk b) (k_patchOwned k gvk b)"

definition listPods :: "'e kube \<Rightarrow> string \<Rightarrow> string \<Rightarrow> ('e, pod list result) prog" where
  "listPods k ns site = call (CListPods ns site) (k_listPods k ns site)"

definition listEvents :: "'e kube \<Rightarrow> string \<Rightarrow> ('e, kube_event list result) prog" where
  "listEvents k ns = call (CListEvents ns) (k_listEvents k ns)"

definition listNodes :: "'e kube \<Rightarrow> ('e, node list result) prog" where
  "listNodes k = call CListNodes (k_listNodes k)"

definition listNodeUsage :: "'e kube \<Rightarrow> ('e, node_usage list result) prog" where
  "listNodeUsage k = call CListNodeUsage (k_listNodeUsage k)"

definition listPodUsage :: "'e kube \<Rightarrow> string \<Rightarrow> ('e, pod_usage list result) prog" where
  "listPodUsage k ns = call (CListPodUsage ns) (k_listPodUsage k ns)"

definition timeNow :: "'e kube \<Rightarrow> ('e, gotime) prog" where
  "timeNow k = query CNow (k_now k)"

definition randRead :: "'e kube \<Rightarrow> nat \<Rightarrow> ('e, string) prog" where
  "randRead k n = query (CRand n) (k_rand k n)"

lemmas client_defs =
  getSite_def listSites_def createSiteObj_def updateSiteObj_def deleteSiteObj_def statusUpdate_def
  getSecret_def createSecret_def updateSecret_def getOwned_def createOwned_def updateOwned_def
  patchOwned_def listPods_def listEvents_def listNodes_def listNodeUsage_def listPodUsage_def
  timeNow_def randRead_def

lemmas run_client [run_simps] = client_defs [THEN arg_cong, of run_state]

text \<open>Each makes the one call it names.\<close>

lemma emits_client [emits_intros]:
  "(\<And>r. P (CGetSite ns n, r)) \<Longrightarrow> emits P (getSite k ns n)"
  "(\<And>r. P (CListSites ns, r)) \<Longrightarrow> emits P (listSites k ns)"
  "(\<And>r. P (CCreateSite s, r)) \<Longrightarrow> emits P (createSiteObj k s)"
  "(\<And>r. P (CUpdateSite s, r)) \<Longrightarrow> emits P (updateSiteObj k s)"
  "(\<And>r. P (CDeleteSite s, r)) \<Longrightarrow> emits P (deleteSiteObj k s)"
  "(\<And>r. P (CStatusUpdate s, r)) \<Longrightarrow> emits P (statusUpdate k s)"
  "(\<And>r. P (CGetSecret ns n, r)) \<Longrightarrow> emits P (getSecret k ns n)"
  "(\<And>r. P (CCreateSecret sec, r)) \<Longrightarrow> emits P (createSecret k sec)"
  "(\<And>r. P (CUpdateSecret sec, r)) \<Longrightarrow> emits P (updateSecret k sec)"
  "(\<And>r. P (CGetOwned b, r)) \<Longrightarrow> emits P (getOwned k b)"
  "(\<And>r. P (CCreateOwned b, r)) \<Longrightarrow> emits P (createOwned k b)"
  "(\<And>r. P (CUpdateOwned b, r)) \<Longrightarrow> emits P (updateOwned k b)"
  "(\<And>r. P (CPatchOwned gvk b, r)) \<Longrightarrow> emits P (patchOwned k gvk b)"
  "(\<And>r. P (CListPods ns n, r)) \<Longrightarrow> emits P (listPods k ns n)"
  "(\<And>r. P (CListEvents ns, r)) \<Longrightarrow> emits P (listEvents k ns)"
  "(\<And>r. P (CListNodes, r)) \<Longrightarrow> emits P (listNodes k)"
  "(\<And>r. P (CListNodeUsage, r)) \<Longrightarrow> emits P (listNodeUsage k)"
  "(\<And>r. P (CListPodUsage ns, r)) \<Longrightarrow> emits P (listPodUsage k ns)"
  "P (CNow, None) \<Longrightarrow> emits P (timeNow k)"
  "P (CRand m, None) \<Longrightarrow> emits P (randRead k m)"
  by (auto simp: client_defs intro: emits_intros)

lemma runs_client [wp]:
  "(\<And>r. Q1 r [(CGetSite ns n, err_of r)]) \<Longrightarrow> runs (getSite k ns n) Q1"
  "(\<And>r. Q2 r [(CListSites ns, err_of r)]) \<Longrightarrow> runs (listSites k ns) Q2"
  "(\<And>r. Q3 r [(CCreateSite s, err_of r)]) \<Longrightarrow> runs (createSiteObj k s) Q3"
  "(\<And>r. Q4 r [(CUpdateSite s, err_of r)]) \<Longrightarrow> runs (updateSiteObj k s) Q4"
  "(\<And>r. Q5 r [(CDeleteSite s, err_of r)]) \<Longrightarrow> runs (deleteSiteObj k s) Q5"
  "(\<And>r. Q6 r [(CStatusUpdate s, err_of r)]) \<Longrightarrow> runs (statusUpdate k s) Q6"
  "(\<And>r. Q7 r [(CGetSecret ns n, err_of r)]) \<Longrightarrow> runs (getSecret k ns n) Q7"
  "(\<And>r. Q8 r [(CCreateSecret sec, err_of r)]) \<Longrightarrow> runs (createSecret k sec) Q8"
  "(\<And>r. Q9 r [(CUpdateSecret sec, err_of r)]) \<Longrightarrow> runs (updateSecret k sec) Q9"
  "(\<And>r. Q10 r [(CGetOwned b, err_of r)]) \<Longrightarrow> runs (getOwned k b) Q10"
  "(\<And>r. Q11 r [(CCreateOwned b, err_of r)]) \<Longrightarrow> runs (createOwned k b) Q11"
  "(\<And>r. Q12 r [(CUpdateOwned b, err_of r)]) \<Longrightarrow> runs (updateOwned k b) Q12"
  "(\<And>r. Q13 r [(CPatchOwned gvk b, err_of r)]) \<Longrightarrow> runs (patchOwned k gvk b) Q13"
  "(\<And>r. Q14 r [(CListPods ns n, err_of r)]) \<Longrightarrow> runs (listPods k ns n) Q14"
  "(\<And>r. Q15 r [(CListEvents ns, err_of r)]) \<Longrightarrow> runs (listEvents k ns) Q15"
  "(\<And>r. Q16 r [(CListNodes, err_of r)]) \<Longrightarrow> runs (listNodes k) Q16"
  "(\<And>r. Q17 r [(CListNodeUsage, err_of r)]) \<Longrightarrow> runs (listNodeUsage k) Q17"
  "(\<And>r. Q18 r [(CListPodUsage ns, err_of r)]) \<Longrightarrow> runs (listPodUsage k ns) Q18"
  "(\<And>a. Q19 a [(CNow, None)]) \<Longrightarrow> runs (timeNow k) Q19"
  "(\<And>a. Q20 a [(CRand m, None)]) \<Longrightarrow> runs (randRead k m) Q20"
  by (auto simp: client_defs intro: wp)

section \<open>Documented behaviour of controllerutil\<close>

text \<open>
  What the documentation of \<open>AddFinalizer\<close>, \<open>RemoveFinalizer\<close> and \<open>ContainsFinalizer\<close> says; a
  theorem that relies on it takes it as a hypothesis.
\<close>

definition finalizer_laws :: "'e kube \<Rightarrow> bool" where
  "finalizer_laws k \<longleftrightarrow>
     (\<forall>s f. k_containsFinalizer k s f = (f \<in> set (m_finalizers (site_meta s)))) \<and>
     (\<forall>s f. k_addFinalizer k s f =
        (if f \<in> set (m_finalizers (site_meta s)) then (s, False)
         else (s\<lparr>site_meta := (site_meta s)\<lparr>m_finalizers := m_finalizers (site_meta s) @ [f]\<rparr>\<rparr>, True))) \<and>
     (\<forall>s f. k_removeFinalizer k s f =
        s\<lparr>site_meta := (site_meta s)\<lparr>m_finalizers := removeAll f (m_finalizers (site_meta s))\<rparr>\<rparr>)"

end
