(* ===== verification/Secrets.thy ===== *)
theory Secrets
imports Externals
begin

text \<open>
  internal/resources/secret.go: the per-site Secret with the database password and the eight
  WordPress salts. \<open>rand.Read\<close> is the client of the environment's random source; a missing map
  key reads as the empty byte slice, as in Go.
\<close>

section \<open>The functions of secret.go\<close>

definition saltKeys :: "string list" where
  "saltKeys = [''WORDPRESS_AUTH_KEY'', ''WORDPRESS_SECURE_AUTH_KEY'', ''WORDPRESS_LOGGED_IN_KEY'',
     ''WORDPRESS_NONCE_KEY'', ''WORDPRESS_AUTH_SALT'', ''WORDPRESS_SECURE_AUTH_SALT'',
     ''WORDPRESS_LOGGED_IN_SALT'', ''WORDPRESS_NONCE_SALT'']"

definition SecretKeyDBPassword :: string where
  "SecretKeyDBPassword = ''WORDPRESS_DB_PASSWORD''"

definition SaltKeys :: "string list" where
  "SaltKeys = saltKeys"

text \<open>The slice starts as \<open>n\<close> zero bytes; \<open>rand.Read\<close> overwrites what it delivers.\<close>

definition RandomPassword :: "'e kube \<Rightarrow> nat \<Rightarrow> ('e, string) prog" where
  "RandomPassword k n = do {
     r \<leftarrow> randRead k n;
     ret (raw_url_encode (take n (r @ replicate n (CHR 0x00))))
   }"

definition map_bytes :: "sdata \<Rightarrow> string \<Rightarrow> string" where
  "map_bytes d key = (case fmlookup d key of None \<Rightarrow> [] | Some v \<Rightarrow> v)"

definition fill_key :: "'e kube \<Rightarrow> string \<Rightarrow> nat \<Rightarrow> sdata \<Rightarrow> ('e, sdata) prog" where
  "fill_key k key n d =
     (if length (map_bytes d key) = 0
      then do { p \<leftarrow> RandomPassword k n; ret (fmupd key p d) }
      else ret d)"

fun fill_salts :: "'e kube \<Rightarrow> string list \<Rightarrow> sdata \<Rightarrow> ('e, sdata) prog" where
  "fill_salts k [] d = ret d"
| "fill_salts k (key # keys) d = do { d1 \<leftarrow> fill_key k key 48 d; fill_salts k keys d1 }"

definition DesiredSecret :: "'e kube \<Rightarrow> site \<Rightarrow> secret option \<Rightarrow> ('e, secret) prog" where
  "DesiredSecret k s existing = do {
     d1 \<leftarrow> fill_key k SecretKeyDBPassword 24
       (case existing of None \<Rightarrow> fmempty | Some x \<Rightarrow> fmadd fmempty (sec_data x));
     d2 \<leftarrow> fill_salts k saltKeys d1;
     ret \<lparr>sec_meta = new_meta (SecretName s) (site_ns s) (Labels s),
          sec_type = ''Opaque'', sec_data = d2\<rparr>
   }"

section \<open>Passwords\<close>

lemma run_RandomPassword:
  "run_state (RandomPassword k n) w = (p, w') \<Longrightarrow>
     length p = (n * 4 + 2) div 3 \<and> list_all url_safe_char p"
  by (auto simp: RandomPassword_def run_simps length_raw_url_encode raw_url_encode_safe
      split: prod.splits)

lemma emits_RandomPassword [emits_intros]: "P (CRand n, None) \<Longrightarrow> emits P (RandomPassword k n)"
  unfolding RandomPassword_def by (intro emits_intros)

section \<open>Filling one key\<close>

text \<open>A key is filled when it is absent or empty, and every other key is left alone.\<close>

lemma fill_key_present: "map_bytes d key \<noteq> [] \<Longrightarrow> fill_key k key n d = ret d"
  by (simp add: fill_key_def)

lemma fill_key_result:
  assumes "run_state (fill_key k key n d) w = (d', w')"
  shows "map_bytes d key \<noteq> [] \<and> d' = d \<or>
    map_bytes d key = [] \<and>
    (\<exists>p. d' = fmupd key p d \<and> length p = (n * 4 + 2) div 3 \<and> list_all url_safe_char p)"
  using assms by (fastforce simp: fill_key_def dest: run_RandomPassword split: if_splits prod.splits)

lemma fill_key_other: "run_state (fill_key k key n d) w = (d', w') \<Longrightarrow> key' \<noteq> key \<Longrightarrow> fmlookup d' key' = fmlookup d key'"
  by (drule fill_key_result) auto

lemma fill_key_kept:
  "run_state (fill_key k key n d) w = (d', w') \<Longrightarrow> map_bytes d x \<noteq> [] \<Longrightarrow> fmlookup d' x = fmlookup d x"
  by (drule fill_key_result) (auto simp: map_bytes_def)

lemma fill_key_filled:
  "run_state (fill_key k key n d) w = (d', w') \<Longrightarrow> 0 < n \<Longrightarrow> map_bytes d' key \<noteq> []"
  by (drule fill_key_result) (auto simp: map_bytes_def)

lemma emits_fill_key [emits_intros]: "P (CRand n, None) \<Longrightarrow> emits P (fill_key k key n d)"
  unfolding fill_key_def by (intro emits_intros)

section \<open>Filling the salts\<close>

lemma fill_salts_kept:
  "run_state (fill_salts k keys d) w = (d', w') \<Longrightarrow> map_bytes d x \<noteq> [] \<Longrightarrow> fmlookup d' x = fmlookup d x"
proof (induction keys arbitrary: d w)
  case (Cons key keys)
  then obtain d1 w1 where 1: "run_state (fill_key k key 48 d) w = (d1, w1)"
    and 2: "run_state (fill_salts k keys d1) w1 = (d', w')"
    by (auto split: prod.splits)
  from fill_key_kept [OF 1] Cons.prems(2) have "fmlookup d1 x = fmlookup d x" by blast
  with Cons.IH [OF 2] Cons.prems(2) show ?case by (simp add: map_bytes_def)
qed simp

lemma fill_salts_other:
  "run_state (fill_salts k keys d) w = (d', w') \<Longrightarrow> x \<notin> set keys \<Longrightarrow> fmlookup d' x = fmlookup d x"
proof (induction keys arbitrary: d w)
  case (Cons key keys)
  then obtain d1 w1 where "run_state (fill_key k key 48 d) w = (d1, w1)"
    and "run_state (fill_salts k keys d1) w1 = (d', w')"
    by (auto split: prod.splits)
  with Cons fill_key_other show ?case by fastforce
qed simp

lemma fill_salts_filled:
  "run_state (fill_salts k keys d) w = (d', w') \<Longrightarrow> x \<in> set keys \<Longrightarrow> map_bytes d' x \<noteq> []"
proof (induction keys arbitrary: d w)
  case (Cons key keys)
  then obtain d1 w1 where 1: "run_state (fill_key k key 48 d) w = (d1, w1)"
    and 2: "run_state (fill_salts k keys d1) w1 = (d', w')"
    by (auto split: prod.splits)
  show ?case
  proof (cases "x = key")
    case True
    with fill_key_filled [OF 1] have "map_bytes d1 x \<noteq> []" by simp
    with fill_salts_kept [OF 2] show ?thesis by (simp add: map_bytes_def)
  next
    case False
    with Cons.IH [OF 2] Cons.prems(2) show ?thesis by simp
  qed
qed simp

lemma fill_salts_complete:
  "\<forall>x \<in> set keys. map_bytes d x \<noteq> [] \<Longrightarrow> fill_salts k keys d = ret d"
  by (induction keys) (auto simp: fill_key_present)

lemma emits_fill_salts [emits_intros]: "P (CRand 48, None) \<Longrightarrow> emits P (fill_salts k keys d)"
  by (induction keys arbitrary: d) (auto intro: emits_intros)

section \<open>The Secret\<close>

text \<open>A Secret holds a password and every salt.\<close>

definition secret_complete :: "sdata \<Rightarrow> bool" where
  "secret_complete d \<longleftrightarrow> list_all (\<lambda>key. map_bytes d key \<noteq> []) (SecretKeyDBPassword # saltKeys)"

lemma password_not_salt: "SecretKeyDBPassword \<notin> set saltKeys"
  by (simp add: SecretKeyDBPassword_def saltKeys_def)

lemma DesiredSecret_run:
  assumes "run_state (DesiredSecret k s ex) w = (x, w')"
  obtains d1 w1 d2 where
    "run_state (fill_key k SecretKeyDBPassword 24
       (case ex of None \<Rightarrow> fmempty | Some x \<Rightarrow> sec_data x)) w = (d1, w1)"
    and "run_state (fill_salts k saltKeys d1) w1 = (d2, w')"
    and "x = \<lparr>sec_meta = new_meta (SecretName s) (site_ns s) (Labels s),
          sec_type = ''Opaque'', sec_data = d2\<rparr>"
  using assms by (auto simp: DesiredSecret_def split: prod.splits option.splits)

lemma DesiredSecret_complete:
  assumes "run_state (DesiredSecret k s ex) w = (x, w')"
  shows "secret_complete (sec_data x)"
proof -
  obtain d1 w1 d2 where
    1: "run_state (fill_key k SecretKeyDBPassword 24
       (case ex of None \<Rightarrow> fmempty | Some x \<Rightarrow> sec_data x)) w = (d1, w1)"
    and 2: "run_state (fill_salts k saltKeys d1) w1 = (d2, w')" and x: "sec_data x = d2"
    using assms by (rule DesiredSecret_run) auto
  have "map_bytes d2 SecretKeyDBPassword \<noteq> []"
    using fill_key_filled [OF 1] fill_salts_other [OF 2 password_not_salt]
    by (simp add: map_bytes_def)
  with fill_salts_filled [OF 2] x show ?thesis
    by (simp add: secret_complete_def list_all_iff)
qed

lemma DesiredSecret_of_complete:
  assumes "secret_complete (sec_data x)"
  shows "DesiredSecret k s (Some x) =
    ret \<lparr>sec_meta = new_meta (SecretName s) (site_ns s) (Labels s),
         sec_type = ''Opaque'', sec_data = sec_data x\<rparr>"
  using assms
  by (simp add: DesiredSecret_def secret_complete_def list_all_iff fill_key_present fill_salts_complete)

lemma DesiredSecret_meta:
  "run_state (DesiredSecret k s ex) w = (x, w') \<Longrightarrow>
     sec_meta x = new_meta (SecretName s) (site_ns s) (Labels s) \<and> sec_type x = ''Opaque''"
  by (auto elim!: DesiredSecret_run)

lemma emits_DesiredSecret [emits_intros]:
  "(\<And>n. P (CRand n, None)) \<Longrightarrow> emits P (DesiredSecret k s ex)"
  unfolding DesiredSecret_def by (intro emits_intros)

text \<open>
  Live credentials are never rotated: whatever a Secret already holds that is not empty (the
  password, a salt, or any other key) is in the Secret the builder returns.
\<close>

definition keeps_data :: "sdata \<Rightarrow> sdata \<Rightarrow> bool" where
  "keeps_data old new \<longleftrightarrow> fBall (fmdom old) (\<lambda>key. map_bytes old key \<noteq> [] \<longrightarrow> fmlookup new key = fmlookup old key)"

lemma DesiredSecret_keeps:
  assumes "run_state (DesiredSecret k s (Some x)) w = (y, w')"
  shows "keeps_data (sec_data x) (sec_data y)"
  unfolding keeps_data_def
proof (intro fBallI impI)
  fix key assume key: "map_bytes (sec_data x) key \<noteq> []"
  obtain d1 w1 d2 where
    1: "run_state (fill_key k SecretKeyDBPassword 24 (sec_data x)) w = (d1, w1)"
    and 2: "run_state (fill_salts k saltKeys d1) w1 = (d2, w')" and d: "sec_data y = d2"
    using assms by (rule DesiredSecret_run) auto
  have "fmlookup d1 key = fmlookup (sec_data x) key" using fill_key_kept [OF 1 key] .
  with fill_salts_kept [OF 2, of key] key d show "fmlookup (sec_data y) key = fmlookup (sec_data x) key"
    by (simp add: map_bytes_def)
qed

text \<open>A second pass over a Secret that has been completed draws no randomness and changes nothing.\<close>

lemma DesiredSecret_stable:
  assumes "run_state (DesiredSecret k s ex) w = (x, w')"
  shows "run_state (DesiredSecret k s (Some x)) v = (x, v)"
  using DesiredSecret_of_complete [OF DesiredSecret_complete [OF assms], of k s]
    DesiredSecret_meta [OF assms] by simp

end
