(* ===== verification/Workloads.thy ===== *)
theory Workloads
imports PhpConfig Secrets
begin

text \<open>
  internal/resources/deployment.go, service.go and ingress.go: the builders of the Deployment,
  the Service and the Ingress of a site. The locale \<open>owned_builder\<close> is what \<open>apply\<close> relies on for
  every builder of this package; each builder is an interpretation of it.
\<close>

section \<open>service.go\<close>

definition selector :: "site \<Rightarrow> smap" where
  "selector s = [''wp.benji.dev/site'' \<mapsto> site_name s]"

definition DesiredService :: "site \<Rightarrow> service" where
  "DesiredService s =
     \<lparr>svc_meta = new_meta (site_name s) (site_ns s) (Labels s),
      svc_type = ''ClusterIP'', svc_selector = selector s,
      svc_ports = [\<lparr>svp_name = ''http'', svp_port = 80, svp_targetPort = 80,
                    svp_protocol = ''TCP''\<rparr>]\<rparr>"

section \<open>ingress.go\<close>

definition DefaultIngressClass :: string where
  "DefaultIngressClass = ''nginx''"

definition default_globals :: globals where
  "default_globals = \<lparr>g_sharedPVCName = DefaultSharedPVCName, g_ingressClass = DefaultIngressClass\<rparr>"

definition ingress_annotations :: "site \<Rightarrow> sdata" where
  "ingress_annotations s =
     (let base = fmap_of_list [(''nginx.ingress.kubernetes.io/proxy-body-size'', ''256m'')];
          tls = sp_tls (site_spec s);
          issued = (if tls_enabled tls \<and> tls_issuer tls \<noteq> []
                    then fmupd ''cert-manager.io/cluster-issuer'' (tls_issuer tls) base else base)
      in fmadd issued (sp_ingressAnnotations (site_spec s)))"

definition ingress_rule_for :: "site \<Rightarrow> string \<Rightarrow> ingress_rule" where
  "ingress_rule_for s host = \<lparr>ir_host = host, ir_path = ''/'', ir_pathType = ''Prefix'',
     ir_backend = site_name s, ir_port = 80\<rparr>"

definition DesiredIngress :: "globals \<Rightarrow> site \<Rightarrow> ingress" where
  "DesiredIngress g s =
     \<lparr>ing_meta = (new_meta (site_name s) (site_ns s) (Labels s))
        \<lparr>m_annotations := Some (ingress_annotations s)\<rparr>,
      ing_className = (if sp_ingressClassName (site_spec s) = [] then g_ingressClass g
                       else sp_ingressClassName (site_spec s)),
      ing_rules = map (ingress_rule_for s) (Hosts s),
      ing_tls = (if tls_enabled (sp_tls (site_spec s))
                 then [\<lparr>it_hosts = Hosts s, it_secretName = TLSSecretName s\<rparr>] else [])\<rparr>"

section \<open>deployment.go\<close>

definition DefaultImage :: string where
  "DefaultImage = ''wordpress:latest''"

definition ForceHTTPSEnabled :: "site \<Rightarrow> bool" where
  "ForceHTTPSEnabled s = (case sp_forceHTTPS (site_spec s) of None \<Rightarrow> True | Some b \<Rightarrow> b)"

definition env_value :: "string \<Rightarrow> string \<Rightarrow> env_var" where
  "env_value n v = \<lparr>ev_name = n, ev_value = v, ev_from = None\<rparr>"

definition secretEnv :: "string \<Rightarrow> string \<Rightarrow> string \<Rightarrow> env_var" where
  "secretEnv n sec key = \<lparr>ev_name = n, ev_value = [], ev_from = Some (SecretKeyRef sec key)\<rparr>"

definition dep_replica_count :: "site \<Rightarrow> i32" where
  "dep_replica_count s =
     (if sp_suspend (site_spec s) then 0
      else case sp_replicas (site_spec s) of None \<Rightarrow> 1 | Some r \<Rightarrow> r)"

definition generated_env :: "site \<Rightarrow> string \<Rightarrow> string \<Rightarrow> env_var list" where
  "generated_env s dbHost dbPort =
     [env_value ''WORDPRESS_DB_HOST'' (dbHost @ '':'' @ dbPort),
      env_value ''WORDPRESS_DB_NAME'' (DatabaseName s),
      env_value ''WORDPRESS_DB_USER'' (DatabaseUser s),
      env_value ''WORDPRESS_TABLE_PREFIX''
        (if sp_tablePrefix (site_spec s) = [] then ''wp_'' else sp_tablePrefix (site_spec s)),
      secretEnv ''WORDPRESS_DB_PASSWORD'' (SecretName s) SecretKeyDBPassword]
     @ map (\<lambda>k. secretEnv k (SecretName s) k) SaltKeys
     @ (if sp_phpConfig (site_spec s) \<noteq> []
        then [env_value ''WORDPRESS_CONFIG_EXTRA'' (sp_phpConfig (site_spec s))] else [])"

definition dep_env :: "site \<Rightarrow> string \<Rightarrow> string \<Rightarrow> env_var list" where
  "dep_env s dbHost dbPort = generated_env s dbHost dbPort @ sp_env (site_spec s)"

definition dep_probe :: "i32 \<Rightarrow> probe" where
  "dep_probe initial = \<lparr>pr_path = ''/wp-login.php'', pr_port = 80, pr_initialDelay = initial,
     pr_period = 15, pr_timeout = 5, pr_failureThreshold = 6\<rparr>"

definition dep_mounts :: "site \<Rightarrow> volume_mount list" where
  "dep_mounts s =
     [\<lparr>vm_name = ''site-data'', vm_mountPath = ''/var/www/html'', vm_subPath = SubPath s,
       vm_readOnly = False\<rparr>,
      \<lparr>vm_name = ''php-config'', vm_mountPath = PHPMountPath, vm_subPath = PHPIniFileName,
       vm_readOnly = True\<rparr>]
     @ (if ForceHTTPSEnabled s
        then [\<lparr>vm_name = ''php-config'', vm_mountPath = ForwardedProtoMount,
               vm_subPath = ForwardedProtoFile, vm_readOnly = True\<rparr>] else [])"

definition dep_volume_list :: "globals \<Rightarrow> site \<Rightarrow> volume list" where
  "dep_volume_list g s =
     [\<lparr>vol_name = ''site-data'', vol_source = ClaimVolume (SharedPVCName g s)\<rparr>,
      \<lparr>vol_name = ''php-config'', vol_source = ConfigMapVolume (PHPConfigMapName s)\<rparr>]"

definition DesiredDeployment :: "globals \<Rightarrow> site \<Rightarrow> string \<Rightarrow> string \<Rightarrow> deployment" where
  "DesiredDeployment g s dbHost dbPort =
     \<lparr>dep_meta = new_meta (site_name s) (site_ns s) (Labels s),
      dep_replicas = dep_replica_count s,
      dep_selector = selector s,
      dep_strategy = ''Recreate'',
      dep_podLabels = Labels s,
      dep_podAnnotations = [''wp.benji.dev/php-ini-hash'' \<mapsto> PHPIniHash s],
      dep_containers =
        [\<lparr>ct_name = ''wordpress'',
          ct_image = (if sp_image (site_spec s) = [] then DefaultImage else sp_image (site_spec s)),
          ct_ports = [(''http'', 80)],
          ct_env = dep_env s dbHost dbPort,
          ct_mounts = dep_mounts s,
          ct_resources = sp_resources (site_spec s),
          ct_readiness = dep_probe 20,
          ct_liveness = dep_probe 60,
          ct_postStart = (if ForceHTTPSEnabled s
                          then Some [''sh'', ''-c'', forwardedProtoPostStart] else None)\<rparr>],
      dep_volumes = dep_volume_list g s\<rparr>"

section \<open>The interface between the builders and apply\<close>

text \<open>
  What \<open>apply\<close> relies on: the object is in the site's namespace, carries the site's labels, is
  named after the site, and is fresh (no owner, no resource version: those are set by \<open>apply\<close>).
\<close>

locale owned_builder =
  fixes build :: "site \<Rightarrow> owned"
    and suffix :: string
  assumes build_name: "m_name (owned_meta (build s)) = site_name s @ suffix"
    and build_ns: "m_namespace (owned_meta (build s)) = site_ns s"
    and build_labels: "m_labels (owned_meta (build s)) = Labels s"
    and build_fresh: "m_owners (owned_meta (build s)) = [] \<and> m_resourceVersion (owned_meta (build s)) = []
      \<and> m_deletion (owned_meta (build s)) = None"
begin

text \<open>Two sites of a namespace with different names never build an object with the same key.\<close>

lemma keys_distinct:
  "site_name s \<noteq> site_name t \<Longrightarrow> m_name (owned_meta (build s)) \<noteq> m_name (owned_meta (build t))"
  by (simp add: build_name)

lemma selected_by_site: "m_labels (owned_meta (build s)) ''wp.benji.dev/site'' = Some (site_name s)"
  by (simp add: build_labels Labels_def)

end

interpretation config_map: owned_builder "\<lambda>s. OwnedConfigMap (DesiredPHPConfigMap s)" "''-php''"
  by unfold_locales (simp_all add: DesiredPHPConfigMap_def new_meta_def PHPConfigMapName_def)

interpretation deploy: owned_builder "\<lambda>s. OwnedDeployment (DesiredDeployment g s dbHost dbPort)" "[]"
  for g dbHost dbPort
  by unfold_locales (simp_all add: DesiredDeployment_def new_meta_def)

interpretation svc: owned_builder "\<lambda>s. OwnedService (DesiredService s)" "[]"
  by unfold_locales (simp_all add: DesiredService_def new_meta_def)

interpretation ingr: owned_builder "\<lambda>s. OwnedIngress (DesiredIngress g s)" "[]"
  for g
  by unfold_locales (simp_all add: DesiredIngress_def new_meta_def)

section \<open>The Deployment\<close>

lemma mount_paths_distinct: "distinct (map vm_mountPath (dep_mounts s))"
  by (simp add: dep_mounts_def PHPMountPath_def ForwardedProtoMount_def PHPIniFileName_def
      ForwardedProtoFile_def)

lemma mounts_backed:
  "vm_name ` set (dep_mounts s) \<subseteq> vol_name ` set (dep_volume_list g s)"
  by (auto simp: dep_mounts_def dep_volume_list_def)

lemma generated_env_names_distinct: "distinct (map ev_name (generated_env s dbHost dbPort))"
  by (simp add: generated_env_def env_value_def secretEnv_def SaltKeys_def saltKeys_def comp_def)

text \<open>Every file the container mounts from the ConfigMap is a key of the ConfigMap.\<close>

lemma config_files_exist:
  "vm \<in> set (dep_mounts s) \<Longrightarrow> vm_name vm = ''php-config'' \<Longrightarrow>
     vm_subPath vm \<in> dom (cm_data (DesiredPHPConfigMap s))"
  by (auto simp: dep_mounts_def build_simps split: if_splits)

text \<open>Every key the environment reads from the Secret is one that \<open>DesiredSecret\<close> fills.\<close>

lemma secret_refs_filled:
  "e \<in> set (generated_env s dbHost dbPort) \<Longrightarrow> ev_from e = Some (SecretKeyRef sec key) \<Longrightarrow>
     sec = SecretName s \<and> key \<in> set (SecretKeyDBPassword # saltKeys)"
  by (auto simp: generated_env_def env_value_def secretEnv_def SaltKeys_def split: if_splits)

end
