(* ===== verification/Database.thy ===== *)
theory Database
imports Externals
begin

text \<open>
  The interface \<open>controller.Database\<close> (wordpresssite_controller.go) and the operations of
  \<open>database/sql\<close> that its two implementations use. \<open>database_provider\<close> is the contract the
  reconciler relies on: an implementation only talks to its own driver, and it refuses a name
  before it has touched anything. \<open>Mysql\<close> and \<open>Sqlite\<close> interpret it.
\<close>

section \<open>The SQL driver\<close>

text \<open>
  \<open>sql.Open\<close>, \<open>PingContext\<close>, \<open>ExecContext\<close> (statement and bound arguments) and \<open>Close\<close> of one
  handle, \<open>os.Remove\<close> (with what \<open>os.IsNotExist\<close> says of its error), and the order in which the
  runtime happens to range over a map of two entries. \<open>q_quote\<close> is the verb q of fmt.
\<close>

record 'e sqldrv =
  q_open :: "string \<Rightarrow> string \<Rightarrow> 'e \<Rightarrow> unit result \<times> 'e"
  q_ping :: "'e \<Rightarrow> unit result \<times> 'e"
  q_exec :: "string \<Rightarrow> string list \<Rightarrow> 'e \<Rightarrow> unit result \<times> 'e"
  q_close :: "'e \<Rightarrow> unit \<times> 'e"
  q_remove :: "string \<Rightarrow> 'e \<Rightarrow> unit result \<times> 'e"
  q_isNotExist :: "go_error \<Rightarrow> bool"
  q_makeDir :: "string \<Rightarrow> 'e \<Rightarrow> unit result \<times> 'e"
  q_mapOrder :: "'e \<Rightarrow> bool \<times> 'e"
  q_quote :: "string \<Rightarrow> string"

definition sqlOpen :: "'e sqldrv \<Rightarrow> string \<Rightarrow> string \<Rightarrow> ('e, unit result) prog" where
  "sqlOpen q drv dsn = call (CSqlOpen drv dsn) (q_open q drv dsn)"

definition sqlPing :: "'e sqldrv \<Rightarrow> ('e, unit result) prog" where
  "sqlPing q = call CSqlPing (q_ping q)"

definition sqlExec :: "'e sqldrv \<Rightarrow> string \<Rightarrow> string list \<Rightarrow> ('e, unit result) prog" where
  "sqlExec q st args = call (CSqlExec st args) (q_exec q st args)"

definition sqlClose :: "'e sqldrv \<Rightarrow> ('e, unit) prog" where
  "sqlClose q = query CSqlClose (q_close q)"

definition osRemove :: "'e sqldrv \<Rightarrow> string \<Rightarrow> ('e, unit result) prog" where
  "osRemove q f = call (CRemoveFile f) (q_remove q f)"

definition osMkdirAll :: "'e sqldrv \<Rightarrow> string \<Rightarrow> ('e, unit result) prog" where
  "osMkdirAll q d = call (CMakeDir d) (q_makeDir q d)"

definition mapOrder :: "'e sqldrv \<Rightarrow> ('e, bool) prog" where
  "mapOrder q = query CMapOrder (q_mapOrder q)"

lemmas driver_defs = sqlOpen_def sqlPing_def sqlExec_def sqlClose_def osRemove_def osMkdirAll_def
  mapOrder_def

lemmas run_driver [run_simps] = driver_defs [THEN arg_cong, of run_state]

lemma emits_driver [emits_intros]:
  "(\<And>r. P (CSqlOpen drv dsn, r)) \<Longrightarrow> emits P (sqlOpen q drv dsn)"
  "(\<And>r. P (CSqlPing, r)) \<Longrightarrow> emits P (sqlPing q)"
  "(\<And>r. P (CSqlExec st args, r)) \<Longrightarrow> emits P (sqlExec q st args)"
  "P (CSqlClose, None) \<Longrightarrow> emits P (sqlClose q)"
  "(\<And>r. P (CRemoveFile f, r)) \<Longrightarrow> emits P (osRemove q f)"
  "(\<And>r. P (CMakeDir f, r)) \<Longrightarrow> emits P (osMkdirAll q f)"
  "P (CMapOrder, None) \<Longrightarrow> emits P (mapOrder q)"
  by (auto simp: driver_defs intro: emits_intros)

lemma runs_driver [wp]:
  "(\<And>r. Q1 r [(CSqlOpen drv dsn, err_of r)]) \<Longrightarrow> runs (sqlOpen q drv dsn) Q1"
  "(\<And>r. Q2 r [(CSqlPing, err_of r)]) \<Longrightarrow> runs (sqlPing q) Q2"
  "(\<And>r. Q3 r [(CSqlExec st args, err_of r)]) \<Longrightarrow> runs (sqlExec q st args) Q3"
  "(\<And>a. Q4 a [(CSqlClose, None)]) \<Longrightarrow> runs (sqlClose q) Q4"
  "(\<And>r. Q5 r [(CRemoveFile f, err_of r)]) \<Longrightarrow> runs (osRemove q f) Q5"
  "(\<And>r. Q6 r [(CMakeDir f, err_of r)]) \<Longrightarrow> runs (osMkdirAll q f) Q6"
  "(\<And>a. Q7 a [(CMapOrder, None)]) \<Longrightarrow> runs (mapOrder q) Q7"
  by (auto simp: driver_defs intro: wp)

section \<open>The interface\<close>

record 'e database =
  d_ensure :: "string \<Rightarrow> string \<Rightarrow> string \<Rightarrow> string \<Rightarrow> ('e, unit result) prog"
  d_drop :: "string \<Rightarrow> string \<Rightarrow> string \<Rightarrow> ('e, unit result) prog"

locale database_provider =
  fixes db :: "'e database"
    and accepts :: "string \<Rightarrow> string \<Rightarrow> bool"
  assumes ensure_driver_only: "emits db_driver_call (d_ensure db name user host pw)"
    and drop_driver_only: "emits db_driver_call (d_drop db name user host)"
    and ensure_refuses:
      "\<not> accepts name user \<Longrightarrow> \<exists>e. \<forall>host pw. d_ensure db name user host pw = ret (Inl e)"
    and drop_refuses:
      "\<not> accepts name user \<Longrightarrow> \<exists>e. \<forall>host. d_drop db name user host = ret (Inl e)"
begin

lemma ensure_emits: "(\<And>c. db_driver_call c \<Longrightarrow> P c) \<Longrightarrow> emits P (d_ensure db name user host pw)"
  using ensure_driver_only by (rule emits_mono)

lemma drop_emits: "(\<And>c. db_driver_call c \<Longrightarrow> P c) \<Longrightarrow> emits P (d_drop db name user host)"
  using drop_driver_only by (rule emits_mono)

text \<open>A refused name leaves the world as it was.\<close>

lemma ensure_refused_run:
  "\<not> accepts name user \<Longrightarrow> \<exists>e. run_state (d_ensure db name user host pw) w = (Inl e, w)"
  using ensure_refuses [of name user] by auto

lemma drop_refused_run:
  "\<not> accepts name user \<Longrightarrow> \<exists>e. run_state (d_drop db name user host) w = (Inl e, w)"
  using drop_refuses [of name user] by auto

end

end
