(* ===== verification/Controller.thy ===== *)
theory Controller
imports Workloads Database
begin

text \<open>
  internal/controller/wordpresssite_controller.go: one reconcile of a WordPressSite. A reconcile
  is a program over the Kubernetes client and the \<open>Database\<close> the reconciler was given; its
  result is the requeue delay and the error.
\<close>

section \<open>The reconciler\<close>

record 'e reconciler =
  r_kube :: "'e kube"
  r_db :: "'e database"
  r_globals :: globals
  r_dbHost :: string
  r_dbPort :: string
  r_dropDataOnDelete :: bool
  r_noServerSideApply :: bool

record reconcile_out =
  ro_requeueAfter :: nat
  ro_err :: "go_error option"

abbreviation done_with :: "go_error option \<Rightarrow> reconcile_out" where
  "done_with e \<equiv> \<lparr>ro_requeueAfter = 0, ro_err = e\<rparr>"

abbreviation retry_after :: "nat \<Rightarrow> reconcile_out" where
  "retry_after n \<equiv> \<lparr>ro_requeueAfter = n, ro_err = None\<rparr>"

section \<open>Status\<close>

fun setCondition :: "condition list \<Rightarrow> condition \<Rightarrow> condition list" where
  "setCondition [] c = [c]"
| "setCondition (x # xs) c =
     (if c_type x = c_type c
      then (if c_status x = c_status c then c\<lparr>c_lastTransition := c_lastTransition x\<rparr> else c) # xs
      else x # setCondition xs c)"

definition ready_condition :: "string \<Rightarrow> string \<Rightarrow> i64 \<Rightarrow> gotime \<Rightarrow> condition" where
  "ready_condition phase msg gen now =
     \<lparr>c_type = ''Ready'',
      c_status = (if phase \<noteq> PhaseReady then ''False'' else ''True''),
      c_reason = phase, c_message = msg, c_observedGeneration = gen, c_lastTransition = now\<rparr>"

definition phase_status :: "string \<Rightarrow> string \<Rightarrow> i64 \<Rightarrow> gotime \<Rightarrow> site_status \<Rightarrow> site_status" where
  "phase_status phase msg gen now st =
     st\<lparr>ss_phase := phase,
        ss_conditions := setCondition (ss_conditions st) (ready_condition phase msg gen now)\<rparr>"

definition setPhase :: "'e reconciler \<Rightarrow> site \<Rightarrow> string \<Rightarrow> string \<Rightarrow> ('e, site result) prog" where
  "setPhase r s phase msg = do {
     now \<leftarrow> timeNow (r_kube r);
     statusUpdate (r_kube r)
       (s\<lparr>site_status := phase_status phase msg (m_generation (site_meta s)) now (site_status s)\<rparr>)
   }"

definition fail :: "'e reconciler \<Rightarrow> site \<Rightarrow> string \<Rightarrow> go_error \<Rightarrow> ('e, reconcile_out) prog" where
  "fail r s stage e = do {
     _ \<leftarrow> setPhase r s PhaseError (stage @ '': '' @ error_text e);
     ret (done_with (Some e))
   }"

section \<open>Owned objects\<close>

definition apply_obj :: "'e reconciler \<Rightarrow> site \<Rightarrow> owned \<Rightarrow> ('e, unit result) prog" where
  "apply_obj r s desired =
     (case k_setControllerRef (r_kube r) s (owned_meta desired) of
        Inl e \<Rightarrow> ret (Inl e)
      | Inr m \<Rightarrow>
          if r_noServerSideApply r then do {
            found \<leftarrow> getOwned (r_kube r) (with_meta m desired);
            case found of
              Inl e \<Rightarrow> if is_not_found e then createOwned (r_kube r) (with_meta m desired)
                       else ret (Inl e)
            | Inr f \<Rightarrow> updateOwned (r_kube r)
                (with_meta (m\<lparr>m_resourceVersion := m_resourceVersion (owned_meta f)\<rparr>) desired)
          }
          else case k_gvk (r_kube r) (with_meta m desired) of
            Inl e \<Rightarrow> ret (Inl e)
          | Inr gvk \<Rightarrow> patchOwned (r_kube r) gvk (with_meta m desired))"

fun apply_each :: "'e reconciler \<Rightarrow> site \<Rightarrow> owned list \<Rightarrow> ('e, unit result) prog" where
  "apply_each r s [] = ret (Inr ())"
| "apply_each r s (b # bs) = do {
     x \<leftarrow> apply_obj r s b;
     case x of Inl e \<Rightarrow> ret (Inl e) | Inr _ \<Rightarrow> apply_each r s bs
   }"

definition desired_objects :: "'e reconciler \<Rightarrow> site \<Rightarrow> owned list" where
  "desired_objects r s =
     [OwnedConfigMap (DesiredPHPConfigMap s),
      OwnedDeployment (DesiredDeployment (r_globals r) s (r_dbHost r) (r_dbPort r)),
      OwnedService (DesiredService s),
      OwnedIngress (DesiredIngress (r_globals r) s)]"

definition reconcileWorkload :: "'e reconciler \<Rightarrow> site \<Rightarrow> ('e, unit result) prog" where
  "reconcileWorkload r s = apply_each r s (desired_objects r s)"

text \<open>The Secret: read, completed, created or updated; \<open>reflect.DeepEqual\<close> compares the data.\<close>

definition store_secret ::
  "'e reconciler \<Rightarrow> site \<Rightarrow> secret option \<Rightarrow> ('e, secret result) prog" where
  "store_secret r s existing = do {
     built \<leftarrow> DesiredSecret (r_kube r) s existing;
     case k_setControllerRef (r_kube r) s (sec_meta built) of
       Inl e \<Rightarrow> ret (Inl e)
     | Inr m \<Rightarrow>
       let desired = built\<lparr>sec_meta := m\<rparr> in
       case existing of
         None \<Rightarrow> createSecret (r_kube r) desired
       | Some x \<Rightarrow>
           if sec_data x = sec_data desired then ret (Inr x)
           else updateSecret (r_kube r)
             (desired\<lparr>sec_meta := m\<lparr>m_resourceVersion := m_resourceVersion (sec_meta x)\<rparr>\<rparr>)
   }"

definition ensureSecret :: "'e reconciler \<Rightarrow> site \<Rightarrow> ('e, secret result) prog" where
  "ensureSecret r s = do {
     got \<leftarrow> getSecret (r_kube r) (site_ns s) (SecretName s);
     case got of
       Inl e \<Rightarrow> if is_not_found e then store_secret r s None else ret (Inl e)
     | Inr x \<Rightarrow> store_secret r s (Some x)
   }"

section \<open>The database, through the interface\<close>

definition ensureDatabase :: "'e reconciler \<Rightarrow> site \<Rightarrow> string \<Rightarrow> ('e, unit result) prog" where
  "ensureDatabase r s pw =
     noted (CEnsureDatabase (DatabaseName s) (DatabaseUser s) (DatabaseHost s) pw)
       (d_ensure (r_db r) (DatabaseName s) (DatabaseUser s) (DatabaseHost s) pw)"

definition dropDatabase :: "'e reconciler \<Rightarrow> site \<Rightarrow> ('e, unit result) prog" where
  "dropDatabase r s =
     noted (CDropDatabase (DatabaseName s) (DatabaseUser s) (DatabaseHost s))
       (d_drop (r_db r) (DatabaseName s) (DatabaseUser s) (DatabaseHost s))"

section \<open>Reconcile\<close>

definition reconcileDelete :: "'e reconciler \<Rightarrow> site \<Rightarrow> ('e, reconcile_out) prog" where
  "reconcileDelete r s =
     (if k_containsFinalizer (r_kube r) s Finalizer then do {
        d \<leftarrow> (if r_dropDataOnDelete r then dropDatabase r s else ret (Inr ()));
        case d of
          Inl e \<Rightarrow> ret (retry_after 15)
        | Inr _ \<Rightarrow> do {
            u \<leftarrow> updateSiteObj (r_kube r) (k_removeFinalizer (r_kube r) s Finalizer);
            ret (done_with (err_of u))
          }
      }
      else ret (done_with None))"

definition observed_status :: "site \<Rightarrow> site_status" where
  "observed_status s = (site_status s)
     \<lparr>ss_databaseName := DatabaseName s, ss_databaseUser := DatabaseUser s,
      ss_secretName := SecretName s, ss_url := URL s,
      ss_observedGeneration := m_generation (site_meta s)\<rparr>"

text \<open>The part of \<open>Reconcile\<close> after the finalizer is in place.\<close>

definition reconcileSuspended :: "'e reconciler \<Rightarrow> site \<Rightarrow> ('e, reconcile_out) prog" where
  "reconcileSuspended r s = do {
     x \<leftarrow> reconcileWorkload r s;
     case x of
       Inl e \<Rightarrow> ret (done_with (Some e))
     | Inr _ \<Rightarrow> do {
         p \<leftarrow> setPhase r s PhaseSuspended ''Site suspended'';
         ret (done_with (err_of p))
       }
   }"

definition reconcileActive :: "'e reconciler \<Rightarrow> site \<Rightarrow> ('e, reconcile_out) prog" where
  "reconcileActive r s = do {
     sec \<leftarrow> ensureSecret r s;
     case sec of
       Inl e \<Rightarrow> fail r s ''secret'' e
     | Inr x \<Rightarrow> do {
         d \<leftarrow> ensureDatabase r s (map_bytes (sec_data x) SecretKeyDBPassword);
         case d of
           Inl e \<Rightarrow> do {
             _ \<leftarrow> setPhase r s PhaseProvisioning (''Waiting for MySQL: '' @ error_text e);
             ret (retry_after 15)
           }
         | Inr _ \<Rightarrow> do {
             wl \<leftarrow> reconcileWorkload r s;
             case wl of
               Inl e \<Rightarrow> fail r s ''workload'' e
             | Inr _ \<Rightarrow> do {
                 p \<leftarrow> setPhase r (s\<lparr>site_status := observed_status s\<rparr>) PhaseReady ''Site reconciled'';
                 ret (done_with (err_of p))
               }
           }
       }
   }"

definition reconcileBody :: "'e reconciler \<Rightarrow> site \<Rightarrow> ('e, reconcile_out) prog" where
  "reconcileBody r s =
     (if sp_suspend (site_spec s) then reconcileSuspended r s else reconcileActive r s)"

definition Reconcile :: "'e reconciler \<Rightarrow> string \<Rightarrow> string \<Rightarrow> ('e, reconcile_out) prog" where
  "Reconcile r ns name = do {
     got \<leftarrow> getSite (r_kube r) ns name;
     case got of
       Inl e \<Rightarrow> ret (done_with (if is_not_found e then None else Some e))
     | Inr s \<Rightarrow>
       if \<not> time_ptr_is_zero (m_deletion (site_meta s)) then reconcileDelete r s
       else (case k_addFinalizer (r_kube r) s Finalizer of (s1, added) \<Rightarrow>
         if added then do {
           u \<leftarrow> updateSiteObj (r_kube r) s1;
           case u of Inl e \<Rightarrow> ret (done_with (Some e)) | Inr s2 \<Rightarrow> reconcileBody r s2
         }
         else reconcileBody r s1)
   }"

section \<open>Conditions\<close>

definition find_condition :: "string \<Rightarrow> condition list \<Rightarrow> condition option" where
  "find_condition t cs = find (\<lambda>c. c_type c = t) cs"

lemma setCondition_types:
  "map c_type (setCondition cs c) =
     (if c_type c \<in> set (map c_type cs) then map c_type cs else map c_type cs @ [c_type c])"
  by (induction cs) auto

lemma setCondition_find:
  "find_condition t (setCondition cs c) =
     (if t \<noteq> c_type c then find_condition t cs
      else Some (case find_condition t cs of
        None \<Rightarrow> c
      | Some x \<Rightarrow> if c_status x = c_status c then c\<lparr>c_lastTransition := c_lastTransition x\<rparr> else c))"
  by (induction cs) (auto simp: find_condition_def)

lemma setCondition_again:
  "c_type d = c_type c \<Longrightarrow> c_status d = c_status c \<Longrightarrow> c_reason d = c_reason c \<Longrightarrow>
   c_message d = c_message c \<Longrightarrow> c_observedGeneration d = c_observedGeneration c \<Longrightarrow>
   setCondition (setCondition cs c) d = setCondition cs c"
  by (induction cs) (auto simp: condition.equality)

end
