(* ===== verification/ReconcileOrder.thy ===== *)
theory ReconcileOrder
imports Controller
begin

text \<open>
  What one reconcile sends, and in which order: the calls of every operation of \<open>Controller\<close>
  through the program logic \<open>runs\<close>, for any Kubernetes client. The facts that involve the database
  are proved once for every \<open>database_provider\<close>.
\<close>

section \<open>Classes of calls\<close>

fun owned_rank :: "owned \<Rightarrow> nat" where
  "owned_rank (OwnedConfigMap _) = 0"
| "owned_rank (OwnedDeployment _) = 1"
| "owned_rank (OwnedService _) = 2"
| "owned_rank (OwnedIngress _) = 3"

fun written_object :: "ext_call \<Rightarrow> owned option" where
  "written_object (CCreateOwned b) = Some b"
| "written_object (CUpdateOwned b) = Some b"
| "written_object (CPatchOwned _ b) = Some b"
| "written_object _ = None"

text \<open>A write of the object of rank \<open>n\<close>, and one that succeeded.\<close>

definition writes :: "nat \<Rightarrow> traced \<Rightarrow> bool" where
  "writes n c \<longleftrightarrow> (case written_object (fst c) of None \<Rightarrow> False | Some b \<Rightarrow> owned_rank b = n)"

definition wrote :: "nat \<Rightarrow> traced \<Rightarrow> bool" where
  "wrote n c \<longleftrightarrow> writes n c \<and> snd c = None"

fun ensured :: "traced \<Rightarrow> bool" where
  "ensured (CEnsureDatabase _ _ _ _, None) = True"
| "ensured _ = False"

fun dropped :: "traced \<Rightarrow> bool" where
  "dropped (CDropDatabase _ _ _, None) = True"
| "dropped _ = False"

fun drop_call :: "traced \<Rightarrow> bool" where
  "drop_call (CDropDatabase _ _ _, _) = True"
| "drop_call _ = False"

fun site_update :: "traced \<Rightarrow> bool" where
  "site_update (CUpdateSite _, _) = True"
| "site_update _ = False"

fun phase_update :: "string \<Rightarrow> traced \<Rightarrow> bool" where
  "phase_update p (CStatusUpdate s, _) = (ss_phase (site_status s) = p)"
| "phase_update p _ = False"

fun secret_call :: "traced \<Rightarrow> bool" where
  "secret_call (CGetSecret _ _, _) = True"
| "secret_call (CCreateSecret _, _) = True"
| "secret_call (CUpdateSecret _, _) = True"
| "secret_call (CRand _, _) = True"
| "secret_call _ = False"

fun workload_call :: "traced \<Rightarrow> bool" where
  "workload_call (CGetOwned _, _) = True"
| "workload_call (CCreateOwned _, _) = True"
| "workload_call (CUpdateOwned _, _) = True"
| "workload_call (CPatchOwned _ _, _) = True"
| "workload_call _ = False"

lemma not_writes:
  "written_object (fst c) = None \<Longrightarrow> \<not> writes n c \<and> \<not> wrote n c"
  by (simp add: writes_def wrote_def)

lemma secret_call_plain: "secret_call c \<Longrightarrow> \<not> workload_write c \<and> written_object (fst c) = None
    \<and> \<not> phase_update p c \<and> \<not> site_update c \<and> \<not> drop_call c"
  by (cases c rule: secret_call.cases) auto

lemma driver_call_plain: "db_driver_call c \<Longrightarrow> \<not> workload_write c \<and> written_object (fst c) = None
    \<and> \<not> phase_update p c \<and> \<not> site_update c \<and> \<not> drop_call c \<and> \<not> ensured c \<and> \<not> dropped c"
  by (cases c rule: db_driver_call.cases) auto

lemma workload_call_plain: "workload_call c \<Longrightarrow> \<not> phase_update p c \<and> \<not> site_update c \<and> \<not> drop_call c
    \<and> \<not> ensured c"
  by (cases c rule: workload_call.cases) auto

lemma workload_write_iff: "workload_write c \<longleftrightarrow> written_object (fst c) \<noteq> None"
  by (cases c rule: workload_write.cases) auto

section \<open>The parts of a reconcile\<close>

subsection \<open>Owned objects\<close>

text \<open>
  One \<open>apply\<close> writes at most one object, and the object it was given, up to the controller
  reference and the resource version; it succeeds only if that write did.
\<close>

definition same_object :: "owned \<Rightarrow> owned \<Rightarrow> bool" where
  "same_object b b' \<longleftrightarrow> (\<exists>m. b' = with_meta m b)"

lemma same_object_rank: "same_object b b' \<Longrightarrow> owned_rank b' = owned_rank b"
  by (cases b) (auto simp: same_object_def)

lemma same_object_with_meta [simp]: "same_object b (with_meta m b)"
  by (auto simp: same_object_def)

definition apply_calls :: "owned \<Rightarrow> unit result \<Rightarrow> traced list \<Rightarrow> bool" where
  "apply_calls b x l \<longleftrightarrow> list_all workload_call l \<and>
     list_all (\<lambda>c. case written_object (fst c) of None \<Rightarrow> True | Some b' \<Rightarrow> same_object b b') l \<and>
     (case x of Inl _ \<Rightarrow> True | Inr _ \<Rightarrow> list_ex (wrote (owned_rank b)) l)"

lemma runs_apply_obj: "runs (apply_obj r s b) (apply_calls b)"
  unfolding apply_obj_def
  by (intro wp)
    (auto simp: apply_calls_def wrote_def writes_def same_object_rank split: sum.splits
      intro: same_object_rank [OF same_object_with_meta])

text \<open>What a failed or finished \<open>apply\<close> says about the order of writes.\<close>

lemma apply_calls_other:
  "apply_calls b x l \<Longrightarrow> n \<noteq> owned_rank b \<Longrightarrow> list_all (\<lambda>c. \<not> writes n c) l"
  unfolding apply_calls_def list_all_iff writes_def
  by (force dest: same_object_rank split: option.splits)

lemma apply_calls_Inr: "apply_calls b (Inr u) l \<Longrightarrow> list_ex (wrote (owned_rank b)) l"
  by (simp add: apply_calls_def)

lemma wrote_writes: "wrote n c \<Longrightarrow> writes n c"
  by (simp add: wrote_def)

text \<open>In rank order, each object is written only after the one before it has been.\<close>

definition in_rank_order :: "traced list \<Rightarrow> bool" where
  "in_rank_order l \<longleftrightarrow> precedes (wrote 0) (writes 1) l \<and> precedes (wrote 1) (writes 2) l
     \<and> precedes (wrote 2) (writes 3) l"

definition workload_calls :: "owned list \<Rightarrow> unit result \<Rightarrow> traced list \<Rightarrow> bool" where
  "workload_calls ds x l \<longleftrightarrow> list_all workload_call l \<and>
     list_all (\<lambda>c. case written_object (fst c) of None \<Rightarrow> True
       | Some b \<Rightarrow> list_ex (\<lambda>d. same_object d b) ds) l \<and>
     in_rank_order l \<and>
     (case x of Inl _ \<Rightarrow> True | Inr _ \<Rightarrow> list_all (\<lambda>n. list_ex (wrote n) l) [0, 1, 2, 3])"

lemma apply_calls_precedes: "apply_calls b x l \<Longrightarrow> n \<noteq> owned_rank b \<Longrightarrow> precedes P (writes n) l"
  by (rule precedes_none) (rule apply_calls_other)

lemma apply_calls_objects:
  "apply_calls b x l \<Longrightarrow> b \<in> set ds \<Longrightarrow>
     list_all (\<lambda>c. case written_object (fst c) of None \<Rightarrow> True
       | Some b' \<Rightarrow> list_ex (\<lambda>d. same_object d b') ds) l"
  unfolding apply_calls_def by (auto simp: list_all_iff list_ex_iff split: option.splits)

lemma apply_calls_workload: "apply_calls b x l \<Longrightarrow> list_all workload_call l"
  by (simp add: apply_calls_def)

lemmas apply_calls_facts =
  apply_calls_workload apply_calls_precedes apply_calls_objects apply_calls_Inr

lemma runs_reconcileWorkload:
  "runs (reconcileWorkload r s) (workload_calls (desired_objects r s))"
  unfolding reconcileWorkload_def desired_objects_def apply_each.simps
  by (intro wp runs_mono [OF runs_apply_obj]; clarsimp simp: workload_calls_def in_rank_order_def
      precedes_append apply_calls_facts; force dest: apply_calls_Inr)

subsection \<open>Status and Secret\<close>

definition phase_calls :: "string \<Rightarrow> 'a result \<Rightarrow> traced list \<Rightarrow> bool" where
  "phase_calls p x l \<longleftrightarrow>
     (\<exists>s. l = [(CNow, None), (CStatusUpdate s, err_of x)] \<and> ss_phase (site_status s) = p)"

lemma runs_setPhase: "runs (setPhase r s p msg) (phase_calls p)"
  unfolding setPhase_def by (intro wp) (auto simp: phase_calls_def phase_status_def)

lemma emits_ensureSecret: "emits secret_call (ensureSecret r s)"
  unfolding ensureSecret_def store_secret_def by (intro emits_intros) simp_all

section \<open>Lists of calls that leave an order alone\<close>

lemma list_all_not: "list_all P l \<Longrightarrow> (\<And>c. P c \<Longrightarrow> \<not> Q c) \<Longrightarrow> list_all (\<lambda>c. \<not> Q c) l"
  by (rule list_all_imp)

lemma precedes_class: "list_all C l \<Longrightarrow> (\<And>c. C c \<Longrightarrow> \<not> Q c) \<Longrightarrow> precedes P Q l"
  by (rule precedes_none) (rule list_all_not)

text \<open>A call a reconcile of a live site may make: no drop, no update of the site, a known phase.\<close>

definition live_phases :: "string list" where
  "live_phases = [PhaseProvisioning, PhaseReady, PhaseSuspended, PhaseError]"

definition live_call :: "traced \<Rightarrow> bool" where
  "live_call c \<longleftrightarrow> \<not> drop_call c \<and> \<not> site_update c \<and>
     (case fst c of CStatusUpdate s \<Rightarrow> ss_phase (site_status s) \<in> set live_phases | _ \<Rightarrow> True)"

lemma live_secret: "secret_call c \<Longrightarrow> live_call c"
  by (cases c rule: secret_call.cases) (auto simp: live_call_def)

lemma live_driver: "db_driver_call c \<Longrightarrow> live_call c"
  by (cases c rule: db_driver_call.cases) (auto simp: live_call_def)

lemma live_workload: "workload_call c \<Longrightarrow> live_call c"
  by (cases c rule: workload_call.cases) (auto simp: live_call_def)

lemma live_ensure [simp]: "live_call (CEnsureDatabase a b c d, e)"
  by (simp add: live_call_def)

lemma live_now [simp]: "live_call (CNow, e)"
  by (simp add: live_call_def)

lemma live_status [simp]:
  "live_call (CStatusUpdate s, e) \<longleftrightarrow> ss_phase (site_status s) \<in> set live_phases"
  by (simp add: live_call_def)

text \<open>
  The order a reconcile keeps: the owned objects in rank order; the phase \<open>Ready\<close> only after the
  database and the last owned object.
\<close>

definition honest :: "traced list \<Rightarrow> bool" where
  "honest l \<longleftrightarrow> in_rank_order l \<and> precedes ensured (phase_update PhaseReady) l
     \<and> precedes (wrote 3) (phase_update PhaseReady) l"

definition body_calls :: "owned list \<Rightarrow> traced list \<Rightarrow> bool" where
  "body_calls ds l \<longleftrightarrow> honest l \<and> list_all live_call l \<and>
     list_all (\<lambda>c. case written_object (fst c) of None \<Rightarrow> True
       | Some b \<Rightarrow> list_ex (\<lambda>d. same_object d b) ds) l"

text \<open>A block of calls that writes no owned object and sets no phase.\<close>

definition silent :: "traced \<Rightarrow> bool" where
  "silent c \<longleftrightarrow> live_call c \<and> written_object (fst c) = None \<and> \<not> phase_update PhaseReady c"

lemma silent_secret: "secret_call c \<Longrightarrow> silent c"
  using secret_call_plain [of c] by (auto simp: silent_def live_secret)

lemma silent_driver: "db_driver_call c \<Longrightarrow> silent c"
  using driver_call_plain [of c] by (auto simp: silent_def live_driver)

lemma silent_now [simp]: "silent (CNow, e)"
  by (simp add: silent_def)

lemma silent_ensure [simp]: "silent (CEnsureDatabase a b c d, e)"
  by (simp add: silent_def)

lemma silent_status [simp]:
  "silent (CStatusUpdate s, e) \<longleftrightarrow>
     ss_phase (site_status s) \<in> set live_phases \<and> ss_phase (site_status s) \<noteq> PhaseReady"
  by (simp add: silent_def)

lemma runs_ensureSecret: "runs (ensureSecret r s) (\<lambda>_ l. list_all silent l)"
  using emits_ensureSecret by (rule runs_emits) (auto intro: list_all_imp silent_secret)

lemma silent_not_writes: "silent c \<Longrightarrow> \<not> writes n c"
  by (simp add: silent_def writes_def)

lemma silent_not_ready: "silent c \<Longrightarrow> \<not> phase_update PhaseReady c"
  by (simp add: silent_def)

lemma silent_body: "list_all silent l \<Longrightarrow> body_calls ds l"
  unfolding body_calls_def honest_def in_rank_order_def
  by (auto intro!: precedes_class [of silent] dest: silent_not_writes silent_not_ready
      simp: list_all_iff silent_def)

lemma writes_not_before: "list_all silent l \<Longrightarrow> precedes P (writes n) l"
  by (erule precedes_class) (rule silent_not_writes)

text \<open>A silent block before or after a list of calls does not matter.\<close>

lemma body_calls_silent_left:
  assumes "list_all silent k" and "body_calls ds l"
  shows "body_calls ds (k @ l)"
  using assms silent_body [OF assms(1), of ds]
  by (auto simp: body_calls_def honest_def in_rank_order_def precedes_append)

lemma body_calls_silent_right:
  assumes "list_all silent k" and "body_calls ds l"
  shows "body_calls ds (l @ k)"
  using assms silent_body [OF assms(1), of ds]
  by (auto simp: body_calls_def honest_def in_rank_order_def precedes_append)

lemma workload_ready: "list_all workload_call l \<Longrightarrow> precedes P (phase_update p) l"
  by (erule precedes_class) (simp add: workload_call_plain)

lemma workload_body: "workload_calls ds x l \<Longrightarrow> body_calls ds l"
  by (auto simp: workload_calls_def body_calls_def honest_def workload_ready
      intro: list_all_imp live_workload)

section \<open>The branches of a reconcile\<close>

lemma phase_calls_silent:
  "phase_calls p x l \<Longrightarrow> p \<in> set live_phases \<Longrightarrow> p \<noteq> PhaseReady \<Longrightarrow> list_all silent l"
  by (auto simp: phase_calls_def)

lemma phases_live [simp]:
  "PhaseProvisioning \<in> set live_phases" "PhaseReady \<in> set live_phases"
  "PhaseSuspended \<in> set live_phases" "PhaseError \<in> set live_phases"
  by (simp_all add: live_phases_def)

lemma phases_distinct [simp]:
  "PhaseProvisioning \<noteq> PhaseReady" "PhaseSuspended \<noteq> PhaseReady" "PhaseError \<noteq> PhaseReady"
  by (simp_all add: phase_defs)

lemma runs_fail: "runs (fail r s stage e) (\<lambda>x l. list_all silent l \<and> ro_err x = Some e)"
  unfolding fail_def
  by (intro wp runs_mono [OF runs_setPhase]) (auto dest: phase_calls_silent)

lemma runs_suspended: "runs (reconcileSuspended r s) (\<lambda>_ l. body_calls (desired_objects r s) l)"
  unfolding reconcileSuspended_def
  by (intro wp runs_mono [OF runs_reconcileWorkload] runs_mono [OF runs_setPhase])
    (auto dest!: phase_calls_silent workload_body intro: body_calls_silent_right)

text \<open>
  An active reconcile: the Secret, the database, the workload, the status. The workload is only
  touched after \<open>EnsureDatabase\<close> has succeeded.
\<close>

definition active_calls :: "owned list \<Rightarrow> traced list \<Rightarrow> bool" where
  "active_calls ds l \<longleftrightarrow> body_calls ds l \<and> precedes ensured workload_write l"

lemma silent_active: "list_all silent l \<Longrightarrow> active_calls ds l"
  by (auto simp: active_calls_def silent_body silent_def workload_write_iff intro: precedes_class)

lemma active_silent_left: "list_all silent k \<Longrightarrow> active_calls ds l \<Longrightarrow> active_calls ds (k @ l)"
  using silent_active [of k ds] by (auto simp: active_calls_def body_calls_silent_left precedes_append)

lemma active_silent_right: "list_all silent k \<Longrightarrow> active_calls ds l \<Longrightarrow> active_calls ds (l @ k)"
  using silent_active [of k ds] by (auto simp: active_calls_def body_calls_silent_right precedes_append)

lemma ensured_workload_active:
  "workload_calls ds x l \<Longrightarrow> active_calls ds ((CEnsureDatabase a b c d, None) # l)"
  using body_calls_silent_left [of "[(CEnsureDatabase a b c d, None)]" ds l] workload_body [of ds x l]
  by (simp add: active_calls_def)

lemma failed_after_workload:
  "workload_calls ds x l \<Longrightarrow> list_all silent i \<Longrightarrow>
     active_calls ds ((CEnsureDatabase a b c d, None) # l @ i)"
  using active_silent_right [of i ds "(CEnsureDatabase a b c d, None) # l"]
  by (simp add: ensured_workload_active)

lemma ready_after_workload:
  assumes "workload_calls ds (Inr u) l" and "phase_calls PhaseReady x k"
  shows "active_calls ds ((CEnsureDatabase a b c d, None) # l @ k)"
proof -
  from assms(2) obtain s where k: "k = [(CNow, None), (CStatusUpdate s, err_of x)]"
    and s: "ss_phase (site_status s) = PhaseReady"
    by (auto simp: phase_calls_def)
  have w: "\<not> writes n (CNow, None)" "\<not> writes n (CStatusUpdate s, e)"
    "\<not> wrote n (CNow, None)" "\<not> wrote n (CStatusUpdate s, e)" for n e
    by (simp_all add: writes_def wrote_def)
  have ens: "\<not> writes n (CEnsureDatabase a b c d, None)" for n
    by (simp add: writes_def)
  from assms(1) have l: "list_all workload_call l" "in_rank_order l"
    "list_ex (wrote 3) l" "list_all (\<lambda>c. case written_object (fst c) of None \<Rightarrow> True
       | Some b \<Rightarrow> list_ex (\<lambda>d. same_object d b) ds) l"
    by (simp_all add: workload_calls_def)
  then show ?thesis
    using k s workload_ready [OF l(1)]
    by (auto simp: active_calls_def body_calls_def honest_def in_rank_order_def precedes_append w ens
        intro: list_all_imp live_workload)
qed

text \<open>A call that writes no owned object and no status.\<close>

definition plain_call :: "traced \<Rightarrow> bool" where
  "plain_call c \<longleftrightarrow> written_object (fst c) = None \<and> (\<forall>p. \<not> phase_update p c)"

lemma plain_not_writes: "plain_call c \<Longrightarrow> \<not> writes n c"
  by (simp add: plain_call_def writes_def)

lemma driver_plain: "list_all db_driver_call l \<Longrightarrow> list_all plain_call l"
  using driver_call_plain by (auto simp: plain_call_def elim!: list_all_imp)

lemma driver_precedes: "list_all db_driver_call l \<Longrightarrow> precedes P site_update l"
  using driver_call_plain by (auto elim!: precedes_class)

definition known_phase :: "traced \<Rightarrow> bool" where
  "known_phase c \<longleftrightarrow>
     (case fst c of CStatusUpdate s \<Rightarrow> ss_phase (site_status s) \<in> set live_phases | _ \<Rightarrow> True)"

lemma live_known: "live_call c \<Longrightarrow> known_phase c"
  by (simp add: live_call_def known_phase_def)

lemma plain_known: "plain_call c \<Longrightarrow> known_phase c"
  by (cases c) (auto simp: plain_call_def known_phase_def split: ext_call.split)

lemma plain_honest: "list_all plain_call l \<Longrightarrow> honest l"
  unfolding honest_def in_rank_order_def
  by (auto intro!: precedes_class [of plain_call] dest: plain_not_writes simp: plain_call_def)

lemma honest_left: "list_all plain_call k \<Longrightarrow> honest l \<Longrightarrow> honest (k @ l)"
  using plain_honest [of k] by (auto simp: honest_def in_rank_order_def precedes_append)

section \<open>With any provider of the Database interface\<close>

text \<open>What a reconcile does with any database that keeps the contract of \<open>database_provider\<close>.\<close>

locale reconciles_with = database_provider
begin

lemma runs_ensure: "runs (d_ensure db name user host pw) (\<lambda>_ l. list_all silent l)"
  using ensure_driver_only by (rule runs_emits) (auto intro: list_all_imp silent_driver)

lemma runs_drop: "runs (d_drop db name user host) (\<lambda>_ l. list_all db_driver_call l)"
  using drop_driver_only by (rule runs_emits)

lemma runs_ensureDatabase:
  "r_db r = db \<Longrightarrow> runs (ensureDatabase r s pw)
     (\<lambda>x l. \<exists>k. list_all silent k \<and> l = k @ [(CEnsureDatabase (DatabaseName s) (DatabaseUser s)
        (DatabaseHost s) pw, err_of x)])"
  by (simp add: ensureDatabase_def, intro wp runs_mono [OF runs_ensure]) auto

lemma runs_dropDatabase:
  "r_db r = db \<Longrightarrow> runs (dropDatabase r s)
     (\<lambda>x l. \<exists>k. list_all db_driver_call k \<and> l = k @ [(CDropDatabase (DatabaseName s) (DatabaseUser s)
        (DatabaseHost s), err_of x)])"
  by (simp add: dropDatabase_def, intro wp runs_mono [OF runs_drop]) auto

lemma runs_active:
  "runs (reconcileActive (r\<lparr>r_db := db\<rparr>) s)
     (\<lambda>_ l. active_calls (desired_objects (r\<lparr>r_db := db\<rparr>) s) l)"
  unfolding reconcileActive_def
proof (intro wp runs_mono [OF runs_ensureSecret] runs_mono [OF runs_fail] runs_mono [OF runs_setPhase]
    runs_mono [OF runs_ensureDatabase] runs_mono [OF runs_reconcileWorkload], goal_cases)
  case (1 x l e x' l')
  then show ?case by (auto intro: silent_active)
next
  case 2
  then show ?case by simp
next
  case (3 x l sec y k e p j)
  then show ?case by (auto dest!: phase_calls_silent intro!: silent_active)
next
  case (4 x l sec y k u z j e f i)
  then show ?case
    by clarsimp (intro active_silent_left failed_after_workload; assumption)
next
  case (5 x l sec y k u z j v p i)
  then show ?case
    by clarsimp (intro active_silent_left ready_after_workload; assumption)
qed

lemma runs_body:
  "runs (reconcileBody (r\<lparr>r_db := db\<rparr>) s)
     (\<lambda>_ l. body_calls (desired_objects (r\<lparr>r_db := db\<rparr>) s) l)"
  unfolding reconcileBody_def
  by (intro wp runs_suspended runs_mono [OF runs_active]) (simp add: active_calls_def)

text \<open>
  A deletion: with \<open>DropDataOnDelete\<close> the finalizer goes only after the drop has succeeded,
  without it nothing is dropped.
\<close>

lemma runs_delete_dropping:
  "runs (reconcileDelete (r\<lparr>r_db := db, r_dropDataOnDelete := True\<rparr>) s)
     (\<lambda>_ l. precedes dropped site_update l)"
  unfolding reconcileDelete_def
  by (intro wp runs_mono [OF runs_dropDatabase])
    (auto simp: precedes_append driver_precedes)

lemma runs_delete_keeping:
  "runs (reconcileDelete (r\<lparr>r_db := db, r_dropDataOnDelete := False\<rparr>) s)
     (\<lambda>_ l. list_all (\<lambda>c. \<not> drop_call c) l)"
  unfolding reconcileDelete_def by (intro wp runs_mono [OF runs_dropDatabase]) auto

lemma runs_delete:
  "runs (reconcileDelete (r\<lparr>r_db := db\<rparr>) s)
     (\<lambda>_ l. list_all plain_call l)"
  unfolding reconcileDelete_def
  by (intro wp runs_mono [OF runs_dropDatabase])
    (auto simp: driver_plain plain_call_def)

text \<open>A name the provider refuses: the deletion changes nothing and is retried, every time.\<close>

lemma delete_stuck:
  assumes "\<not> accepts (DatabaseName s) (DatabaseUser s)"
    and "k_containsFinalizer (r_kube r) s Finalizer"
  shows "\<exists>e. run_state (reconcileDelete (r\<lparr>r_db := db, r_dropDataOnDelete := True\<rparr>) s) w =
    (retry_after 15, w\<lparr>trace := trace w @
       [(CDropDatabase (DatabaseName s) (DatabaseUser s) (DatabaseHost s), Some e)]\<rparr>)"
proof -
  obtain e where "d_drop db (DatabaseName s) (DatabaseUser s) (DatabaseHost s) = ret (Inl e)"
    using drop_refuses [OF assms(1)] by auto
  with assms(2) show ?thesis
    by (intro exI [of _ e]) (simp add: reconcileDelete_def dropDatabase_def run_simps)
qed

lemma runs_Reconcile:
  "runs (Reconcile (r\<lparr>r_db := db\<rparr>) ns n) (\<lambda>_ l. honest l \<and> list_all known_phase l)"
proof -
  have body: "honest (k @ l) \<and> list_all known_phase (k @ l)"
    if "list_all plain_call k" and "body_calls ds l" for k l ds
    using that honest_left [of k l]
    by (auto simp: body_calls_def intro: list_all_imp live_known plain_known)
  have plain: "honest k \<and> list_all known_phase k" if "list_all plain_call k" for k
    using that by (auto intro: plain_honest list_all_imp plain_known)
  have get: "plain_call (CGetSite ns n, e)" and upd: "plain_call (CUpdateSite s, e)" for e s
    by (simp_all add: plain_call_def)
  show ?thesis
    unfolding Reconcile_def
  proof (intro wp runs_mono [OF runs_body] runs_mono [OF runs_delete], goal_cases)
    case (1 x e)
    show ?case by (rule plain) (simp add: get)
  next
    case (2 x s y l)
    then show ?case by (intro plain) (simp add: get)
  next
    case (3 x s s1 added u e)
    show ?case by (rule plain) (simp add: get upd)
  next
    case (4 x s s1 added u s2 y l)
    then show ?case
      using body [of "[(CGetSite ns n, err_of x), (CUpdateSite s1, err_of u)]"] by (simp add: get upd)
  next
    case (5 x s s1 added y l)
    then show ?case
      using body [of "[(CGetSite ns n, err_of x)]"] by (simp add: get)
  qed
qed

end

end
