(* ===== verification/Mysql.thy ===== *)
theory Mysql
imports Database
begin

text \<open>
  internal/mysql/provisioner.go: the provisioner of a database and a least-privilege user per
  site. The lemmas say which identifiers are accepted, that a password escaped by
  \<open>escapeString\<close> is read back unchanged by a reader of MySQL string literals, and in which order
  the statements run.
\<close>

section \<open>The functions of provisioner.go\<close>

record mysql_config =
  my_host :: string
  my_port :: string
  my_user :: string
  my_password :: string

definition DSN :: "mysql_config \<Rightarrow> string" where
  "DSN c = my_user c @ '':'' @ my_password c @ ''@tcp('' @ my_host c @ '':'' @ my_port c
     @ '')/?parseTime=true&multiStatements=false''"

definition ident_rune :: "nat \<Rightarrow> bool" where
  "ident_rune r \<longleftrightarrow> (0x61 \<le> r \<and> r \<le> 0x7A) \<or> (0x41 \<le> r \<and> r \<le> 0x5A) \<or> (0x30 \<le> r \<and> r \<le> 0x39)
     \<or> r = 0x5F"

definition validateIdent :: "'e sqldrv \<Rightarrow> string \<Rightarrow> unit result" where
  "validateIdent q s =
     (if s = [] \<or> length s > 64 then Inl (GoErr (''invalid identifier '' @ q_quote q s))
      else if list_all ident_rune (runes s) then Inr ()
      else Inl (GoErr (''invalid character in identifier '' @ q_quote q s)))"

definition escape_byte :: "char \<Rightarrow> string" where
  "escape_byte c =
     (if c = CHR 0x27 \<or> c = CHR 0x5C then [CHR 0x5C, c]
      else if c = CHR 0x00 then [CHR 0x5C, CHR ''0'']
      else if c = CHR 0x0A then [CHR 0x5C, CHR ''n'']
      else if c = CHR 0x0D then [CHR 0x5C, CHR ''r'']
      else [c])"

definition escapeString :: "string \<Rightarrow> string" where
  "escapeString s = concat (map escape_byte s)"

definition mysql_open :: "'e sqldrv \<Rightarrow> mysql_config \<Rightarrow> ('e, unit result) prog" where
  "mysql_open q cfg = do {
     r \<leftarrow> sqlOpen q ''mysql'' (DSN cfg);
     case r of
       Inl e \<Rightarrow> ret (Inl e)
     | Inr _ \<Rightarrow> do {
         p \<leftarrow> sqlPing q;
         case p of
           Inl e \<Rightarrow> do { _ \<leftarrow> sqlClose q; ret (Inl (GoErr (''ping mysql: '' @ error_text e))) }
         | Inr _ \<Rightarrow> ret (Inr ())
       }
   }"

definition quoted :: "string \<Rightarrow> string" where
  "quoted s = squote @ s @ squote"

definition account :: "string \<Rightarrow> string \<Rightarrow> string" where
  "account user host = quoted user @ ''@'' @ quoted host"

definition create_user_stmt :: "string \<Rightarrow> string \<Rightarrow> string \<Rightarrow> string" where
  "create_user_stmt user host pw =
     ''CREATE USER IF NOT EXISTS '' @ account user host @ '' IDENTIFIED BY '' @ quoted (escapeString pw)"

definition alter_user_stmt :: "string \<Rightarrow> string \<Rightarrow> string \<Rightarrow> string" where
  "alter_user_stmt user host pw =
     ''ALTER USER '' @ account user host @ '' IDENTIFIED BY '' @ quoted (escapeString pw)"

definition grant_stmt :: "string \<Rightarrow> string \<Rightarrow> string \<Rightarrow> string" where
  "grant_stmt name user host =
     ''GRANT ALL PRIVILEGES ON `'' @ name @ ''`.* TO '' @ account user host"

definition ensure_stmts :: "string \<Rightarrow> string \<Rightarrow> string \<Rightarrow> string \<Rightarrow> (string \<times> string) list" where
  "ensure_stmts name user host pw =
     [(''CREATE DATABASE IF NOT EXISTS `'' @ name
         @ ''` CHARACTER SET utf8mb4 COLLATE utf8mb4_unicode_ci'', ''create database''),
      (create_user_stmt user host pw, ''create user''),
      (alter_user_stmt user host pw, ''alter user''),
      (grant_stmt name user host, ''grant''),
      (''FLUSH PRIVILEGES'', ''flush privileges'')]"

fun exec_labelled :: "'e sqldrv \<Rightarrow> (string \<times> string) list \<Rightarrow> ('e, unit result) prog" where
  "exec_labelled q [] = ret (Inr ())"
| "exec_labelled q ((st, label) # rest) = do {
     r \<leftarrow> sqlExec q st [];
     case r of
       Inl e \<Rightarrow> ret (Inl (GoErr (''mysql '' @ label @ '': '' @ error_text e)))
     | Inr _ \<Rightarrow> exec_labelled q rest
   }"

definition EnsureDatabase ::
  "'e sqldrv \<Rightarrow> mysql_config \<Rightarrow> string \<Rightarrow> string \<Rightarrow> string \<Rightarrow> string \<Rightarrow> ('e, unit result) prog" where
  "EnsureDatabase q cfg name user host pw =
     (case validateIdent q name of
        Inl e \<Rightarrow> ret (Inl e)
      | Inr _ \<Rightarrow> case validateIdent q user of
          Inl e \<Rightarrow> ret (Inl e)
        | Inr _ \<Rightarrow> do {
            o1 \<leftarrow> mysql_open q cfg;
            case o1 of
              Inl e \<Rightarrow> ret (Inl e)
            | Inr _ \<Rightarrow> do {
                r \<leftarrow> exec_labelled q (ensure_stmts name user host pw);
                _ \<leftarrow> sqlClose q;
                ret r
              }
          })"

definition drop_stmts :: "string \<Rightarrow> string \<Rightarrow> string \<Rightarrow> string list" where
  "drop_stmts name user host =
     [''DROP DATABASE IF EXISTS `'' @ name @ ''`'',
      ''DROP USER IF EXISTS '' @ account user host,
      ''FLUSH PRIVILEGES'']"

fun exec_plain :: "'e sqldrv \<Rightarrow> string list \<Rightarrow> ('e, unit result) prog" where
  "exec_plain q [] = ret (Inr ())"
| "exec_plain q (st # rest) = do {
     r \<leftarrow> sqlExec q st [];
     case r of
       Inl e \<Rightarrow> ret (Inl (GoErr (''mysql exec '' @ q_quote q st @ '': '' @ error_text e)))
     | Inr _ \<Rightarrow> exec_plain q rest
   }"

definition DropDatabase ::
  "'e sqldrv \<Rightarrow> mysql_config \<Rightarrow> string \<Rightarrow> string \<Rightarrow> string \<Rightarrow> ('e, unit result) prog" where
  "DropDatabase q cfg name user host =
     (case validateIdent q name of
        Inl e \<Rightarrow> ret (Inl e)
      | Inr _ \<Rightarrow> case validateIdent q user of
          Inl e \<Rightarrow> ret (Inl e)
        | Inr _ \<Rightarrow> do {
            o1 \<leftarrow> mysql_open q cfg;
            case o1 of
              Inl e \<Rightarrow> ret (Inl e)
            | Inr _ \<Rightarrow> do {
                r \<leftarrow> exec_plain q (drop_stmts name user host);
                _ \<leftarrow> sqlClose q;
                ret r
              }
          })"

definition mysql_provisioner :: "'e sqldrv \<Rightarrow> mysql_config \<Rightarrow> 'e database" where
  "mysql_provisioner q cfg = \<lparr>d_ensure = EnsureDatabase q cfg, d_drop = DropDatabase q cfg\<rparr>"

section \<open>Identifiers\<close>

definition ident_char :: "char \<Rightarrow> bool" where
  "ident_char c \<longleftrightarrow> ident_rune (byte_of c)"

definition valid_ident :: "string \<Rightarrow> bool" where
  "valid_ident s \<longleftrightarrow> s \<noteq> [] \<and> length s \<le> 64 \<and> list_all ident_char s"

lemma ident_rune_ascii: "ident_rune r \<Longrightarrow> r < 0x80"
  by (auto simp: ident_rune_def)

text \<open>The loop over runes is a test of the bytes: a byte outside ASCII is part of a bad rune.\<close>

lemma ident_runes_iff: "list_all ident_rune (runes s) \<longleftrightarrow> list_all ident_char s"
  using list_all_runes_iff [of ident_rune s] ident_rune_ascii
  by (simp add: bytes_def ident_char_def list_all_iff)

lemma validateIdent_ok_iff: "validateIdent q s = Inr () \<longleftrightarrow> valid_ident s"
  by (auto simp: validateIdent_def valid_ident_def ident_runes_iff)

lemma validateIdent_cases:
  obtains (ok) "valid_ident s" "validateIdent q s = Inr ()"
  | (bad) e where "\<not> valid_ident s" "validateIdent q s = Inl e"
  using validateIdent_ok_iff [of q s] by (cases "validateIdent q s") auto

lemma slug_char_ident: "slug_char c \<Longrightarrow> ident_char c"
  by (auto simp: slug_char_def slug_rune_def ident_char_def ident_rune_def)

text \<open>A site without overrides has generated names, and these are valid.\<close>

definition no_override :: "site \<Rightarrow> bool" where
  "no_override s \<longleftrightarrow> sp_database (site_spec s) = \<lparr>db_name = [], db_user = [], db_host = []\<rparr>
     \<and> st_subPath (sp_storage (site_spec s)) = []"

lemma generated_name_ident:
  "list_all slug_char p \<Longrightarrow> p \<noteq> [] \<Longrightarrow> 0 < n \<Longrightarrow> n \<le> 64 \<Longrightarrow>
     valid_ident (truncate_str (p @ sanitize name) n)"
  using length_truncate [of "p @ sanitize name" n] truncate_nonempty [of "p @ sanitize name" n]
  by (auto simp: valid_ident_def intro!: list_all_imp [OF list_all_truncate, of slug_char]
      sanitize_slug slug_char_ident)

lemma name_prefixes: "list_all slug_char ''wp_''" "list_all slug_char ''wpu_''"
  by (simp_all add: slug_char_def slug_rune_def byte_of_def)

lemma no_override_idents:
  assumes "no_override s"
  shows "valid_ident (DatabaseName s)" "valid_ident (DatabaseUser s)"
  using assms generated_name_ident [OF name_prefixes(1), of 64] generated_name_ident [OF name_prefixes(2), of 32]
  by (simp_all add: no_override_def DatabaseName_def DatabaseUser_def)

section \<open>String literals\<close>

text \<open>
  What the MySQL manual says of a string literal in single quotes (default SQL mode), of a reader
  that is given the text after the opening quote and returns the value and the text after the
  closing quote.
\<close>

definition reads_literals :: "(string \<Rightarrow> (string \<times> string) option) \<Rightarrow> bool" where
  "reads_literals scan \<longleftrightarrow>
     (\<forall>c s. c \<noteq> CHR 0x27 \<longrightarrow> c \<noteq> CHR 0x5C \<longrightarrow>
        scan (c # s) = map_option (map_prod (Cons c) id) (scan s)) \<and>
     (\<forall>s. scan (CHR 0x5C # CHR 0x27 # s) = map_option (map_prod (Cons (CHR 0x27)) id) (scan s)) \<and>
     (\<forall>s. scan (CHR 0x5C # CHR 0x5C # s) = map_option (map_prod (Cons (CHR 0x5C)) id) (scan s)) \<and>
     (\<forall>s. scan (CHR 0x5C # CHR ''0'' # s) = map_option (map_prod (Cons (CHR 0x00)) id) (scan s)) \<and>
     (\<forall>s. scan (CHR 0x5C # CHR ''n'' # s) = map_option (map_prod (Cons (CHR 0x0A)) id) (scan s)) \<and>
     (\<forall>s. scan (CHR 0x5C # CHR ''r'' # s) = map_option (map_prod (Cons (CHR 0x0D)) id) (scan s)) \<and>
     (\<forall>s. (case s of [] \<Rightarrow> True | c # _ \<Rightarrow> c \<noteq> CHR 0x27) \<longrightarrow> scan (CHR 0x27 # s) = Some ([], s))"

definition not_quoted :: "string \<Rightarrow> bool" where
  "not_quoted s \<longleftrightarrow> (case s of [] \<Rightarrow> True | c # _ \<Rightarrow> c \<noteq> CHR 0x27)"

lemma scan_escape_byte:
  "reads_literals scan \<Longrightarrow> scan (escape_byte c @ s) = map_option (map_prod (Cons c) id) (scan s)"
  unfolding reads_literals_def by (auto simp: escape_byte_def)

lemma scan_close: "reads_literals scan \<Longrightarrow> not_quoted s \<Longrightarrow> scan (squote @ s) = Some ([], s)"
  by (auto simp: reads_literals_def not_quoted_def squote_def)

lemma scan_escaped:
  assumes "reads_literals scan" and "not_quoted rest"
  shows "scan (escapeString s @ squote @ rest) = Some (s, rest)"
proof (induction s)
  case Nil
  with assms show ?case by (simp add: escapeString_def scan_close)
next
  case (Cons c s)
  with assms(1) show ?case by (simp add: escapeString_def scan_escape_byte)
qed

text \<open>A string without quote, backslash or control byte is its own escape.\<close>

definition plain_char :: "char \<Rightarrow> bool" where
  "plain_char c \<longleftrightarrow> escape_byte c = [c]"

lemma escape_plain: "list_all plain_char s \<Longrightarrow> escapeString s = s"
  by (induction s) (auto simp: escapeString_def plain_char_def)

lemma plain_char_iff:
  "plain_char c \<longleftrightarrow> c \<notin> {CHR 0x27, CHR 0x5C, CHR 0x00, CHR 0x0A, CHR 0x0D}"
  by (auto simp: plain_char_def escape_byte_def)

lemma ident_char_plain: "ident_char c \<Longrightarrow> plain_char c"
  by (auto simp: plain_char_iff ident_char_def ident_rune_def byte_of_def)

lemma url_safe_plain: "url_safe_char c \<Longrightarrow> plain_char c"
  by (auto simp: url_safe_char_def b64_alphabet_def plain_char_iff)

lemma scan_plain:
  "reads_literals scan \<Longrightarrow> list_all plain_char s \<Longrightarrow> not_quoted rest \<Longrightarrow>
     scan (s @ squote @ rest) = Some (s, rest)"
  using scan_escaped [of scan rest s] by (simp add: escape_plain)

section \<open>Running the statements\<close>

text \<open>What \<open>exec_labelled\<close> leaves in the trace: the statements up to the first that fails.\<close>

lemma exec_labelled_run:
  assumes "run_state (exec_labelled q sts) w = (r, w')"
  shows "(r = Inr () \<and> trace w' = trace w @ map (\<lambda>(st, _). (CSqlExec st [], None)) sts) \<or>
    (\<exists>done st label rest e. sts = done @ (st, label) # rest \<and>
       r = Inl (GoErr (''mysql '' @ label @ '': '' @ error_text e)) \<and>
       trace w' = trace w @ map (\<lambda>(st, _). (CSqlExec st [], None)) done @ [(CSqlExec st [], Some e)])"
  using assms
proof (induction sts arbitrary: w)
  case (Cons x sts)
  obtain st label where x: "x = (st, label)" by fastforce
  obtain y e1 where exec: "q_exec q st [] (env w) = (y, e1)" by fastforce
  show ?case
  proof (cases y)
    case (Inl e)
    with Cons.prems x exec
    have "x # sts = [] @ (st, label) # sts"
      and "r = Inl (GoErr (''mysql '' @ label @ '': '' @ error_text e))"
      and "trace w' = trace w @ map (\<lambda>(st, _). (CSqlExec st [], None)) [] @ [(CSqlExec st [], Some e)]"
      by (auto simp: run_simps)
    then show ?thesis by blast
  next
    case (Inr u)
    define w1 where "w1 = w\<lparr>env := e1, trace := trace w @ [(CSqlExec st [], None)]\<rparr>"
    have "run_state (exec_labelled q sts) w1 = (r, w')"
      using Cons.prems x exec Inr by (simp add: run_simps w1_def)
    from Cons.IH [OF this] show ?thesis
    proof (elim disjE exE conjE)
      assume "r = Inr ()" "trace w' = trace w1 @ map (\<lambda>(st, _). (CSqlExec st [], None)) sts"
      then show ?thesis by (simp add: w1_def x)
    next
      fix d s l rest e
      assume "sts = d @ (s, l) # rest" "r = Inl (GoErr (''mysql '' @ l @ '': '' @ error_text e))"
        "trace w' = trace w1 @ map (\<lambda>(st, _). (CSqlExec st [], None)) d @ [(CSqlExec s [], Some e)]"
      moreover from this have "x # sts = (x # d) @ (s, l) # rest"
        and "trace w' = trace w @ map (\<lambda>(st, _). (CSqlExec st [], None)) (x # d) @ [(CSqlExec s [], Some e)]"
        by (simp_all add: w1_def x)
      ultimately show ?thesis by blast
    qed
  qed
qed simp

lemma emits_exec_labelled_in:
  "(\<And>st label r. (st, label) \<in> set sts \<Longrightarrow> P (CSqlExec st [], r)) \<Longrightarrow> emits P (exec_labelled q sts)"
  by (induction sts rule: exec_labelled.induct) (auto intro!: emits_intros)

lemma emits_exec_labelled [emits_intros]: "(\<And>st r. P (CSqlExec st [], r)) \<Longrightarrow> emits P (exec_labelled q sts)"
  by (rule emits_exec_labelled_in)

lemma emits_exec_plain [emits_intros]: "(\<And>st r. P (CSqlExec st [], r)) \<Longrightarrow> emits P (exec_plain q sts)"
  by (induction sts rule: exec_plain.induct) (auto intro!: emits_intros)

lemma emits_mysql_open: "emits db_driver_call (mysql_open q cfg)"
  unfolding mysql_open_def by (intro emits_intros) simp_all

lemma emits_EnsureDatabase: "emits db_driver_call (EnsureDatabase q cfg name user host pw)"
  unfolding EnsureDatabase_def by (intro emits_intros emits_mysql_open) simp_all

lemma emits_DropDatabase: "emits db_driver_call (DropDatabase q cfg name user host)"
  unfolding DropDatabase_def by (intro emits_intros emits_mysql_open) simp_all

section \<open>The provisioner implements the interface\<close>

lemma EnsureDatabase_refuses:
  "\<not> (valid_ident name \<and> valid_ident user) \<Longrightarrow>
     \<exists>e. \<forall>host pw. EnsureDatabase q cfg name user host pw = ret (Inl e)"
  by (cases name rule: validateIdent_cases [where q = q]; cases user rule: validateIdent_cases [where q = q])
    (auto simp: EnsureDatabase_def)

lemma DropDatabase_refuses:
  "\<not> (valid_ident name \<and> valid_ident user) \<Longrightarrow>
     \<exists>e. \<forall>host. DropDatabase q cfg name user host = ret (Inl e)"
  by (cases name rule: validateIdent_cases [where q = q]; cases user rule: validateIdent_cases [where q = q])
    (auto simp: DropDatabase_def)

interpretation mysql_db: database_provider "mysql_provisioner q cfg"
  "\<lambda>name user. valid_ident name \<and> valid_ident user"
  for q cfg
  by unfold_locales
    (simp_all add: mysql_provisioner_def emits_EnsureDatabase emits_DropDatabase
      EnsureDatabase_refuses DropDatabase_refuses)

end
