(* ===== verification/ReconcileOutcome.thy ===== *)
theory ReconcileOutcome
imports ReconcileOrder Mysql Sqlite
begin

text \<open>
  What one reconcile writes and how it ends: every owned object that is written is a desired one
  with its controller reference, the result of an active reconcile as a function of the calls that
  failed, what is stored in the Secret, and which reconciles never destroy data.
\<close>

section \<open>Only desired objects are written\<close>

text \<open>The desired object \<open>d\<close> with its controller reference, and with the version of a found one.\<close>

definition applied :: "'e reconciler \<Rightarrow> site \<Rightarrow> owned \<Rightarrow> owned \<Rightarrow> bool" where
  "applied r s d b \<longleftrightarrow>
     (case k_setControllerRef (r_kube r) s (owned_meta d) of Inl _ \<Rightarrow> False | Inr m \<Rightarrow> b = with_meta m d)"

definition reapplied :: "'e reconciler \<Rightarrow> site \<Rightarrow> owned \<Rightarrow> owned \<Rightarrow> bool" where
  "reapplied r s d b \<longleftrightarrow>
     (case k_setControllerRef (r_kube r) s (owned_meta d) of
        Inl _ \<Rightarrow> False
      | Inr m \<Rightarrow> b = with_meta (m\<lparr>m_resourceVersion := m_resourceVersion (owned_meta b)\<rparr>) d)"

fun writes_desired :: "'e reconciler \<Rightarrow> site \<Rightarrow> owned list \<Rightarrow> traced \<Rightarrow> bool" where
  "writes_desired r s ds (CCreateOwned b, _) = list_ex (\<lambda>d. applied r s d b) ds"
| "writes_desired r s ds (CPatchOwned _ b, _) = list_ex (\<lambda>d. applied r s d b) ds"
| "writes_desired r s ds (CUpdateOwned b, _) = list_ex (\<lambda>d. reapplied r s d b) ds"
| "writes_desired r s ds _ = True"

lemma writes_desired_other: "written_object (fst c) = None \<Longrightarrow> writes_desired r s ds c"
  by (cases "(r, s, ds, c)" rule: writes_desired.cases) simp_all

lemma applied_with_meta:
  "k_setControllerRef (r_kube r) s (owned_meta d) = Inr m \<Longrightarrow>
     reapplied r s d (with_meta (m\<lparr>m_resourceVersion := rv\<rparr>) d) \<and> applied r s d (with_meta m d)"
  by (simp add: applied_def reapplied_def)

lemma emits_apply_desired: "d \<in> set ds \<Longrightarrow> emits (writes_desired r s ds) (apply_obj r s d)"
  unfolding apply_obj_def
  by (intro emits_intros) (auto simp: list_ex_iff dest!: applied_with_meta)

text \<open>The calls of one \<open>apply\<close>, on every branch.\<close>

definition apply_calls :: "'e reconciler \<Rightarrow> site \<Rightarrow> owned \<Rightarrow> 'e \<Rightarrow> ext_call list" where
  "apply_calls r s d e =
     (case k_setControllerRef (r_kube r) s (owned_meta d) of
        Inl _ \<Rightarrow> []
      | Inr m \<Rightarrow>
          if r_noServerSideApply r then CGetOwned (with_meta m d) #
            (case fst (k_getOwned (r_kube r) (with_meta m d) e) of
               Inl x \<Rightarrow> if is_not_found x then [CCreateOwned (with_meta m d)] else []
             | Inr f \<Rightarrow> [CUpdateOwned (with_meta (m\<lparr>m_resourceVersion := m_resourceVersion (owned_meta f)\<rparr>) d)])
          else case k_gvk (r_kube r) (with_meta m d) of
            Inl _ \<Rightarrow> []
          | Inr g \<Rightarrow> [CPatchOwned g (with_meta m d)])"

lemma apply_calls: "map fst (emitted (apply_obj r s d) w) = apply_calls r s d (env w)"
  by (auto simp: apply_obj_def apply_calls_def emitted_def run_simps split: sum.split prod.split)

lemma emits_each_desired:
  "set bs \<subseteq> set ds \<Longrightarrow> emits (writes_desired r s ds) (apply_each r s bs)"
  by (induction bs) (auto intro!: emits_intros emits_apply_desired)

lemma emits_setPhase: 
  "P (CNow, None) \<Longrightarrow> (\<And>s x. P (CStatusUpdate s, x)) \<Longrightarrow> emits P (setPhase r s p msg)"
  unfolding setPhase_def by (intro emits_intros)

lemma emits_fail: 
  "P (CNow, None) \<Longrightarrow> (\<And>s x. P (CStatusUpdate s, x)) \<Longrightarrow> emits P (fail r s stage e)"
  unfolding fail_def by (intro emits_intros emits_setPhase)

lemmas emits_phase = emits_setPhase emits_fail

context reconciles_with begin

lemma emits_ensure_call:
  assumes "r_db r = db" "\<And>c. db_driver_call c \<Longrightarrow> P c" "\<And>n u h p x. P (CEnsureDatabase n u h p, x)"
  shows "emits P (ensureDatabase r s pw)"
  unfolding ensureDatabase_def assms(1) by (intro emits_intros ensure_emits assms(2,3))

lemma emits_drop_call:
  assumes "r_db r = db" "\<And>c. db_driver_call c \<Longrightarrow> P c" "\<And>n u h x. P (CDropDatabase n u h, x)"
  shows "emits P (dropDatabase r s)"
  unfolding dropDatabase_def assms(1) by (intro emits_intros drop_emits assms(2,3))

lemma emits_body_desired:
  fixes r :: "'a reconciler" and s defines "r' \<equiv> r\<lparr>r_db := db\<rparr>"
  shows "emits (writes_desired r' s (desired_objects r' s)) (reconcileBody r' s)"
  unfolding reconcileBody_def reconcileSuspended_def reconcileActive_def reconcileWorkload_def
  by (intro emits_intros emits_phase emits_each_desired emits_ensure_call emits_mono [OF emits_ensureSecret])
    (simp_all add: r'_def writes_desired_other secret_call_plain driver_call_plain)
end

section \<open>How an active reconcile ends\<close>

fun ensure_failed :: "traced \<Rightarrow> bool" where
  "ensure_failed (CEnsureDatabase _ _ _ _, Some _) = True"
| "ensure_failed _ = False"

fun status_update :: "traced \<Rightarrow> bool" where
  "status_update (CStatusUpdate _, _) = True"
| "status_update _ = False"

definition status_stored :: "string \<Rightarrow> traced \<Rightarrow> bool" where
  "status_stored p c \<longleftrightarrow> phase_update p c \<and> snd c = None"

definition inner_call :: "traced \<Rightarrow> bool" where
  "inner_call c \<longleftrightarrow> \<not> ensure_failed c \<and> \<not> status_update c \<and> (\<forall>p. \<not> status_stored p c)"

lemma inner_secret: "secret_call c \<Longrightarrow> inner_call c"
  by (cases c rule: secret_call.cases) (auto simp: inner_call_def status_stored_def)

lemma inner_driver: "db_driver_call c \<Longrightarrow> inner_call c"
  by (cases c rule: db_driver_call.cases) (auto simp: inner_call_def status_stored_def)

lemma inner_workload: "workload_call c \<Longrightarrow> inner_call c"
  by (cases c rule: workload_call.cases) (auto simp: inner_call_def status_stored_def)

lemma inner_none:
  "list_all inner_call l \<Longrightarrow> \<not> list_ex ensure_failed l \<and> \<not> list_ex (status_stored p) l
     \<and> filter status_update l = []"
  by (induction l) (auto simp: inner_call_def status_stored_def)

definition active_outcome :: "reconcile_out \<Rightarrow> traced list \<Rightarrow> bool" where
  "active_outcome x l \<longleftrightarrow>
     ro_requeueAfter x = (if list_ex ensure_failed l then 15 else 0) \<and>
     (list_ex ensure_failed l \<longrightarrow> ro_err x = None) \<and>
     (x = done_with None \<longleftrightarrow> list_ex (status_stored PhaseReady) l) \<and>
     length (filter status_update l) = 1"

lemma phase_calls_cases:
  assumes "phase_calls p x l"
  obtains s where "l = [(CNow, None), (CStatusUpdate s, err_of x)]" "ss_phase (site_status s) = p"
  using assms by (auto simp: phase_calls_def)

lemma runs_fail_calls:
  "runs (fail r s stage e) (\<lambda>x l. x = done_with (Some e) \<and> (\<exists>y :: site result. phase_calls PhaseError y l))"
  unfolding fail_def by (intro wp runs_mono [OF runs_setPhase]) auto

context reconciles_with begin

lemma runs_active_outcome:
  "runs (reconcileActive (r\<lparr>r_db := db\<rparr>) s) active_outcome"
proof -
  have secret: "runs (ensureSecret r' s) (\<lambda>_ l. list_all inner_call l)" for r' :: "'a reconciler"
    using emits_ensureSecret by (rule runs_emits) (auto intro: list_all_imp inner_secret)
  have ensure: "runs (ensureDatabase (r\<lparr>r_db := db\<rparr>) s pw) (\<lambda>x l. \<exists>k. list_all inner_call k \<and>
      l = k @ [(CEnsureDatabase (DatabaseName s) (DatabaseUser s) (DatabaseHost s) pw, err_of x)])" for pw
    by (simp add: ensureDatabase_def, intro wp runs_emits [OF ensure_driver_only])
      (auto intro: list_all_imp inner_driver)
  have workload: "runs (reconcileWorkload r' s) (\<lambda>_ l. list_all inner_call l)" for r' :: "'a reconciler"
    by (rule runs_mono [OF runs_reconcileWorkload]) (auto simp: workload_calls_def intro: list_all_imp inner_workload)
  show ?thesis
    unfolding reconcileActive_def
    by (intro wp runs_mono [OF secret] runs_mono [OF ensure] runs_mono [OF workload]
        runs_mono [OF runs_setPhase] runs_mono [OF runs_fail_calls])
      (auto simp: active_outcome_def inner_none status_stored_def err_of_None_iff elim!: phase_calls_cases)
qed
end

section \<open>What is stored in the Secret\<close>

text \<open>
  What a write of the Secret may send when the Secret \<open>ex\<close> was found: complete data, created only
  when none was found, and otherwise an update that keeps what is there and carries its version.
\<close>

fun secret_write_ok :: "secret option \<Rightarrow> traced \<Rightarrow> bool" where
  "secret_write_ok ex (CCreateSecret x, _) = (ex = None \<and> secret_complete (sec_data x))"
| "secret_write_ok ex (CUpdateSecret y, _) =
     (case ex of
        None \<Rightarrow> False
      | Some x \<Rightarrow> secret_complete (sec_data y) \<and> keeps_data (sec_data x) (sec_data y) \<and>
          sec_data x \<noteq> sec_data y \<and>
          m_resourceVersion (sec_meta y) = m_resourceVersion (sec_meta x))"
| "secret_write_ok ex _ = True"

fun secret_write :: "traced \<Rightarrow> bool" where
  "secret_write (CCreateSecret _, _) = True"
| "secret_write (CUpdateSecret _, _) = True"
| "secret_write _ = False"

text \<open>After the answer \<open>got\<close> of \<open>Get\<close>; an error that is not \<open>NotFound\<close> ends it, with nothing written.\<close>

definition secret_write_after :: "secret result \<Rightarrow> traced \<Rightarrow> bool" where
  "secret_write_after got c \<longleftrightarrow>
     (case got of
        Inr x \<Rightarrow> secret_write_ok (Some x) c
      | Inl e \<Rightarrow> if is_not_found e then secret_write_ok None c else \<not> secret_write c)"

lemma runs_DesiredSecret:
  "runs (DesiredSecret k s ex) (\<lambda>a l. (secret_complete (sec_data a) \<and>
     (case ex of None \<Rightarrow> True | Some x \<Rightarrow> keeps_data (sec_data x) (sec_data a))) \<and>
     list_all (secret_write_ok ex) l)"
  by (rule runs_post) (auto intro: emits_intros DesiredSecret_complete DesiredSecret_keeps split: option.split)

lemma runs_store_secret: "runs (store_secret r s ex) (\<lambda>_ l. list_all (secret_write_ok ex) l)"
  unfolding store_secret_def
  by (intro wp runs_mono [OF runs_DesiredSecret]) auto

section \<open>Reconciles that destroy nothing\<close>

text \<open>Statements and calls that remove data.\<close>

fun destructive :: "traced \<Rightarrow> bool" where
  "destructive (CSqlExec st _, _) = has_prefix st ''DROP''"
| "destructive (CDropDatabase _ _ _, _) = True"
| "destructive (CRemoveFile _, _) = True"
| "destructive (CDeleteSite _, _) = True"
| "destructive _ = False"

lemma secret_call_harmless: "secret_call c \<Longrightarrow> \<not> destructive c"
  by (cases c rule: secret_call.cases) auto

lemma emits_each_harmless: "emits (\<lambda>c. \<not> destructive c) (apply_each r s bs)"
  by (induction bs) (auto simp: apply_obj_def intro!: emits_intros)

lemma emits_reconcile_harmless:
  assumes "\<And>name user host pw. emits (\<lambda>c. \<not> destructive c) (d_ensure (r_db r) name user host pw)"
    and "\<not> r_dropDataOnDelete r"
  shows "emits (\<lambda>c. \<not> destructive c) (Reconcile r ns n)"
proof -
  have "emits (\<lambda>c. \<not> destructive c) (ensureDatabase r s pw)" for s pw
    unfolding ensureDatabase_def by (intro emits_intros assms(1)) simp
  moreover have "emits (\<lambda>c. \<not> destructive c) (reconcileDelete r s)" for s
    using assms(2) unfolding reconcileDelete_def by (auto intro!: emits_intros)
  ultimately show ?thesis
    unfolding Reconcile_def reconcileBody_def reconcileSuspended_def reconcileActive_def
      reconcileWorkload_def
    by (intro emits_intros emits_phase emits_each_harmless emits_mono [OF emits_ensureSecret])
      (simp_all add: secret_call_harmless)
qed

section \<open>The providers of the repository\<close>

interpretation mysql_rec: reconciles_with "mysql_provisioner q cfg"
  "\<lambda>name user. valid_ident name \<and> valid_ident user" for q cfg
  by unfold_locales

interpretation sqlite_rec: reconciles_with "sqlite_provisioner q p" "\<lambda>name user. lite_name name"
  for q p
  by unfold_locales

end
