(* ===== verification/Fixtures.thy ===== *)
theory Fixtures
imports Database Workloads
begin

text \<open>
  Concrete parameters for the witnesses: a small in-memory cluster, a driver that always
  succeeds, and a sample site. No theorem about the code rests on them; they only show that the
  hypotheses of the theorems can hold, and on which inputs.
\<close>

record mem =
  mm_sites :: "string \<times> string \<Rightarrow> site option"
  mm_secrets :: "string \<times> string \<Rightarrow> secret option"
  mm_clock :: int

definition meta_key :: "object_meta \<Rightarrow> string \<times> string" where
  "meta_key m = (m_namespace m, m_name m)"

definition not_found :: go_error where
  "not_found = KubeErr NotFound ''not found''"

definition mem_get :: "('k \<Rightarrow> 'v option) \<Rightarrow> 'k \<Rightarrow> 'v result" where
  "mem_get m key = (case m key of None \<Rightarrow> Inl not_found | Some v \<Rightarrow> Inr v)"

definition mem_kube :: "mem kube" where
  "mem_kube = \<lparr>
     k_getSite = (\<lambda>ns n e. (mem_get (mm_sites e) (ns, n), e)),
     k_listSites = (\<lambda>ns e. (Inr [], e)),
     k_createSite = (\<lambda>s e.
       if mm_sites e (meta_key (site_meta s)) = None
       then (Inr s, e\<lparr>mm_sites := (mm_sites e)(meta_key (site_meta s) \<mapsto> s)\<rparr>)
       else (Inl (KubeErr AlreadyExists ''already exists''), e)),
     k_updateSite = (\<lambda>s e. (Inr s, e\<lparr>mm_sites := (mm_sites e)(meta_key (site_meta s) \<mapsto> s)\<rparr>)),
     k_deleteSite = (\<lambda>s e. (Inr (), e\<lparr>mm_sites := (mm_sites e)(meta_key (site_meta s) := None)\<rparr>)),
     k_statusUpdate = (\<lambda>s e. (Inr s, e\<lparr>mm_sites := (mm_sites e)(meta_key (site_meta s) \<mapsto> s)\<rparr>)),
     k_getSecret = (\<lambda>ns n e. (mem_get (mm_secrets e) (ns, n), e)),
     k_createSecret = (\<lambda>s e. (Inr s, e\<lparr>mm_secrets := (mm_secrets e)(meta_key (sec_meta s) \<mapsto> s)\<rparr>)),
     k_updateSecret = (\<lambda>s e. (Inr s, e\<lparr>mm_secrets := (mm_secrets e)(meta_key (sec_meta s) \<mapsto> s)\<rparr>)),
     k_getOwned = (\<lambda>b e. (Inl not_found, e)),
     k_createOwned = (\<lambda>b e. (Inr (), e)),
     k_updateOwned = (\<lambda>b e. (Inr (), e)),
     k_patchOwned = (\<lambda>g b e. (Inr (), e)),
     k_listPods = (\<lambda>ns n e. (Inr [], e)),
     k_listEvents = (\<lambda>ns e. (Inr [], e)),
     k_listNodes = (\<lambda>e. (Inr [], e)),
     k_listNodeUsage = (\<lambda>e. (Inr [], e)),
     k_listPodUsage = (\<lambda>ns e. (Inr [], e)),
     k_now = (\<lambda>e. (At (mm_clock e), e\<lparr>mm_clock := mm_clock e + 1\<rparr>)),
     k_rand = (\<lambda>n e. (replicate n (CHR ''r''), e)),
     k_addFinalizer = (\<lambda>s f.
       if f \<in> set (m_finalizers (site_meta s)) then (s, False)
       else (s\<lparr>site_meta := (site_meta s)\<lparr>m_finalizers := m_finalizers (site_meta s) @ [f]\<rparr>\<rparr>, True)),
     k_removeFinalizer = (\<lambda>s f.
       s\<lparr>site_meta := (site_meta s)\<lparr>m_finalizers := removeAll f (m_finalizers (site_meta s))\<rparr>\<rparr>),
     k_containsFinalizer = (\<lambda>s f. f \<in> set (m_finalizers (site_meta s))),
     k_setControllerRef = (\<lambda>s m.
       Inr (m\<lparr>m_owners := [OwnerRef ''WordPressSite'' (site_name s) True]\<rparr>)),
     k_gvk = (\<lambda>b. Inr ''gvk''),
     k_milliValue = (\<lambda>q. 0),
     k_value = (\<lambda>q. 0)\<rparr>"

lemma mem_finalizer_laws: "finalizer_laws mem_kube"
  by (simp add: finalizer_laws_def mem_kube_def)

definition mem_drv :: "mem sqldrv" where
  "mem_drv = \<lparr>q_open = (\<lambda>d s e. (Inr (), e)), q_ping = (\<lambda>e. (Inr (), e)),
     q_exec = (\<lambda>s a e. (Inr (), e)), q_close = (\<lambda>e. ((), e)), q_remove = (\<lambda>f e. (Inr (), e)),
     q_isNotExist = (\<lambda>e. False), q_makeDir = (\<lambda>d e. (Inr (), e)), q_mapOrder = (\<lambda>e. (True, e)),
     q_quote = (\<lambda>s. s)\<rparr>"

definition mem_empty :: "mem state_of" where
  "mem_empty = \<lparr>env = \<lparr>mm_sites = Map.empty, mm_secrets = Map.empty, mm_clock = 0\<rparr>, trace = []\<rparr>"

definition sample_site :: site where
  "sample_site = new_site ''blog-acme'' ''wordpress-sites''
     (empty_spec\<lparr>sp_domain := ''blog.acme.example''\<rparr>)"

text \<open>A reader of MySQL string literals.\<close>

fun mysql_scan :: "string \<Rightarrow> (string \<times> string) option" where
  "mysql_scan [] = None"
| "mysql_scan (c # s) =
     (if c = CHR 0x5C then
        (case s of
           [] \<Rightarrow> None
         | d # r \<Rightarrow> map_option (map_prod (Cons
             (if d = CHR ''0'' then CHR 0x00 else if d = CHR ''n'' then CHR 0x0A
              else if d = CHR ''r'' then CHR 0x0D else d)) id) (mysql_scan r))
      else if c = CHR 0x27 then
        (case s of
           d # r \<Rightarrow> if d = CHR 0x27 then map_option (map_prod (Cons d) id) (mysql_scan r) else Some ([], s)
         | [] \<Rightarrow> Some ([], s))
      else map_option (map_prod (Cons c) id) (mysql_scan s))"

end
