(* ===== verification/ReconcileProps.thy ===== *)
theory ReconcileProps
imports ReconcileOutcome Fixtures
begin

text \<open>
  The properties of the controller, with the database providers of the repository: the MySQL
  provisioner of the operator and the SQLite provisioner of the dev API server.
\<close>

section \<open>Order\<close>

text \<open>
  Within a reconcile of an active site, no Deployment, Service, Ingress or ConfigMap is
  created, updated or patched before \<open>EnsureDatabase\<close> has succeeded, whatever the cluster and the
  MySQL server answer.
\<close>

theorem workload_after_database:
  "precedes ensured workload_write
     (emitted (reconcileActive (r\<lparr>r_db := mysql_provisioner q cfg\<rparr>) s) w)"
  using runsD [OF mysql_rec.runs_active] unfolding active_calls_def by blast

text \<open>
  C1. The phase \<open>Ready\<close> is honest: in every reconcile it is sent to the API server only after the
  database has been provisioned and the Ingress written; the Ingress is written only after the
  Service, the Service after the Deployment, the Deployment after the ConfigMap; and no phase but
  \<open>Provisioning\<close>, \<open>Ready\<close>, \<open>Suspended\<close> and \<open>Error\<close> is ever sent.
\<close>

theorem ready_is_honest:
  "honest (emitted (Reconcile (r\<lparr>r_db := mysql_provisioner q cfg\<rparr>) ns n) w) \<and>
   list_all known_phase (emitted (Reconcile (r\<lparr>r_db := mysql_provisioner q cfg\<rparr>) ns n) w)"
  by (rule runsD [OF mysql_rec.runs_Reconcile])

text \<open>
  C28. With \<open>DropDataOnDelete\<close>, a deletion updates the site (to remove the finalizer) only after
  \<open>DropDatabase\<close> has succeeded: a site never disappears while its database remains.
\<close>

theorem finalizer_after_drop:
  "precedes dropped site_update
     (emitted (reconcileDelete (r\<lparr>r_db := mysql_provisioner q cfg, r_dropDataOnDelete := True\<rparr>) s) w)"
  by (rule runsD [OF mysql_rec.runs_delete_dropping])

section \<open>Outcome\<close>

text \<open>
  C12. How a reconcile of an active site ends: it is requeued after 15 seconds, without error,
  exactly when \<open>EnsureDatabase\<close> failed; it ends with neither error nor requeue exactly when the
  API server accepted a status with phase \<open>Ready\<close>; and it sends exactly one status.
\<close>

theorem active_reconcile_outcome:
  "active_outcome
     (fst (run_state (reconcileActive (r\<lparr>r_db := mysql_provisioner q cfg\<rparr>) s) w))
     (emitted (reconcileActive (r\<lparr>r_db := mysql_provisioner q cfg\<rparr>) s) w)"
  by (rule runsD [OF mysql_rec.runs_active_outcome])

text \<open>
  C30. Every owned object a reconcile creates or patches is exactly the ConfigMap, Deployment, Service
  or Ingress the builders derive from the site, with the controller reference set; an update sends the
  same object with another resource version. What \<open>apply\<close> sends, and in which mode and after which
  answer, is given in full: in the create-or-update mode a \<open>Get\<close> first, then a create after
  \<open>NotFound\<close>, an update with the resource version of the object found, nothing after another error.
\<close>

theorem writes_are_desired:
  "list_all
     (writes_desired (r\<lparr>r_db := mysql_provisioner q cfg\<rparr>) s
        (desired_objects (r\<lparr>r_db := mysql_provisioner q cfg\<rparr>) s))
     (emitted (reconcileBody (r\<lparr>r_db := mysql_provisioner q cfg\<rparr>) s) w) \<and>
   map fst (emitted (apply_obj r s d) w) =
     (case k_setControllerRef (r_kube r) s (owned_meta d) of
        Inl _ \<Rightarrow> []
      | Inr m \<Rightarrow>
          if r_noServerSideApply r then CGetOwned (with_meta m d) #
            (case fst (k_getOwned (r_kube r) (with_meta m d) (env w)) of
               Inl x \<Rightarrow> if is_not_found x then [CCreateOwned (with_meta m d)] else []
             | Inr f \<Rightarrow> [CUpdateOwned (with_meta (m\<lparr>m_resourceVersion := m_resourceVersion (owned_meta f)\<rparr>) d)])
          else case k_gvk (r_kube r) (with_meta m d) of
            Inl _ \<Rightarrow> []
          | Inr g \<Rightarrow> [CPatchOwned g (with_meta m d)])"
  using emitsD [OF mysql_rec.emits_body_desired] apply_calls [of r s d w] unfolding apply_calls_def by blast

section \<open>Data that must not be lost\<close>

lemma mysql_ensure_harmless: "emits (\<lambda>c. \<not> destructive c) (EnsureDatabase q cfg name user host pw)"
  unfolding EnsureDatabase_def mysql_open_def
  by (intro emits_exec_labelled_in emits_return emits_bind emits_if emits_sum emits_driver)
    (auto simp: ensure_stmts_def create_user_stmt_def alter_user_stmt_def grant_stmt_def has_prefix_def)

text \<open>
  With \<open>DropDataOnDelete\<close> off (the default), no reconcile ever sends a DROP statement, calls
  \<open>DropDatabase\<close> or deletes a site, in any state of the cluster.
\<close>

theorem no_drop_by_default:
  "list_all (\<lambda>c. \<not> destructive c)
     (emitted (Reconcile (r\<lparr>r_db := mysql_provisioner q cfg, r_dropDataOnDelete := False\<rparr>) ns n) w)"
proof -
  have "emits (\<lambda>c. \<not> destructive c)
      (Reconcile (r\<lparr>r_db := mysql_provisioner q cfg, r_dropDataOnDelete := False\<rparr>) ns n)"
    by (rule emits_reconcile_harmless) (simp_all add: mysql_provisioner_def mysql_ensure_harmless)
  from emitsD [OF this] show ?thesis by blast
qed

text \<open>
  C19. What \<open>ensureSecret\<close> sends: a Secret is created only when \<open>Get\<close> answered \<open>NotFound\<close>, and
  nothing is written after any other error; a Secret that was found is updated only when a key had to
  be filled, with the resource version that was read; and what is sent holds the password and all
  eight salts and keeps every value that was not empty.
\<close>

theorem secret_writes:
  "list_all
     (secret_write_after (fst (run_state (getSecret (r_kube r) (site_ns s) (SecretName s)) w)))
     (emitted (ensureSecret r s) w)"
proof -
  let ?rest = "\<lambda>x. case x of Inl e \<Rightarrow> if is_not_found e then store_secret r s None else ret (Inl e)
        | Inr z \<Rightarrow> store_secret r s (Some z)"
  obtain x w1 where g: "run_state (getSecret (r_kube r) (site_ns s) (SecretName s)) w = (x, w1)"
    by fastforce
  have get: "emits (secret_write_after y) (getSecret (r_kube r) (site_ns s) (SecretName s))" for y
    by (intro emits_intros) (simp add: secret_write_after_def split: sum.split)
  have store: "emits (secret_write_ok ex) (store_secret r s ex)" for ex
    using runs_store_secret by (rule emits_runs)
  have any: "emits (\<lambda>_. True) (?rest y)" for y
    by (intro emits_intros; rule emits_mono [OF store]; simp)
  have rest: "emitted (ensureSecret r s) w =
      emitted (getSecret (r_kube r) (site_ns s) (SecretName s)) w @ emitted (?rest x) w1"
    using emitted_bind [OF get any] g by (simp add: ensureSecret_def)
  have "emits (secret_write_after x) (?rest x)"
    by (cases x) (auto simp: secret_write_after_def intro: emits_intros emits_mono [OF store])
  with emitsD [OF get, of w] rest g show ?thesis
    by (auto dest: emitsD)
qed

text \<open>
  Converged: when the Secret that is found is complete, \<open>ensureSecret\<close> returns it after that
  one read; nothing is written and no randomness is drawn.
\<close>

theorem ensureSecret_quiet:
  assumes "k_getSecret (r_kube r) (site_ns s) (SecretName s) (env w) = (Inr x, e)"
    and "secret_complete (sec_data x)"
    and "k_setControllerRef (r_kube r) s (new_meta (SecretName s) (site_ns s) (Labels s)) = Inr m"
  shows "run_state (ensureSecret r s) w =
    (Inr x, w\<lparr>env := e, trace := trace w @ [(CGetSecret (site_ns s) (SecretName s), None)]\<rparr>)"
  using assms
  by (simp add: ensureSecret_def store_secret_def run_simps DesiredSecret_of_complete)

definition stored_secret :: secret where
  "stored_secret = \<lparr>sec_meta = new_meta ''blog-acme-wp'' ''wordpress-sites'' Map.empty,
     sec_type = ''Opaque'',
     sec_data = fmap_of_list (map (\<lambda>key. (key, ''value'')) (SecretKeyDBPassword # saltKeys))\<rparr>"

definition mem_with_secret :: "mem state_of" where
  "mem_with_secret = mem_empty\<lparr>env := (env mem_empty)
     \<lparr>mm_secrets := [(''wordpress-sites'', ''blog-acme-wp'') \<mapsto> stored_secret]\<rparr>\<rparr>"

definition mem_reconciler :: "mem reconciler" where
  "mem_reconciler = \<lparr>r_kube = mem_kube,
     r_db = mysql_provisioner mem_drv
       \<lparr>my_host = ''mysql'', my_port = ''3306'', my_user = ''root'', my_password = ''pw''\<rparr>,
     r_globals = default_globals, r_dbHost = ''mysql'', r_dbPort = ''3306'',
     r_dropDataOnDelete = False, r_noServerSideApply = False\<rparr>"

lemma stored_secret_complete: "secret_complete (sec_data stored_secret)"
  by code_simp

theorem ensureSecret_quiet_witness:
  "run_state (ensureSecret mem_reconciler sample_site) mem_with_secret =
    (Inr stored_secret, mem_with_secret\<lparr>trace :=
       [(CGetSecret ''wordpress-sites'' ''blog-acme-wp'', None)]\<rparr>)"
proof -
  have get: "k_getSecret (r_kube mem_reconciler) (site_ns sample_site) (SecretName sample_site)
      (env mem_with_secret) = (Inr stored_secret, env mem_with_secret)"
    by (simp add: mem_reconciler_def mem_kube_def mem_get_def mem_with_secret_def mem_empty_def
        sample_site_def new_site_def new_meta_def SecretName_def)
  have ref: "\<exists>m. k_setControllerRef (r_kube mem_reconciler) sample_site
      (new_meta (SecretName sample_site) (site_ns sample_site) (Labels sample_site)) = Inr m"
    by (simp add: mem_reconciler_def mem_kube_def)
  from ref ensureSecret_quiet [OF get stored_secret_complete] show ?thesis
    by (auto simp: sample_site_def new_site_def new_meta_def SecretName_def mem_with_secret_def mem_empty_def)
qed

section \<open>Deletions that never finish\<close>

text \<open>
  C38. A site whose database name or user (both can be overridden in the spec) is not a valid MySQL
  identifier can never be deleted under \<open>DropDataOnDelete\<close>: from every state the reconcile only
  asks to be retried in 15 seconds, touches neither MySQL nor the cluster and keeps the finalizer.
\<close>

theorem invalid_override_never_deleted:
  assumes "\<not> (valid_ident (DatabaseName s) \<and> valid_ident (DatabaseUser s))"
    and "k_containsFinalizer (r_kube r) s Finalizer"
  shows "\<exists>e. run_state
      (reconcileDelete (r\<lparr>r_db := mysql_provisioner q cfg, r_dropDataOnDelete := True\<rparr>) s) w =
    (retry_after 15, w\<lparr>trace := trace w @
       [(CDropDatabase (DatabaseName s) (DatabaseUser s) (DatabaseHost s), Some e)]\<rparr>)"
  using assms by (rule mysql_rec.delete_stuck)

definition hyphen_site :: site where
  "hyphen_site = sample_site\<lparr>
     site_meta := (site_meta sample_site)\<lparr>m_finalizers := [Finalizer]\<rparr>,
     site_spec := (site_spec sample_site)\<lparr>sp_database :=
       \<lparr>db_name = ''wp-blog'', db_user = [], db_host = []\<rparr>\<rparr>\<rparr>"

theorem invalid_override_never_deleted_witness:
  "\<exists>e. run_state
      (reconcileDelete (mem_reconciler\<lparr>r_db := mysql_provisioner mem_drv
         \<lparr>my_host = [], my_port = [], my_user = [], my_password = []\<rparr>, r_dropDataOnDelete := True\<rparr>)
         hyphen_site) mem_empty =
    (retry_after 15, mem_empty\<lparr>trace := trace mem_empty @
       [(CDropDatabase (DatabaseName hyphen_site) (DatabaseUser hyphen_site)
           (DatabaseHost hyphen_site), Some e)]\<rparr>)"
proof (rule invalid_override_never_deleted)
  show "\<not> (valid_ident (DatabaseName hyphen_site) \<and> valid_ident (DatabaseUser hyphen_site))"
    by code_simp
  show "k_containsFinalizer (r_kube mem_reconciler) hyphen_site Finalizer"
    by (simp add: mem_reconciler_def mem_kube_def hyphen_site_def)
qed

section \<open>Status\<close>

text \<open>
  A reconcile that finds its own \<open>Ready\<close> status writes the same status again, whatever the
  clock says: the transition time, too, is kept, so the status does not churn.
\<close>

theorem ready_status_is_fixpoint:
  "let done = s\<lparr>site_status := phase_status PhaseReady msg (m_generation (site_meta s)) t
      (site_status (s\<lparr>site_status := observed_status s\<rparr>))\<rparr>
   in phase_status PhaseReady msg (m_generation (site_meta s)) t' (observed_status done)
      = site_status done"
  by (simp add: Let_def phase_status_def observed_status_def name_simps setCondition_again
      ready_condition_def site_status.equality)

text \<open>
  \<open>setCondition\<close> stores the condition under its type, keeps the old transition time unless the
  status changed, leaves every other type alone, keeps the order, and never duplicates a type.
\<close>

theorem setCondition_spec:
  "find_condition (c_type c) (setCondition cs c) =
     Some (case find_condition (c_type c) cs of
        None \<Rightarrow> c
      | Some x \<Rightarrow> if c_status x = c_status c then c\<lparr>c_lastTransition := c_lastTransition x\<rparr> else c) \<and>
   filter (\<lambda>x. c_type x \<noteq> c_type c) (setCondition cs c) = filter (\<lambda>x. c_type x \<noteq> c_type c) cs \<and>
   map c_type (setCondition cs c) =
     (if c_type c \<in> set (map c_type cs) then map c_type cs else map c_type cs @ [c_type c])"
proof (intro conjI)
  show "filter (\<lambda>x. c_type x \<noteq> c_type c) (setCondition cs c) = filter (\<lambda>x. c_type x \<noteq> c_type c) cs"
    by (induction cs) auto
qed (simp_all only: setCondition_find setCondition_types not_True_eq_False simp_thms if_False if_True)

text \<open>
  A suspended site is still reconciled: its ConfigMap, Deployment, Service and Ingress are
  written, every Deployment with zero replicas; the database and the Secret are left alone.
\<close>

theorem suspended_scales_to_zero:
  "list_all
     (\<lambda>c. (workload_call c \<or> phase_update PhaseSuspended c \<or> fst c = CNow) \<and>
       (case written_object (fst c) of Some (OwnedDeployment d) \<Rightarrow> dep_replicas d = 0 | _ \<Rightarrow> True))
     (emitted (reconcileBody r (s\<lparr>site_spec := (site_spec s)\<lparr>sp_suspend := True\<rparr>\<rparr>)) w)"
proof -
  let ?s = "s\<lparr>site_spec := (site_spec s)\<lparr>sp_suspend := True\<rparr>\<rparr>"
  let ?ok = "\<lambda>c. (workload_call c \<or> phase_update PhaseSuspended c \<or> fst c = CNow) \<and>
       (case written_object (fst c) of Some (OwnedDeployment d) \<Rightarrow> dep_replicas d = 0 | _ \<Rightarrow> True)"
  have "emits ?ok (apply_obj r ?s b)" if "b \<in> set (desired_objects r ?s)" for b
    using that unfolding apply_obj_def
    by (intro emits_intros)
      (auto simp: desired_objects_def DesiredDeployment_def dep_replica_count_def)
  then have "emits ?ok (apply_each r ?s bs)" if "set bs \<subseteq> set (desired_objects r ?s)" for bs
    using that by (induction bs) (auto intro!: emits_intros)
  then have "emits ?ok (reconcileBody r ?s)"
    unfolding reconcileBody_def reconcileSuspended_def reconcileWorkload_def setPhase_def
    by (auto intro!: emits_intros simp: phase_status_def)
  from emitsD [OF this] show ?thesis by blast
qed

end
