(* ===== verification/ProvisionerProps.thy ===== *)
theory ProvisionerProps
imports Mysql Sqlite Workloads Fixtures
begin

text \<open>
  The properties of the naming scheme and of the two database provisioners: which names are
  generated and where they are unique, what the SQL statements say when they are read back, which
  calls an operation makes, and where a SQLite file lands.
\<close>

section \<open>Names\<close>

text \<open>
  Every generated name is accepted: without an override, whatever the site is called, the
  database name and the user are valid identifiers of at most 64 and 32 bytes.
\<close>

theorem generated_names_accepted:
  assumes "no_override s"
  shows "valid_ident (DatabaseName s) \<and> valid_ident (DatabaseUser s) \<and>
    length (DatabaseName s) \<le> 64 \<and> length (DatabaseUser s) \<le> 32"
  using assms no_override_idents [OF assms] length_truncate [of _ 64] length_truncate [of _ 32]
  by (simp add: no_override_def DatabaseName_def DatabaseUser_def)

theorem generated_names_accepted_witness:
  "valid_ident (DatabaseName sample_site) \<and> valid_ident (DatabaseUser sample_site) \<and>
    length (DatabaseName sample_site) \<le> 64 \<and> length (DatabaseUser sample_site) \<le> 32"
  by (rule generated_names_accepted)
    (simp add: no_override_def sample_site_def new_site_def empty_spec_def)

lemma generated_name_inj:
  assumes "dns_label m" "dns_label n" "length m + length p \<le> k" "length n + length p \<le> k"
    and "truncate_str (p @ sanitize m) k = truncate_str (p @ sanitize n) k"
  shows "m = n"
  using assms by (auto simp: truncate_str_def length_sanitize_label intro: sanitize_label_inj)

text \<open>
  C20. Isolation: two sites whose names are different DNS labels of at most 28 characters, without
  overrides, have different databases, users, Secrets, volume folders and PHP ConfigMaps.
\<close>

theorem sites_isolated:
  assumes "no_override s" "no_override t"
    and "dns_label (site_name s)" "dns_label (site_name t)"
    and "length (site_name s) \<le> 28" "length (site_name t) \<le> 28"
    and "site_name s \<noteq> site_name t"
  shows "DatabaseName s \<noteq> DatabaseName t \<and> DatabaseUser s \<noteq> DatabaseUser t \<and>
    SecretName s \<noteq> SecretName t \<and> SubPath s \<noteq> SubPath t \<and> PHPConfigMapName s \<noteq> PHPConfigMapName t"
  using assms generated_name_inj [of "site_name s" "site_name t" "''wp_''" 64]
    generated_name_inj [of "site_name s" "site_name t" "''wpu_''" 32]
  by (auto simp: no_override_def DatabaseName_def DatabaseUser_def SecretName_def SubPath_def
      PHPConfigMapName_def)

definition shop_site :: site where
  "shop_site = new_site ''shop-acme'' ''wordpress-sites'' (empty_spec\<lparr>sp_domain := ''shop.acme.example''\<rparr>)"

theorem sites_isolated_witness:
  "DatabaseName sample_site \<noteq> DatabaseName shop_site \<and> DatabaseUser sample_site \<noteq> DatabaseUser shop_site \<and>
    SecretName sample_site \<noteq> SecretName shop_site \<and> SubPath sample_site \<noteq> SubPath shop_site \<and>
    PHPConfigMapName sample_site \<noteq> PHPConfigMapName shop_site"
  by (rule sites_isolated)
    (simp_all add: no_override_def sample_site_def shop_site_def new_site_def new_meta_def
      empty_spec_def dns_label_def label_char_def byte_of_def)

text \<open>What \<open>sanitize\<close> does to a name of ASCII characters without capitals.\<close>

definition simple_char :: "char \<Rightarrow> bool" where
  "simple_char c \<longleftrightarrow> byte_of c < 0x80 \<and> \<not> (0x41 \<le> byte_of c \<and> byte_of c \<le> 0x5A)"

lemma sanitize_simple:
  assumes "list_all simple_char n"
  shows "sanitize n = trim_char (CHR ''_'') (map (\<lambda>c. if slug_char c then c else CHR ''_'') n)"
proof -
  have "sanitize_rune (byte_of c) = (if slug_char c then c else CHR ''_'')" if "simple_char c" for c
    using that by (auto simp: simple_char_def sanitize_rune_def slug_char_def lower_rune_def)
  moreover have "runes n = bytes n"
    using assms by (intro runes_ascii) (auto simp: simple_char_def list_all_iff)
  ultimately show ?thesis
    using assms by (simp add: sanitize_def bytes_def list_all_iff comp_def cong: map_cong)
qed

lemmas sanitize_eval = sanitize_simple simple_char_def slug_char_def slug_rune_def byte_of_def trim_char_def

text \<open>When two names get the same user, and when the same database as well.\<close>

definition same_label_start :: "string \<Rightarrow> string \<Rightarrow> bool" where
  "same_label_start m n \<longleftrightarrow> dns_label m \<and> dns_label n \<and> take 28 m = take 28 n"

definition same_up_to_dots :: "string \<Rightarrow> string \<Rightarrow> bool" where
  "same_up_to_dots m n \<longleftrightarrow> list_all simple_char m \<and> list_all simple_char n \<and>
     map (\<lambda>c. if c = CHR ''.'' then CHR ''-'' else c) m = map (\<lambda>c. if c = CHR ''.'' then CHR ''-'' else c) n"

lemma truncate_take: "truncate_str s n = take n s"
  by (simp add: truncate_str_def)

lemma sanitize_up_to_dots:
  assumes "same_up_to_dots m n"
  shows "sanitize m = sanitize n"
proof -
  let ?dot = "\<lambda>c. if c = CHR ''.'' then CHR ''-'' else c" and ?slug = "\<lambda>c. if slug_char c then c else CHR ''_''"
  have "\<not> slug_char CHR ''.''" "\<not> slug_char CHR ''-''"
    by (simp_all add: slug_char_def slug_rune_def byte_of_def)
  then have "?slug (?dot c) = ?slug c" for c
    by (cases "c = CHR ''.''") simp_all
  then have eq: "map ?slug (map ?dot s) = map ?slug s" for s
    by (simp only: list.map_comp comp_def)
  have "map ?dot m = map ?dot n"
    using assms unfolding same_up_to_dots_def by (elim conjE)
  then have "map ?slug (map ?dot m) = map ?slug (map ?dot n)"
    by (rule arg_cong)
  then have "map ?slug m = map ?slug n"
    unfolding eq .
  then show ?thesis
    using assms by (simp add: same_up_to_dots_def sanitize_simple)
qed

lemma shared_user:
  assumes "no_override s" "no_override t"
  shows "same_label_start (site_name s) (site_name t) \<Longrightarrow> DatabaseUser s = DatabaseUser t"
    and "same_up_to_dots (site_name s) (site_name t) \<Longrightarrow>
      DatabaseUser s = DatabaseUser t \<and> DatabaseName s = DatabaseName t"
proof -
  assume l: "same_label_start (site_name s) (site_name t)"
  then have "take 28 (sanitize (site_name s)) = take 28 (sanitize (site_name t))"
    by (simp add: same_label_start_def sanitize_label take_map)
  then show "DatabaseUser s = DatabaseUser t"
    using assms by (simp add: no_override_def DatabaseUser_def truncate_take)
next
  assume "same_up_to_dots (site_name s) (site_name t)"
  then show "DatabaseUser s = DatabaseUser t \<and> DatabaseName s = DatabaseName t"
    using assms sanitize_up_to_dots by (simp add: no_override_def DatabaseUser_def DatabaseName_def)
qed

section \<open>SQL statements read back\<close>

text \<open>How a reader of string literals takes an account and a password apart.\<close>

definition reads_account :: "(string \<Rightarrow> (string \<times> string) option) \<Rightarrow> string \<Rightarrow> string \<Rightarrow> string \<Rightarrow> string \<Rightarrow> bool" where
  "reads_account scan text user host rest \<longleftrightarrow>
     (case scan (drop 1 text) of
        None \<Rightarrow> False
      | Some (u, r) \<Rightarrow> take 1 text = squote \<and> u = user \<and> take 2 r = ''@'' @ squote \<and>
          scan (drop 2 r) = Some (host, rest))"

definition reads_password :: "(string \<Rightarrow> (string \<times> string) option) \<Rightarrow> string \<Rightarrow> string \<Rightarrow> bool" where
  "reads_password scan text pw \<longleftrightarrow> take 16 text = '' IDENTIFIED BY '' @ squote \<and> scan (drop 16 text) = Some (pw, [])"

lemma account_reads:
  assumes "reads_literals scan" "list_all plain_char user" "list_all plain_char host" "not_quoted rest"
  shows "reads_account scan (account user host @ rest) user host rest"
proof -
  have stmt: "account user host @ rest = squote @ user @ squote @ ''@'' @ squote @ host @ squote @ rest"
    by (simp add: account_def quoted_def)
  have "scan (user @ squote @ ''@'' @ squote @ host @ squote @ rest) = Some (user, ''@'' @ squote @ host @ squote @ rest)"
    using assms(1,2) by (rule scan_plain) (simp add: not_quoted_def)
  moreover have "scan (host @ squote @ rest) = Some (host, rest)"
    using assms(1,3,4) by (rule scan_plain)
  ultimately show ?thesis
    by (simp add: reads_account_def stmt squote_def)
qed

lemma password_reads:
  "reads_literals scan \<Longrightarrow> reads_password scan ('' IDENTIFIED BY '' @ quoted (escapeString pw)) pw"
  using scan_escaped [of scan "[]" pw] by (simp add: reads_password_def quoted_def squote_def not_quoted_def)

text \<open>
  C23. No password can break out of its literal: for every user name that was accepted, every host
  without quote, backslash or control byte and every password, the CREATE USER and ALTER USER
  statements are read back as exactly that user, host and password.
\<close>

theorem password_statements_read_back:
  assumes "reads_literals scan" and "valid_ident user" and "list_all plain_char host"
  shows "\<exists>tail. create_user_stmt user host pw = ''CREATE USER IF NOT EXISTS '' @ account user host @ tail \<and>
    alter_user_stmt user host pw = ''ALTER USER '' @ account user host @ tail \<and>
    reads_account scan (account user host @ tail) user host tail \<and> reads_password scan tail pw"
proof -
  have "list_all plain_char user"
    using assms(2) ident_char_plain by (auto simp: valid_ident_def elim!: list_all_imp)
  then have "reads_account scan (account user host @ '' IDENTIFIED BY '' @ quoted (escapeString pw)) user host
      ('' IDENTIFIED BY '' @ quoted (escapeString pw))"
    using assms(1,3) by (intro account_reads) (simp_all add: not_quoted_def)
  with password_reads [OF assms(1)] show ?thesis
    by (intro exI [of _ "'' IDENTIFIED BY '' @ quoted (escapeString pw)"])
      (simp add: create_user_stmt_def alter_user_stmt_def)
qed

lemma mysql_scan_reads: "reads_literals mysql_scan"
  unfolding reads_literals_def by (auto split: list.splits)

theorem password_statements_read_back_witness:
  "\<exists>tail. create_user_stmt ''wpu_blog'' ''%'' [CHR 0x27, CHR 0x5C] =
      ''CREATE USER IF NOT EXISTS '' @ account ''wpu_blog'' ''%'' @ tail \<and>
    alter_user_stmt ''wpu_blog'' ''%'' [CHR 0x27, CHR 0x5C] = ''ALTER USER '' @ account ''wpu_blog'' ''%'' @ tail \<and>
    reads_account mysql_scan (account ''wpu_blog'' ''%'' @ tail) ''wpu_blog'' ''%'' tail \<and>
    reads_password mysql_scan tail [CHR 0x27, CHR 0x5C]"
proof (rule password_statements_read_back)
  show "reads_literals mysql_scan" by (rule mysql_scan_reads)
  show "valid_ident ''wpu_blog''" by code_simp
  show "list_all plain_char ''%''" by code_simp
qed

text \<open>
  C39. The host is not escaped: a host of the spec that holds a quote ends its literal there, and
  the text after it is read as SQL.
\<close>

theorem host_breaks_out:
  assumes "reads_literals scan" and "valid_ident user" and "list_all plain_char h" and "not_quoted sql"
    and "sql \<noteq> []"
  shows "reads_account scan (account user (h @ squote @ sql) @ rest) user h (sql @ squote @ rest)"
proof -
  have stmt: "account user (h @ squote @ sql) @ rest = account user h @ (sql @ squote @ rest)"
    by (simp add: account_def quoted_def)
  have "list_all plain_char user"
    using assms(2) ident_char_plain by (auto simp: valid_ident_def elim!: list_all_imp)
  moreover have "not_quoted (sql @ squote @ rest)"
    using assms(4,5) by (cases sql) (auto simp: not_quoted_def)
  ultimately show ?thesis
    unfolding stmt using assms(1,3) by (intro account_reads)
qed

theorem host_breaks_out_witness:
  "reads_account mysql_scan
     (account ''wpu_blog'' (''%'' @ squote @ '', '' @ squote @ ''root'' @ squote @ ''@'' @ squote @ ''localhost''))
     ''wpu_blog'' ''%'' ('', '' @ squote @ ''root'' @ squote @ ''@'' @ squote @ ''localhost'' @ squote)"
proof -
  have "reads_account mysql_scan
     (account ''wpu_blog'' (''%'' @ squote @ ('', '' @ squote @ ''root'' @ squote @ ''@'' @ squote @ ''localhost'')) @ [])
     ''wpu_blog'' ''%'' (('', '' @ squote @ ''root'' @ squote @ ''@'' @ squote @ ''localhost'') @ squote @ [])"
  proof (rule host_breaks_out)
    show "reads_literals mysql_scan" by (rule mysql_scan_reads)
    show "valid_ident ''wpu_blog''" by code_simp
    show "list_all plain_char ''%''" by code_simp
    show "not_quoted ('', '' @ squote @ ''root'' @ squote @ ''@'' @ squote @ ''localhost'')" by code_simp
    show "'', '' @ squote @ ''root'' @ squote @ ''@'' @ squote @ ''localhost'' \<noteq> []" by simp
  qed
  then show ?thesis by simp
qed

section \<open>Which calls an operation makes\<close>

definition exec_ok :: "string \<Rightarrow> traced" where
  "exec_ok st = (CSqlExec st [], None)"

lemma runs_exec_labelled:
  "runs (exec_labelled q sts) (\<lambda>r l. (r = Inr () \<longleftrightarrow> l = map (exec_ok \<circ> fst) sts) \<and>
     (\<forall>e. r = Inl e \<longrightarrow> (\<exists>(st, label) \<in> set sts. \<exists>d. (CSqlExec st [], Some d) \<in> set l \<and>
        e = GoErr (''mysql '' @ label @ '': '' @ error_text d))))"
proof (induction sts)
  case Nil
  then show ?case by (auto intro: wp)
next
  case (Cons x sts)
  obtain st label where x: "x = (st, label)" by fastforce
  show ?case
    unfolding x exec_labelled.simps
    by (intro wp runs_mono [OF Cons.IH]) (auto simp: exec_ok_def split: prod.splits)
qed

lemma runs_exec_plain:
  "runs (exec_plain q sts) (\<lambda>r l. (r = Inr () \<longleftrightarrow> l = map exec_ok sts))"
proof (induction sts)
  case Nil
  then show ?case by (auto intro: wp)
next
  case (Cons st sts)
  show ?case
    unfolding exec_plain.simps
    by (intro wp runs_mono [OF Cons.IH]) (auto simp: exec_ok_def)
qed

text \<open>
  A session: the handle is opened and pinged, the statements all succeed, the handle is closed.
  \<open>session_ok\<close> says that a call succeeded exactly when it made a whole session, that it made no call
  at all for a refused name, and that it closed every handle it pinged.
\<close>

definition whole_session :: "mysql_config \<Rightarrow> string list \<Rightarrow> traced list" where
  "whole_session cfg sts =
     [(CSqlOpen ''mysql'' (DSN cfg), None), (CSqlPing, None)] @ map exec_ok sts @ [(CSqlClose, None)]"

definition session_ok :: "mysql_config \<Rightarrow> string list \<Rightarrow> bool \<Rightarrow> unit result \<Rightarrow> traced list \<Rightarrow> bool" where
  "session_ok cfg sts valid r l \<longleftrightarrow>
     (r = Inr () \<longleftrightarrow> valid \<and> l = whole_session cfg sts) \<and>
     (\<not> valid \<longrightarrow> l = []) \<and>
     (list_ex (\<lambda>c. fst c = CSqlPing) l \<longrightarrow> fst (last l) = CSqlClose)"

lemma runs_mysql_open:
  "runs (mysql_open q cfg) (\<lambda>r l.
     (r = Inr () \<longleftrightarrow> l = [(CSqlOpen ''mysql'' (DSN cfg), None), (CSqlPing, None)]) \<and>
     (\<forall>e. r = Inl e \<longrightarrow> list_ex (\<lambda>c. snd c \<noteq> None) l \<and>
        (list_ex (\<lambda>c. fst c = CSqlPing) l \<longrightarrow> fst (last l) = CSqlClose)))"
  unfolding mysql_open_def by (intro wp) auto

lemma whole_session_clean: "list_all (\<lambda>c. snd c = None) (whole_session cfg sts)"
  by (auto simp: whole_session_def exec_ok_def list_all_iff)

lemma failed_call_no_session:
  "list_ex (\<lambda>c. snd c \<noteq> None) l \<Longrightarrow> l \<noteq> whole_session cfg sts"
  using whole_session_clean [of cfg sts] by (auto simp: list_all_iff list_ex_iff)

lemma exec_all_ok [simp]:
  "\<not> list_ex (\<lambda>c. \<exists>y. snd c = Some y) (map exec_ok sts)"
  "\<not> list_ex (\<lambda>c. \<exists>y. snd c = Some y) (map (exec_ok \<circ> f) xs)"
  by (auto simp: list_ex_iff exec_ok_def)

text \<open>
  C17. \<open>EnsureDatabase\<close> succeeds exactly when both identifiers are valid and MySQL accepted, after the
  connection and in this order, CREATE DATABASE of the name, CREATE USER and ALTER USER of the account
  with the escaped password, GRANT of all privileges on the database to the account, and FLUSH
  PRIVILEGES, and the handle was closed; a refused name reaches no server, and a handle that was pinged
  is always closed.
\<close>

theorem ensure_database_session:
  "session_ok cfg
     [''CREATE DATABASE IF NOT EXISTS `'' @ name @ ''` CHARACTER SET utf8mb4 COLLATE utf8mb4_unicode_ci'',
      ''CREATE USER IF NOT EXISTS '' @ account user host @ '' IDENTIFIED BY '' @ quoted (escapeString pw),
      ''ALTER USER '' @ account user host @ '' IDENTIFIED BY '' @ quoted (escapeString pw),
      ''GRANT ALL PRIVILEGES ON `'' @ name @ ''`.* TO '' @ account user host,
      ''FLUSH PRIVILEGES'']
     (valid_ident name \<and> valid_ident user)
     (fst (run_state (EnsureDatabase q cfg name user host pw) w))
     (emitted (EnsureDatabase q cfg name user host pw) w)"
proof -
  let ?sts = "map fst (ensure_stmts name user host pw)"
  have sts: "?sts =
     [''CREATE DATABASE IF NOT EXISTS `'' @ name @ ''` CHARACTER SET utf8mb4 COLLATE utf8mb4_unicode_ci'',
      ''CREATE USER IF NOT EXISTS '' @ account user host @ '' IDENTIFIED BY '' @ quoted (escapeString pw),
      ''ALTER USER '' @ account user host @ '' IDENTIFIED BY '' @ quoted (escapeString pw),
      ''GRANT ALL PRIVILEGES ON `'' @ name @ ''`.* TO '' @ account user host,
      ''FLUSH PRIVILEGES'']"
    by (simp add: ensure_stmts_def create_user_stmt_def alter_user_stmt_def grant_stmt_def)
  have "runs (EnsureDatabase q cfg name user host pw)
     (session_ok cfg (map fst (ensure_stmts name user host pw)) (valid_ident name \<and> valid_ident user))"
    unfolding EnsureDatabase_def
    by (cases name rule: validateIdent_cases [where q = q]; cases user rule: validateIdent_cases [where q = q]; 
       simp; intro wp runs_mono [OF runs_mysql_open] runs_mono [OF runs_exec_labelled])
      (auto simp: session_ok_def failed_call_no_session whole_session_def)
  from runsD [OF this] show ?thesis unfolding sts .
qed

text \<open>
  \<open>DropDatabase\<close> likewise: DROP DATABASE, DROP USER, FLUSH PRIVILEGES, in this order.
\<close>

theorem drop_database_session:
  "session_ok cfg (drop_stmts name user host) (valid_ident name \<and> valid_ident user)
     (fst (run_state (DropDatabase q cfg name user host) w))
     (emitted (DropDatabase q cfg name user host) w)"
proof -
  have "runs (DropDatabase q cfg name user host)
     (session_ok cfg (drop_stmts name user host) (valid_ident name \<and> valid_ident user))"
    unfolding DropDatabase_def
    by (cases name rule: validateIdent_cases [where q = q]; cases user rule: validateIdent_cases [where q = q]; 
       simp; intro wp runs_mono [OF runs_mysql_open] runs_mono [OF runs_exec_plain])
      (auto simp: session_ok_def failed_call_no_session whole_session_def)
  then show ?thesis by (rule runsD)
qed

section \<open>SQLite files\<close>

lemma db_file_plain:
  "lite_name n \<Longrightarrow> CHR ''/'' \<notin> set (n @ ''.db'') \<and> n @ ''.db'' \<noteq> [] \<and> n @ ''.db'' \<noteq> ''.'' \<and> n @ ''.db'' \<noteq> ''..''"
  by (cases n) (auto simp: lite_name_def)

definition file_in :: "string \<Rightarrow> string \<Rightarrow> string" where
  "file_in d f = (if rooted d then ''/'' else []) @ join_slash (clean_elems d @ [f])"

text \<open>
  A database file lands directly in the provisioner's directory: for an accepted name the path
  is that of the cleaned directory with one element appended, the name with the suffix .db; no name
  climbs out of the directory.
\<close>

theorem lite_path_in_dir:
  assumes "lite_name n"
  shows "lite_path q p n = Inr (file_in (lite_dir p) (n @ ''.db''))"
proof (cases "lite_dir p = []")
  case True
  have "\<not> rooted (n @ ''.db'')"
    using db_file_plain [OF assms] by (cases n) (auto simp: rooted_def has_prefix_def)
  then show ?thesis
    using True assms db_file_plain [OF assms]
    by (simp add: lite_path_ok path_join_def path_clean_def file_in_def clean_elems_def clean_step_def
        split_slash_plain rooted_def has_prefix_def del: append_assoc)
next
  case False
  moreover from this have "rooted (lite_dir p @ ''/'' @ n @ ''.db'') = rooted (lite_dir p)"
    by (cases "lite_dir p") (auto simp: rooted_def has_prefix_def)
  ultimately show ?thesis
    using assms db_file_plain [OF assms] clean_elems_join [of "lite_dir p" "n @ ''.db''"]
    by (simp add: lite_path_ok path_join_def path_clean_def file_in_def)
qed

theorem lite_path_in_dir_witness:
  "lite_path mem_drv \<lparr>lite_dir = ''./.dev/sqlite''\<rparr> ''wp_blog_acme'' =
     Inr (file_in ''./.dev/sqlite'' (''wp_blog_acme'' @ ''.db''))"
  using lite_path_in_dir [of "''wp_blog_acme''" mem_drv "\<lparr>lite_dir = ''./.dev/sqlite''\<rparr>"]
  by (simp add: lite_name_def)

text \<open>
  The dev provisioner accepts every name the production provisioner accepts.
\<close>

theorem sqlite_accepts_mysql_names:
  assumes "validateIdent q name = Inr ()"
  shows "\<exists>path. lite_path q' p name = Inr path"
proof -
  have "CHR ''/'' \<notin> set name" "CHR 0x5C \<notin> set name" "CHR ''.'' \<notin> set name"
    using assms unfolding validateIdent_ok_iff valid_ident_def
    by (auto simp: list_all_iff ident_char_def ident_rune_def byte_of_def)
  moreover have "name \<noteq> []"
    using assms by (auto simp: validateIdent_def)
  ultimately show ?thesis
    by (simp add: lite_name_def lite_path_ok)
qed

theorem sqlite_accepts_mysql_names_witness:
  "\<exists>path. lite_path mem_drv \<lparr>lite_dir = ''/data''\<rparr> ''wp_blog_acme'' = Inr path"
proof (rule sqlite_accepts_mysql_names)
  show "validateIdent mem_drv ''wp_blog_acme'' = Inr ()" by code_simp
qed

end
