(* ===== verification/WorkloadProps.thy ===== *)
theory WorkloadProps
imports Workloads Fixtures
begin

text \<open>
  The properties of the objects built for a site, taken together: the Deployment refers only to
  things that exist, a change of php.ini rolls the pods, and requests reach the pods.
\<close>

section \<open>References are closed\<close>

definition mount_backed :: "site \<Rightarrow> deployment \<Rightarrow> volume_mount \<Rightarrow> bool" where
  "mount_backed s d vm \<longleftrightarrow> list_ex (\<lambda>v. vol_name v = vm_name vm) (dep_volumes d) \<and>
     (vm_name vm = ''php-config'' \<longrightarrow> cm_data (DesiredPHPConfigMap s) (vm_subPath vm) \<noteq> None)"

definition env_backed :: "site \<Rightarrow> sdata \<Rightarrow> env_var \<Rightarrow> bool" where
  "env_backed s data e \<longleftrightarrow>
     (case ev_from e of
        Some (SecretKeyRef sec key) \<Rightarrow> sec = SecretName s \<and> map_bytes data key \<noteq> []
      | _ \<Rightarrow> True)"

lemma mounts_are_backed: "list_all (mount_backed s (DesiredDeployment g s h p)) (dep_mounts s)"
  by (simp add: dep_mounts_def mount_backed_def DesiredDeployment_def dep_volume_list_def build_simps)

lemma generated_env_backed: "secret_complete data \<Longrightarrow> list_all (env_backed s data) (generated_env s h p)"
  using secret_refs_filled [of _ s h p]
  by (fastforce simp: list_all_iff env_backed_def secret_complete_def split: option.split env_source.split)

text \<open>
  C33. The Deployment refers only to what exists: given the Secret the reconcile stores, every
  generated variable read from it has a value; every mount names a volume of the pod and every file
  mounted from the ConfigMap is one of its keys; mount paths and generated variable names are
  distinct; and the selector matches the pod labels.
\<close>

theorem deployment_closed:
  "list_all (env_backed s (sec_data (fst (run_state (DesiredSecret k s ex) w)))) (generated_env s h p) \<and>
    concat (map ct_env (dep_containers (DesiredDeployment g s h p))) = generated_env s h p @ sp_env (site_spec s) \<and>
    distinct (map ev_name (generated_env s h p)) \<and>
    list_all (\<lambda>c. list_all (mount_backed s (DesiredDeployment g s h p)) (ct_mounts c) \<and>
        distinct (map vm_mountPath (ct_mounts c))) (dep_containers (DesiredDeployment g s h p)) \<and>
    dep_selector (DesiredDeployment g s h p) \<subseteq>\<^sub>m dep_podLabels (DesiredDeployment g s h p)"
  using generated_env_backed [OF DesiredSecret_complete [OF surjective_pairing, where k = k and s = s and ex = ex and w = w],
      where s = s and h = h and p = p]
    mounts_are_backed [of s g h p] generated_env_names_distinct [of s h p] mount_paths_distinct [of s]
  by (simp add: DesiredDeployment_def dep_env_def selector_def Labels_def map_le_def)

section \<open>Changes of php.ini\<close>

text \<open>
  The pods carry the hash of exactly the php.ini the ConfigMap mounts: the annotation is the
  first 16 hexadecimal digits of the SHA-256 of the file's content.
\<close>

theorem php_ini_annotation:
  "\<exists>ini. cm_data (DesiredPHPConfigMap s) PHPIniFileName = Some ini \<and> ini \<noteq> [] \<and>
    dep_podAnnotations (DesiredDeployment g s h p) ''wp.benji.dev/php-ini-hash'' =
      Some (take 16 (hex_encode (sum256 ini))) \<and>
    length (take 16 (hex_encode (sum256 ini))) = 16"
  by (simp add: build_simps DesiredDeployment_def PHPIniHash_def EffectivePHPIni_nonempty
      length_hex_encode length_sum256)

section \<open>Traffic\<close>

definition routed :: "site \<Rightarrow> ingress_rule \<Rightarrow> bool" where
  "routed s r \<longleftrightarrow> ir_path r = ''/'' \<and> ir_backend r = m_name (svc_meta (DesiredService s)) \<and>
     list_ex (\<lambda>p. svp_port p = ir_port r) (svc_ports (DesiredService s))"

lemma copied_last_wins: "fmsubset m (fmadd d m)"
  by (auto simp: fmsubset_alt_def fmpred_iff fmlookup_dom_iff)

text \<open>
  Requests reach the pods: the Ingress routes the domain and every alias to a port of the
  site's Service, the Service forwards to a port the container opens and selects the pods of the
  Deployment; with TLS one certificate covers the same hosts; and the annotations of the spec win
  over the generated ones.
\<close>

theorem traffic_reaches_pods:
  "map ir_host (ing_rules (DesiredIngress g s)) = sp_domain (site_spec s) # sp_aliases (site_spec s) \<and>
   list_all (routed s) (ing_rules (DesiredIngress g s)) \<and>
   list_all (\<lambda>p. list_all (\<lambda>c. svp_targetPort p \<in> set (map snd (ct_ports c)))
       (dep_containers (DesiredDeployment g s h q))) (svc_ports (DesiredService s)) \<and>
   svc_selector (DesiredService s) \<subseteq>\<^sub>m dep_podLabels (DesiredDeployment g s h q) \<and>
   map it_hosts (ing_tls (DesiredIngress g s)) =
     (if tls_enabled (sp_tls (site_spec s)) then [Hosts s] else []) \<and>
   (case m_annotations (ing_meta (DesiredIngress g s)) of
      None \<Rightarrow> False | Some a \<Rightarrow> fmsubset (sp_ingressAnnotations (site_spec s)) a)"
  by (simp add: DesiredIngress_def DesiredService_def DesiredDeployment_def ingress_rule_for_def
      routed_def Hosts_def comp_def list_all_iff new_meta_def selector_def Labels_def
      ingress_annotations_def Let_def copied_last_wins)

end
