(* ===== verification/Metrics.thy ===== *)
theory Metrics
imports Externals "HOL-Library.AList"
begin

text \<open>
  internal/metrics: the resource figures of the dashboard. metrics.go declares the shapes, the
  clamped subtraction \<open>avail\<close> and the interface \<open>Provider\<close>; kube.go reads nodes and metrics-server,
  dev.go derives plausible numbers from the sites. All quantities are \<open>int64\<close>, with wrap-around and
  truncating division. The locale \<open>metrics_source\<close> is what the API server relies on.
\<close>

section \<open>metrics.go\<close>

record metric =
  mt_used :: i64
  mt_capacity :: i64
  mt_allocatable :: i64
  mt_available :: i64

record node_metrics =
  nm_name :: string
  nm_cpu :: metric
  nm_memory :: metric

record cluster_metrics =
  cl_cpu :: metric
  cl_memory :: metric
  cl_nodes :: "node_metrics list"
  cl_metricsAvailable :: bool

record site_usage =
  su_name :: string
  su_cpuMilli :: i64
  su_memoryBytes :: i64

text \<open>The interface \<open>Provider\<close>; the slice \<open>Sites\<close> returns may be nil.\<close>

record 'e provider =
  mp_cluster :: "('e, cluster_metrics result) prog"
  mp_sites :: "('e, site_usage list option result) prog"

definition avail :: "i64 \<Rightarrow> i64 \<Rightarrow> i64" where
  "avail allocatable used = (if allocatable <s used then 0 else allocatable - used)"

definition mk_metric :: "i64 \<Rightarrow> i64 \<Rightarrow> i64 \<Rightarrow> metric" where
  "mk_metric used capacity allocatable =
     \<lparr>mt_used = used, mt_capacity = capacity, mt_allocatable = allocatable,
      mt_available = avail allocatable used\<rparr>"

text \<open>\<open>ResourceList.Cpu().MilliValue()\<close> and \<open>Memory().Value()\<close>: zero when the key is missing.\<close>

definition cpu_milli :: "'e kube \<Rightarrow> (string \<rightharpoonup> quantity) \<Rightarrow> i64" where
  "cpu_milli k m = (case m ''cpu'' of None \<Rightarrow> 0 | Some q \<Rightarrow> k_milliValue k q)"

definition mem_value :: "'e kube \<Rightarrow> (string \<rightharpoonup> quantity) \<Rightarrow> i64" where
  "mem_value k m = (case m ''memory'' of None \<Rightarrow> 0 | Some q \<Rightarrow> k_value k q)"

section \<open>kube.go\<close>

record node_sums =
  ns_capCPU :: i64
  ns_capMem :: i64
  ns_allocCPU :: i64
  ns_allocMem :: i64
  ns_usedCPU :: i64
  ns_usedMem :: i64

definition no_sums :: node_sums where
  "no_sums = \<lparr>ns_capCPU = 0, ns_capMem = 0, ns_allocCPU = 0, ns_allocMem = 0, ns_usedCPU = 0,
     ns_usedMem = 0\<rparr>"

type_synonym usage_map = "string \<rightharpoonup> i64 \<times> i64"

fun usage_of :: "'e kube \<Rightarrow> node_usage list \<Rightarrow> usage_map \<Rightarrow> usage_map" where
  "usage_of k [] m = m"
| "usage_of k (u # us) m =
     usage_of k us (m(nu_name u \<mapsto> (cpu_milli k (nu_usage u), mem_value k (nu_usage u))))"

definition used_by :: "usage_map \<Rightarrow> string \<Rightarrow> i64 \<times> i64" where
  "used_by m n = (case m n of None \<Rightarrow> (0, 0) | Some u \<Rightarrow> u)"

definition node_row :: "'e kube \<Rightarrow> usage_map \<Rightarrow> node \<Rightarrow> node_metrics" where
  "node_row k m n =
     \<lparr>nm_name = nd_name n,
      nm_cpu = mk_metric (fst (used_by m (nd_name n))) (cpu_milli k (nd_capacity n))
        (cpu_milli k (nd_allocatable n)),
      nm_memory = mk_metric (snd (used_by m (nd_name n))) (mem_value k (nd_capacity n))
        (mem_value k (nd_allocatable n))\<rparr>"

fun scan_nodes ::
  "'e kube \<Rightarrow> usage_map \<Rightarrow> node list \<Rightarrow> node_sums \<Rightarrow> node_metrics list \<Rightarrow> node_sums \<times> node_metrics list" where
  "scan_nodes k m [] t rows = (t, rows)"
| "scan_nodes k m (n # ns) t rows =
     scan_nodes k m ns
       \<lparr>ns_capCPU = ns_capCPU t + cpu_milli k (nd_capacity n),
        ns_capMem = ns_capMem t + mem_value k (nd_capacity n),
        ns_allocCPU = ns_allocCPU t + cpu_milli k (nd_allocatable n),
        ns_allocMem = ns_allocMem t + mem_value k (nd_allocatable n),
        ns_usedCPU = ns_usedCPU t + fst (used_by m (nd_name n)),
        ns_usedMem = ns_usedMem t + snd (used_by m (nd_name n))\<rparr>
       (rows @ [node_row k m n])"

definition kube_figures :: "'e kube \<Rightarrow> node list \<Rightarrow> node_usage list option \<Rightarrow> cluster_metrics" where
  "kube_figures k nodes usage =
     (let m = usage_of k (case usage of None \<Rightarrow> [] | Some us \<Rightarrow> us) Map.empty;
          (t, rows) = scan_nodes k m nodes no_sums []
      in \<lparr>cl_cpu = mk_metric (ns_usedCPU t) (ns_capCPU t) (ns_allocCPU t),
          cl_memory = mk_metric (ns_usedMem t) (ns_capMem t) (ns_allocMem t),
          cl_nodes = rows, cl_metricsAvailable = (usage \<noteq> None)\<rparr>)"

definition KubeCluster :: "'e kube \<Rightarrow> ('e, cluster_metrics result) prog" where
  "KubeCluster k = do {
     nodes \<leftarrow> listNodes k;
     case nodes of
       Inl e \<Rightarrow> ret (Inl e)
     | Inr ns \<Rightarrow> do {
         u \<leftarrow> listNodeUsage k;
         ret (Inr (kube_figures k ns (case u of Inl _ \<Rightarrow> None | Inr us \<Rightarrow> Some us)))
       }
   }"

definition SiteLabel :: string where
  "SiteLabel = ''wp.benji.dev/site''"

fun add_containers :: "'e kube \<Rightarrow> (string \<rightharpoonup> quantity) list \<Rightarrow> site_usage \<Rightarrow> site_usage" where
  "add_containers k [] u = u"
| "add_containers k (c # cs) u =
     add_containers k cs
       (u\<lparr>su_cpuMilli := su_cpuMilli u + cpu_milli k c, su_memoryBytes := su_memoryBytes u + mem_value k c\<rparr>)"

text \<open>The map \<open>agg\<close>, as an association list with distinct keys.\<close>

fun aggregate :: "'e kube \<Rightarrow> pod_usage list \<Rightarrow> (string \<times> site_usage) list \<Rightarrow> (string \<times> site_usage) list" where
  "aggregate k [] agg = agg"
| "aggregate k (p # ps) agg =
     (let site = (case pu_labels p SiteLabel of None \<Rightarrow> [] | Some v \<Rightarrow> v) in
      if site = [] then aggregate k ps agg
      else aggregate k ps (AList.update site
        (add_containers k (pu_containers p)
          (case map_of agg site of
             None \<Rightarrow> \<lparr>su_name = site, su_cpuMilli = 0, su_memoryBytes = 0\<rparr> | Some u \<Rightarrow> u)) agg))"

text \<open>\<open>order\<close> is the order in which the runtime ranges over the map.\<close>

definition KubeSites ::
  "'e kube \<Rightarrow> (site_usage list \<Rightarrow> site_usage list) \<Rightarrow> string \<Rightarrow> ('e, site_usage list option result) prog" where
  "KubeSites k order ns = do {
     pods \<leftarrow> listPodUsage k ns;
     case pods of
       Inl _ \<Rightarrow> ret (Inr None)
     | Inr ps \<Rightarrow> ret (Inr (Some (order (map snd (aggregate k ps [])))))
   }"

definition kube_provider ::
  "'e kube \<Rightarrow> (site_usage list \<Rightarrow> site_usage list) \<Rightarrow> string \<Rightarrow> 'e provider" where
  "kube_provider k order ns = \<lparr>mp_cluster = KubeCluster k, mp_sites = KubeSites k order ns\<rparr>"

section \<open>dev.go\<close>

definition dev_capCPU :: i64 where "dev_capCPU = 8000"
definition dev_capMem :: i64 where "dev_capMem = 17179869184"

definition siteUsage :: "'e kube \<Rightarrow> site \<Rightarrow> site_usage" where
  "siteUsage k s =
     (let replicas = (case sp_replicas (site_spec s) of
            None \<Rightarrow> 1 | Some r \<Rightarrow> if 0 <s r then int64_of_i32 r else 1);
          cpu0 = cpu_milli k (rr_requests (sp_resources (site_spec s)));
          reqCPU = (if cpu0 = 0 then 150 else cpu0);
          mem0 = mem_value k (rr_requests (sp_resources (site_spec s)));
          reqMem = (if mem0 = 0 then 268435456 else mem0);
          jitter = of_nat (length (site_name s) mod 30)
      in \<lparr>su_name = site_name s,
          su_cpuMilli = replicas * (go_div64 (reqCPU * 70) 100 + jitter),
          su_memoryBytes = replicas * go_div64 (reqMem * 80) 100\<rparr>)"

definition DevSites :: "'e kube \<Rightarrow> string \<Rightarrow> ('e, site_usage list option result) prog" where
  "DevSites k ns = do {
     l \<leftarrow> listSites k ns;
     case l of Inl e \<Rightarrow> ret (Inl e) | Inr xs \<Rightarrow> ret (Inr (Some (map (siteUsage k) xs)))
   }"

definition at_most :: "i64 \<Rightarrow> i64 \<Rightarrow> i64" where
  "at_most limit x = (if limit <s x then limit else x)"

definition dev_figures :: "site_usage list \<Rightarrow> cluster_metrics" where
  "dev_figures sites =
     (let allocCPU = go_div64 (dev_capCPU * 95) 100;
          allocMem = go_div64 (dev_capMem * 95) 100;
          usedCPU = at_most allocCPU (fold (\<lambda>s a. a + su_cpuMilli s) sites 500);
          usedMem = at_most allocMem (fold (\<lambda>s a. a + su_memoryBytes s) sites 2147483648)
      in \<lparr>cl_cpu = mk_metric usedCPU dev_capCPU allocCPU,
          cl_memory = mk_metric usedMem dev_capMem allocMem,
          cl_nodes = [\<lparr>nm_name = ''dev-node'', nm_cpu = mk_metric usedCPU dev_capCPU allocCPU,
             nm_memory = mk_metric usedMem dev_capMem allocMem\<rparr>],
          cl_metricsAvailable = True\<rparr>)"

definition DevCluster :: "'e kube \<Rightarrow> string \<Rightarrow> ('e, cluster_metrics result) prog" where
  "DevCluster k ns = do {
     l \<leftarrow> DevSites k ns;
     case l of
       Inl e \<Rightarrow> ret (Inl e)
     | Inr xs \<Rightarrow> ret (Inr (dev_figures (case xs of None \<Rightarrow> [] | Some ys \<Rightarrow> ys)))
   }"

definition dev_provider :: "'e kube \<Rightarrow> string \<Rightarrow> 'e provider" where
  "dev_provider k ns = \<lparr>mp_cluster = DevCluster k ns, mp_sites = DevSites k ns\<rparr>"

section \<open>Lemmas\<close>

text \<open>A figure is consistent when its available part is the clamped difference.\<close>

definition metric_ok :: "metric \<Rightarrow> bool" where
  "metric_ok m \<longleftrightarrow> mt_available m = avail (mt_allocatable m) (mt_used m)"

definition figures_ok :: "cluster_metrics \<Rightarrow> bool" where
  "figures_ok c \<longleftrightarrow> metric_ok (cl_cpu c) \<and> metric_ok (cl_memory c) \<and>
     list_all (\<lambda>n. metric_ok (nm_cpu n) \<and> metric_ok (nm_memory n)) (cl_nodes c)"

lemma mk_metric_ok [simp]: "metric_ok (mk_metric u c a)"
  by (simp add: metric_ok_def mk_metric_def)

lemma node_row_ok: "metric_ok (nm_cpu (node_row k m n)) \<and> metric_ok (nm_memory (node_row k m n))"
  by (simp add: node_row_def)

lemma scan_nodes_rows: "snd (scan_nodes k m ns t rows) = rows @ map (node_row k m) ns"
  by (induction ns arbitrary: t rows) simp_all

lemma scan_nodes_sums:
  "fst (scan_nodes k m ns t rows) =
     \<lparr>ns_capCPU = ns_capCPU t + sum_list (map (\<lambda>n. mt_capacity (nm_cpu (node_row k m n))) ns),
      ns_capMem = ns_capMem t + sum_list (map (\<lambda>n. mt_capacity (nm_memory (node_row k m n))) ns),
      ns_allocCPU = ns_allocCPU t + sum_list (map (\<lambda>n. mt_allocatable (nm_cpu (node_row k m n))) ns),
      ns_allocMem = ns_allocMem t + sum_list (map (\<lambda>n. mt_allocatable (nm_memory (node_row k m n))) ns),
      ns_usedCPU = ns_usedCPU t + sum_list (map (\<lambda>n. mt_used (nm_cpu (node_row k m n))) ns),
      ns_usedMem = ns_usedMem t + sum_list (map (\<lambda>n. mt_used (nm_memory (node_row k m n))) ns)\<rparr>"
  by (induction ns arbitrary: t rows) (simp_all add: node_row_def mk_metric_def add.assoc)

lemma kube_figures_eq:
  assumes "m = usage_of k (case usage of None \<Rightarrow> [] | Some us \<Rightarrow> us) Map.empty"
  shows "kube_figures k nodes usage =
     (let t = fst (scan_nodes k m nodes no_sums []) in
      \<lparr>cl_cpu = mk_metric (ns_usedCPU t) (ns_capCPU t) (ns_allocCPU t),
       cl_memory = mk_metric (ns_usedMem t) (ns_capMem t) (ns_allocMem t),
       cl_nodes = map (node_row k m) nodes, cl_metricsAvailable = (usage \<noteq> None)\<rparr>)"
  using scan_nodes_rows [of k m nodes no_sums "[]"]
  by (simp add: kube_figures_def assms Let_def case_prod_beta)

lemma kube_figures_ok: "figures_ok (kube_figures k nodes usage)"
  by (simp add: kube_figures_eq [OF refl] figures_ok_def Let_def list_all_iff node_row_ok)

lemma dev_figures_ok: "figures_ok (dev_figures sites)"
  by (simp add: dev_figures_def figures_ok_def Let_def)

section \<open>What the API server relies on\<close>

locale metrics_source =
  fixes p :: "'e provider"
  assumes cluster_reads: "emits read_call (mp_cluster p)"
    and sites_reads: "emits read_call (mp_sites p)"
    and cluster_ok: "run_state (mp_cluster p) w = (Inr c, w') \<Longrightarrow> figures_ok c"
begin

lemma runs_cluster:
  "runs (mp_cluster p) (\<lambda>r l. (case r of Inl _ \<Rightarrow> True | Inr c \<Rightarrow> figures_ok c) \<and> list_all read_call l)"
  using cluster_reads by (rule runs_post) (auto split: sum.split dest: cluster_ok)

lemma runs_sites: "runs (mp_sites p) (\<lambda>_ l. list_all read_call l)"
  using sites_reads by (rule runs_emits)

end

interpretation kube_metrics: metrics_source "kube_provider k order ns" for k order ns
  by unfold_locales
    (auto simp: kube_provider_def KubeCluster_def KubeSites_def run_simps kube_figures_ok
      intro!: emits_intros split: prod.splits sum.splits)

interpretation dev_metrics: metrics_source "dev_provider k ns" for k ns
  by unfold_locales
    (auto simp: dev_provider_def DevCluster_def DevSites_def run_simps dev_figures_ok
      intro!: emits_intros split: prod.splits sum.splits)

end
