(* ===== verification/MetricsProps.thy ===== *)
theory MetricsProps
imports Metrics Fixtures "HOL-Library.Multiset"
begin

text \<open>The properties of the resource figures: totals, clamping and the aggregation per site.\<close>

section \<open>Clamped subtraction\<close>

text \<open>
  C35. \<open>avail\<close> is the exact difference clamped at zero, without overflow, for all non-negative
  quantities.
\<close>

theorem avail_exact:
  assumes "0 \<le>s used" and "0 \<le>s allocatable"
  shows "sint (avail allocatable used) = max 0 (sint allocatable - sint used) \<and>
    avail allocatable used \<le>s allocatable"
proof -
  have r: "0 \<le> sint used" "0 \<le> sint allocatable" "sint allocatable < 2 ^ 63"
    using assms sint_lt [of allocatable] by (simp_all add: word_sle_eq)
  have "sint (allocatable - used) = sint allocatable - sint used" if "sint used \<le> sint allocatable"
    using r that sint_greater_eq [of "allocatable - used"]
    by (simp add: sint_word_ariths signed_take_bit_int_eq_self)
  with r show ?thesis
    by (auto simp: avail_def word_sless_alt word_sle_eq)
qed

theorem avail_exact_witness:
  "sint (avail 7600 500) = max 0 (sint (7600 :: i64) - sint (500 :: i64)) \<and> avail 7600 500 \<le>s 7600"
  by (rule avail_exact) (simp_all add: word_sle_eq)

section \<open>Cluster totals\<close>

definition totals_of :: "metric \<Rightarrow> metric list \<Rightarrow> bool" where
  "totals_of t rows \<longleftrightarrow> mt_used t = sum_list (map mt_used rows) \<and>
     mt_capacity t = sum_list (map mt_capacity rows) \<and>
     mt_allocatable t = sum_list (map mt_allocatable rows) \<and> metric_ok t"

text \<open>
  The cluster figures are the sums of the node rows (in 64-bit arithmetic), there is one row per
  node in the order of the list, a node metrics-server does not report counts as using nothing, and
  without metrics-server all usage is zero.
\<close>

theorem kube_totals_are_sums:
  "totals_of (cl_cpu (kube_figures k nodes usage)) (map nm_cpu (cl_nodes (kube_figures k nodes usage))) \<and>
   totals_of (cl_memory (kube_figures k nodes usage)) (map nm_memory (cl_nodes (kube_figures k nodes usage))) \<and>
   map nm_name (cl_nodes (kube_figures k nodes usage)) = map nd_name nodes \<and>
   mt_used (cl_cpu (kube_figures k nodes None)) = 0 \<and> mt_used (cl_memory (kube_figures k nodes None)) = 0"
proof -
  have zero: "sum_list (map (\<lambda>n. mt_used (nm_cpu (node_row k Map.empty n))) nodes) = 0"
    "sum_list (map (\<lambda>n. mt_used (nm_memory (node_row k Map.empty n))) nodes) = 0"
    by (induction nodes) (simp_all add: node_row_def mk_metric_def used_by_def)
  have used: "mt_used (mk_metric u c a) = u" "mt_capacity (mk_metric u c a) = c"
    "mt_allocatable (mk_metric u c a) = a" for u c a
    by (simp_all add: mk_metric_def)
  have name: "nm_name (node_row k m n) = nd_name n" for m n
    by (simp add: node_row_def)
  show ?thesis
    by (simp add: kube_figures_eq [OF refl] scan_nodes_sums Let_def totals_of_def used no_sums_def comp_def
        zero name)
qed

text \<open>
  The dev figures stay inside the virtual node: usage never exceeds what is allocatable, the
  available part is the exact remainder, and the node row repeats the totals.
\<close>

theorem dev_figures_bounded:
  "mt_used (cl_cpu (dev_figures sites)) \<le>s mt_allocatable (cl_cpu (dev_figures sites)) \<and>
   mt_used (cl_memory (dev_figures sites)) \<le>s mt_allocatable (cl_memory (dev_figures sites)) \<and>
   mt_allocatable (cl_cpu (dev_figures sites)) = 7600 \<and> mt_capacity (cl_cpu (dev_figures sites)) = 8000 \<and>
   mt_available (cl_cpu (dev_figures sites)) = 7600 - mt_used (cl_cpu (dev_figures sites)) \<and>
   map nm_cpu (cl_nodes (dev_figures sites)) = [cl_cpu (dev_figures sites)] \<and>
   map nm_memory (cl_nodes (dev_figures sites)) = [cl_memory (dev_figures sites)]"
proof -
  have bound: "at_most a x \<le>s a" for a x
    by (auto simp: at_most_def word_sle_eq word_sless_alt)
  have alloc: "go_div64 760000 100 = 7600"
    by (simp add: go_div64_def)
  have avail: "avail a (at_most a x) = a - at_most a x" for a x
    using bound [of a x] by (auto simp: avail_def word_sle_eq word_sless_alt)
  show ?thesis
    by (simp add: dev_figures_def Let_def mk_metric_def bound alloc avail dev_capCPU_def)
qed

section \<open>Usage per site\<close>

definition pods_of :: "string \<Rightarrow> pod_usage list \<Rightarrow> pod_usage list" where
  "pods_of site ps = filter (\<lambda>p. pu_labels p SiteLabel = Some site) ps"

definition pods_total :: "((string \<rightharpoonup> quantity) \<Rightarrow> i64) \<Rightarrow> pod_usage list \<Rightarrow> i64" where
  "pods_total f ps = sum_list (map (\<lambda>p. sum_list (map f (pu_containers p))) ps)"

lemma add_containers_sum:
  "add_containers k cs u = u\<lparr>su_cpuMilli := su_cpuMilli u + sum_list (map (cpu_milli k) cs),
     su_memoryBytes := su_memoryBytes u + sum_list (map (mem_value k) cs)\<rparr>"
  by (induction cs arbitrary: u) (simp_all add: add.assoc)

definition usage_from :: "'e kube \<Rightarrow> site_usage \<Rightarrow> pod_usage list \<Rightarrow> site_usage" where
  "usage_from k u ps = u\<lparr>su_cpuMilli := su_cpuMilli u + pods_total (cpu_milli k) ps,
     su_memoryBytes := su_memoryBytes u + pods_total (mem_value k) ps\<rparr>"

definition start_usage :: "(string \<times> site_usage) list \<Rightarrow> string \<Rightarrow> site_usage" where
  "start_usage agg site = (case map_of agg site of
     None \<Rightarrow> \<lparr>su_name = site, su_cpuMilli = 0, su_memoryBytes = 0\<rparr> | Some u \<Rightarrow> u)"

lemma usage_from_Cons: "usage_from k u (p # ps) = usage_from k (add_containers k (pu_containers p) u) ps"
  by (simp add: usage_from_def add_containers_sum pods_total_def add.assoc)

lemma map_of_aggregate:
  "map_of (aggregate k ps agg) site =
     (if site = [] \<or> pods_of site ps = [] then map_of agg site
      else Some (usage_from k (start_usage agg site) (pods_of site ps)))"
proof (induction ps arbitrary: agg site)
  case Nil
  then show ?case by (simp add: pods_of_def)
next
  case (Cons p ps)
  have nil: "usage_from k u [] = u" for u
    by (simp add: usage_from_def pods_total_def)
  show ?case
    by (auto simp: Cons.IH Let_def pods_of_def start_usage_def update_conv usage_from_Cons nil
        split: option.splits)
qed

lemma distinct_aggregate: "distinct (map fst agg) \<Longrightarrow> distinct (map fst (aggregate k ps agg))"
  by (induction ps arbitrary: agg) (auto simp: Let_def distinct_update)

lemma aggregate_entries:
  "(site, u) \<in> set (aggregate k ps []) \<longleftrightarrow>
     site \<noteq> [] \<and> pods_of site ps \<noteq> [] \<and>
     u = \<lparr>su_name = site, su_cpuMilli = pods_total (cpu_milli k) (pods_of site ps),
          su_memoryBytes = pods_total (mem_value k) (pods_of site ps)\<rparr>"
proof -
  have "distinct (map fst (aggregate k ps []))"
    by (simp add: distinct_aggregate)
  from map_of_eq_Some_iff [OF this, of site u]
  have "(site, u) \<in> set (aggregate k ps []) \<longleftrightarrow>
      (if site = [] \<or> pods_of site ps = [] then None
       else Some (usage_from k (start_usage [] site) (pods_of site ps))) = Some u"
    by (simp only: map_of_aggregate map_of.simps)
  then show ?thesis
    by (auto simp: usage_from_def start_usage_def)
qed

lemma usage_fields:
  "u = \<lparr>su_name = su_name u, su_cpuMilli = a, su_memoryBytes = b\<rparr> \<longleftrightarrow>
     su_cpuMilli u = a \<and> su_memoryBytes u = b"
  by (cases u) auto

text \<open>
  C31. Per-site usage: every site with a labelled pod appears exactly once, with the sums over all
  containers of its pods, whatever order the runtime ranges over the map in; unlabelled pods count
  for no site.
\<close>

theorem sites_are_aggregated:
  assumes "k_listPodUsage k ns (env w) = (Inr ps, e)" and "\<And>xs. mset (order xs) = mset xs"
  shows "\<exists>us. fst (run_state (KubeSites k order ns) w) = Inr (Some us) \<and> distinct (map su_name us) \<and>
    (\<forall>u. u \<in> set us \<longleftrightarrow> su_name u \<noteq> [] \<and> pods_of (su_name u) ps \<noteq> [] \<and>
       su_cpuMilli u = pods_total (cpu_milli k) (pods_of (su_name u) ps) \<and>
       su_memoryBytes u = pods_total (mem_value k) (pods_of (su_name u) ps))"
proof (intro exI conjI)
  let ?agg = "aggregate k ps []"
  have named: "su_name (snd x) = fst x" if "x \<in> set ?agg" for x
    using that aggregate_entries [of "fst x" "snd x" k ps] by simp
  show "fst (run_state (KubeSites k order ns) w) = Inr (Some (order (map snd ?agg)))"
    using assms(1) by (simp add: KubeSites_def run_simps)
  have "map su_name (map snd ?agg) = map fst ?agg"
    using named by simp
  then have "distinct (map su_name (map snd ?agg))"
    by (simp only: distinct_aggregate list.map distinct.simps)
  then show "distinct (map su_name (order (map snd ?agg)))"
    using assms(2) by (metis distinct_map mset_eq_imp_distinct_iff set_mset_mset)
  have order: "set (order (map snd ?agg)) = snd ` set ?agg"
    using assms(2) by (metis set_map set_mset_mset)
  have image: "u \<in> snd ` set ?agg \<longleftrightarrow> (su_name u, u) \<in> set ?agg" for u
  proof
    assume "u \<in> snd ` set ?agg"
    then obtain x where "x \<in> set ?agg" "u = snd x" by blast
    with named [of x] show "(su_name u, u) \<in> set ?agg" by simp
  qed (rule image_eqI, simp_all)
  show "\<forall>u. u \<in> set (order (map snd ?agg)) \<longleftrightarrow> su_name u \<noteq> [] \<and> pods_of (su_name u) ps \<noteq> [] \<and>
       su_cpuMilli u = pods_total (cpu_milli k) (pods_of (su_name u) ps) \<and>
       su_memoryBytes u = pods_total (mem_value k) (pods_of (su_name u) ps)"
    by (simp only: order image aggregate_entries usage_fields simp_thms)
qed

definition usage_kube :: "mem kube" where
  "usage_kube = mem_kube\<lparr>k_listPodUsage := \<lambda>ns e. (Inr [\<lparr>pu_labels = [SiteLabel \<mapsto> ''blog-acme''],
     pu_containers = [[''cpu'' \<mapsto> Quantity ''150m''], [''cpu'' \<mapsto> Quantity ''50m'']]\<rparr>], e),
     k_milliValue := \<lambda>q. if q = Quantity ''150m'' then 150 else 50\<rparr>"

theorem sites_are_aggregated_witness:
  "\<exists>us. fst (run_state (KubeSites usage_kube rev ''wordpress-sites'') mem_empty) = Inr (Some us) \<and>
    distinct (map su_name us)"
proof -
  have "k_listPodUsage usage_kube ''wordpress-sites'' (env mem_empty) =
      (Inr [\<lparr>pu_labels = [SiteLabel \<mapsto> ''blog-acme''],
     pu_containers = [[''cpu'' \<mapsto> Quantity ''150m''], [''cpu'' \<mapsto> Quantity ''50m'']]\<rparr>], env mem_empty)"
    by (simp add: usage_kube_def)
  from sites_are_aggregated [OF this, of rev] show ?thesis by auto
qed

end
