(* ===== verification/TwoFactor.thy ===== *)
theory TwoFactor
imports Secrets
begin

text \<open>
  internal/apiserver/twofa.go: TOTP two-factor authentication of the admin, kept in one Secret.
  The package pquerna/otp is a parameter. The locale \<open>two_factor\<close> is the interface \<open>TwoFA\<close> as the
  login relies on it.
\<close>

section \<open>The TOTP package\<close>

record otp_key =
  ok_secret :: string
  ok_url :: string

text \<open>
  \<open>totp.Generate\<close> (which draws a random secret), \<open>totp.Validate\<close> (which reads the clock),
  \<open>Key.Image\<close> and \<open>png.Encode\<close>; an image is opaque.
\<close>

record 'e otp =
  o_generate :: "string \<Rightarrow> string \<Rightarrow> 'e \<Rightarrow> otp_key result \<times> 'e"
  o_validate :: "string \<Rightarrow> string \<Rightarrow> 'e \<Rightarrow> bool \<times> 'e"
  o_image :: "otp_key \<Rightarrow> nat \<Rightarrow> nat \<Rightarrow> string result"
  o_pngEncode :: "string \<Rightarrow> string result"

definition totpGenerate :: "'e otp \<Rightarrow> string \<Rightarrow> string \<Rightarrow> ('e, otp_key result) prog" where
  "totpGenerate pk issuer account = call (CTotpGenerate issuer account) (o_generate pk issuer account)"

definition totpValidate :: "'e otp \<Rightarrow> string \<Rightarrow> string \<Rightarrow> ('e, bool) prog" where
  "totpValidate pk code secret = query (CTotpValidate code secret) (o_validate pk code secret)"

lemmas run_totp [run_simps] = totpGenerate_def [THEN arg_cong, of run_state]
  totpValidate_def [THEN arg_cong, of run_state]

lemma emits_totp [emits_intros]:
  "(\<And>r. P (CTotpGenerate i a, r)) \<Longrightarrow> emits P (totpGenerate pk i a)"
  "P (CTotpValidate c s, None) \<Longrightarrow> emits P (totpValidate pk c s)"
  by (auto simp: totpGenerate_def totpValidate_def intro: emits_intros)

lemma runs_totp [wp]:
  "(\<And>r. Q r [(CTotpGenerate i a, err_of r)]) \<Longrightarrow> runs (totpGenerate pk i a) Q"
  "(\<And>b. R b [(CTotpValidate c s, None)]) \<Longrightarrow> runs (totpValidate pk c s) R"
  by (auto simp: totpGenerate_def totpValidate_def intro: wp)

section \<open>The interface TwoFA\<close>

record 'e two_fa =
  tf_enabled :: "('e, bool) prog"
  tf_setup :: "('e, (string \<times> string \<times> string) result) prog"
  tf_enable :: "string \<Rightarrow> ('e, unit result) prog"
  tf_disable :: "string \<Rightarrow> ('e, unit result) prog"
  tf_validate :: "string \<Rightarrow> ('e, bool) prog"

section \<open>KubeTwoFA\<close>

definition twoFAKeySecret :: string where "twoFAKeySecret = ''secret''"
definition twoFAKeyEnabled :: string where "twoFAKeyEnabled = ''enabled''"
definition twoFAKeyPending :: string where "twoFAKeyPending = ''pending''"

record 'e kube_two_fa =
  kt_kube :: "'e kube"
  kt_otp :: "'e otp"
  kt_namespace :: string
  kt_secretName :: string
  kt_issuer :: string
  kt_account :: string

definition load :: "'e kube_two_fa \<Rightarrow> ('e, secret option result) prog" where
  "load t = do {
     s \<leftarrow> getSecret (kt_kube t) (kt_namespace t) (kt_secretName t);
     ret (case s of Inl e \<Rightarrow> if is_not_found e then Inr None else Inl e | Inr x \<Rightarrow> Inr (Some x))
   }"

definition save :: "'e kube_two_fa \<Rightarrow> secret option \<Rightarrow> sdata \<Rightarrow> ('e, unit result) prog" where
  "save t existing data =
     (case existing of
        None \<Rightarrow> do {
          r \<leftarrow> createSecret (kt_kube t)
            \<lparr>sec_meta = new_meta (kt_secretName t) (kt_namespace t) Map.empty,
             sec_type = ''Opaque'', sec_data = data\<rparr>;
          ret (case r of Inl e \<Rightarrow> Inl e | Inr _ \<Rightarrow> Inr ())
        }
      | Some x \<Rightarrow> do {
          r \<leftarrow> updateSecret (kt_kube t) (x\<lparr>sec_data := data\<rparr>);
          ret (case r of Inl e \<Rightarrow> Inl e | Inr _ \<Rightarrow> Inr ())
        })"

text \<open>What the Secret's data says about 2FA: is it active.\<close>

definition active_2fa :: "sdata \<Rightarrow> bool" where
  "active_2fa d \<longleftrightarrow> map_bytes d twoFAKeyEnabled = ''true'' \<and> 0 < length (map_bytes d twoFAKeySecret)"

definition Enabled :: "'e kube_two_fa \<Rightarrow> ('e, bool) prog" where
  "Enabled t = do {
     s \<leftarrow> load t;
     ret (case s of Inl _ \<Rightarrow> False | Inr None \<Rightarrow> False | Inr (Some x) \<Rightarrow> active_2fa (sec_data x))
   }"

definition qrDataURI :: "'e otp \<Rightarrow> otp_key \<Rightarrow> string result" where
  "qrDataURI pk key =
     (case o_image pk key 220 220 of
        Inl e \<Rightarrow> Inl e
      | Inr img \<Rightarrow> case o_pngEncode pk img of
          Inl e \<Rightarrow> Inl e
        | Inr png \<Rightarrow> Inr (''data:image/png;base64,'' @ std_encode png))"

definition Setup :: "'e kube_two_fa \<Rightarrow> ('e, (string \<times> string \<times> string) result) prog" where
  "Setup t = do {
     g \<leftarrow> totpGenerate (kt_otp t) (kt_issuer t) (kt_account t);
     case g of
       Inl e \<Rightarrow> ret (Inl e)
     | Inr key \<Rightarrow> do {
         l \<leftarrow> load t;
         case l of
           Inl e \<Rightarrow> ret (Inl e)
         | Inr s \<Rightarrow> do {
             v \<leftarrow> save t s (fmupd twoFAKeyPending (ok_secret key)
               (case s of None \<Rightarrow> fmempty | Some x \<Rightarrow> fmadd fmempty (sec_data x)));
             case v of
               Inl e \<Rightarrow> ret (Inl e)
             | Inr _ \<Rightarrow> ret (case qrDataURI (kt_otp t) key of
                 Inl e \<Rightarrow> Inl e | Inr qr \<Rightarrow> Inr (ok_secret key, ok_url key, qr))
           }
       }
   }"

definition Enable :: "'e kube_two_fa \<Rightarrow> string \<Rightarrow> ('e, unit result) prog" where
  "Enable t code = do {
     l \<leftarrow> load t;
     case l of
       Inl e \<Rightarrow> ret (Inl e)
     | Inr None \<Rightarrow> ret (Inl (GoErr ''run setup first''))
     | Inr (Some x) \<Rightarrow>
         if length (map_bytes (sec_data x) twoFAKeyPending) = 0
         then ret (Inl (GoErr ''run setup first''))
         else do {
           ok \<leftarrow> totpValidate (kt_otp t) code (map_bytes (sec_data x) twoFAKeyPending);
           if \<not> ok then ret (Inl ErrCodeInvalid)
           else save t (Some x)
             (fmap_of_list [(twoFAKeySecret, map_bytes (sec_data x) twoFAKeyPending),
                (twoFAKeyEnabled, ''true'')])
         }
   }"

definition Disable :: "'e kube_two_fa \<Rightarrow> string \<Rightarrow> ('e, unit result) prog" where
  "Disable t code = do {
     l \<leftarrow> load t;
     case l of
       Inl e \<Rightarrow> ret (Inl e)
     | Inr None \<Rightarrow> ret (Inr ())
     | Inr (Some x) \<Rightarrow>
         if length (map_bytes (sec_data x) twoFAKeySecret) = 0 then ret (Inr ())
         else do {
           ok \<leftarrow> totpValidate (kt_otp t) code (map_bytes (sec_data x) twoFAKeySecret);
           if \<not> ok then ret (Inl ErrCodeInvalid)
           else save t (Some x) (fmap_of_list [(twoFAKeyEnabled, ''false'')])
         }
   }"

definition Validate :: "'e kube_two_fa \<Rightarrow> string \<Rightarrow> ('e, bool) prog" where
  "Validate t code = do {
     l \<leftarrow> load t;
     case l of
       Inl e \<Rightarrow> ret False
     | Inr None \<Rightarrow> ret False
     | Inr (Some x) \<Rightarrow> totpValidate (kt_otp t) code (map_bytes (sec_data x) twoFAKeySecret)
   }"

definition kube_two_factor :: "'e kube_two_fa \<Rightarrow> 'e two_fa" where
  "kube_two_factor t = \<lparr>tf_enabled = Enabled t, tf_setup = Setup t, tf_enable = Enable t,
     tf_disable = Disable t, tf_validate = Validate t\<rparr>"

section \<open>What the login relies on\<close>

text \<open>Asking whether 2FA is on and checking a code change nothing in the cluster.\<close>

locale two_factor =
  fixes tf :: "'e two_fa"
  assumes enabled_reads: "emits read_call (tf_enabled tf)"
    and validate_reads: "emits read_call (tf_validate tf code)"
begin

lemma runs_enabled: "runs (tf_enabled tf) (\<lambda>_ l. list_all read_call l)"
  using enabled_reads by (rule runs_emits)

lemma runs_validate: "runs (tf_validate tf code) (\<lambda>_ l. list_all read_call l)"
  using validate_reads by (rule runs_emits)

end

lemma emits_load [emits_intros]:
  "(\<And>r. P (CGetSecret (kt_namespace t) (kt_secretName t), r)) \<Longrightarrow> emits P (load t)"
  unfolding load_def by (intro emits_intros)

interpretation kube_2fa: two_factor "kube_two_factor t" for t
  by unfold_locales
    (auto simp: kube_two_factor_def Enabled_def Validate_def intro!: emits_intros)

section \<open>Running the operations\<close>

lemma run_load:
  "run_state (load t) w =
     (case k_getSecret (kt_kube t) (kt_namespace t) (kt_secretName t) (env w) of
        (s, e) \<Rightarrow> (case s of Inl x \<Rightarrow> if is_not_found x then Inr None else Inl x | Inr x \<Rightarrow> Inr (Some x),
          w\<lparr>env := e, trace := trace w @
            [(CGetSecret (kt_namespace t) (kt_secretName t), err_of s)]\<rparr>))"
  by (simp add: load_def run_simps split: prod.split)

end
