(* ===== verification/TwoFactorProps.thy ===== *)
theory TwoFactorProps
imports TwoFactor Fixtures
begin

text \<open>
  Two-factor authentication as a state machine: what is active and what is pending. The operations
  of \<open>KubeTwoFA\<close> on a cluster that stores Secrets refine the machine, whatever fails on the way.
\<close>

section \<open>The abstract machine\<close>

record tf_state =
  tfs_active :: "string option"
  tfs_pending :: "string option"

datatype tf_op = OpSetup | OpEnable string | OpDisable string

text \<open>
  One operation, \<open>V code s\<close> saying that a code is accepted for a secret. Any operation may fail and
  leave the state alone.
\<close>

inductive tf_step :: "(string \<Rightarrow> string \<Rightarrow> bool) \<Rightarrow> tf_state \<Rightarrow> tf_op \<Rightarrow> tf_state \<Rightarrow> bool" for V where
  tf_setup: "tf_step V st OpSetup (st\<lparr>tfs_pending := p\<rparr>)"
| tf_enable: "tfs_pending st = Some s \<Longrightarrow> V code s \<Longrightarrow>
    tf_step V st (OpEnable code) \<lparr>tfs_active = Some s, tfs_pending = None\<rparr>"
| tf_disable: "tfs_active st = Some s \<Longrightarrow> V code s \<Longrightarrow>
    tf_step V st (OpDisable code) \<lparr>tfs_active = None, tfs_pending = None\<rparr>"
| tf_off: "tfs_active st = None \<Longrightarrow> tf_step V st (OpDisable code) \<lparr>tfs_active = None, tfs_pending = None\<rparr>"
| tf_stay: "tf_step V st x st"

inductive tf_steps :: "(string \<Rightarrow> string \<Rightarrow> bool) \<Rightarrow> tf_state \<Rightarrow> tf_op list \<Rightarrow> tf_state \<Rightarrow> bool" for V where
  tf_none: "tf_steps V st [] st"
| tf_more: "tf_step V st x st1 \<Longrightarrow> tf_steps V st1 xs st2 \<Longrightarrow> tf_steps V st (x # xs) st2"

inductive_cases tf_setupE: "tf_step V st OpSetup st'"
inductive_cases tf_enableE: "tf_step V st (OpEnable code) st'"
inductive_cases tf_disableE: "tf_step V st (OpDisable code) st'"

lemma step_active:
  assumes "tf_step V st x st'" and "tfs_active st' = Some s"
  shows "tfs_active st = Some s \<or> (\<exists>code. x = OpEnable code \<and> V code s \<and> tfs_pending st = Some s)"
  using assms by cases auto

lemma step_pending:
  assumes "tf_step V st x st'" and "tfs_pending st' = Some s"
  shows "tfs_pending st = Some s \<or> x = OpSetup"
  using assms by cases auto

text \<open>A secret becomes active only through a set-up followed by an accepted code.\<close>

lemma steps_active:
  assumes "tf_steps V st xs st'" and "tfs_active st' = Some s"
  shows "tfs_active st = Some s \<or>
    (\<exists>code. OpEnable code \<in> set xs \<and> V code s \<and> (tfs_pending st = Some s \<or> OpSetup \<in> set xs))"
  using assms
proof (induction rule: tf_steps.induct)
  case (tf_more st x st1 xs st2)
  then consider "tfs_active st1 = Some s"
    | code where "OpEnable code \<in> set xs" "V code s" "tfs_pending st1 = Some s \<or> OpSetup \<in> set xs"
    by blast
  then show ?case
  proof cases
    case 1
    with step_active [OF tf_more.hyps(1)] show ?thesis by auto
  next
    case 2
    with step_pending [OF tf_more.hyps(1)] show ?thesis by auto
  qed
qed auto

section \<open>A cluster that stores Secrets\<close>

type_synonym 'e view = "'e \<Rightarrow> (string \<times> string) \<Rightarrow> secret option"

definition skey :: "secret \<Rightarrow> string \<times> string" where
  "skey x = (m_namespace (sec_meta x), m_name (sec_meta x))"

text \<open>
  The documented behaviour of Get, Create and Update on Secrets; each may also fail. \<open>stored\<close>: a
  successful write stores the data under the object's key, a failed one stores nothing.
\<close>

definition stored :: "'e view \<Rightarrow> secret \<Rightarrow> 'e \<Rightarrow> secret result \<times> 'e \<Rightarrow> bool" where
  "stored view s e x \<longleftrightarrow>
     (case fst x of
        Inl _ \<Rightarrow> view (snd x) = view e
      | Inr s' \<Rightarrow> sec_data s' = sec_data s \<and> skey s' = skey s \<and> view (snd x) = (view e)(skey s \<mapsto> s'))"

definition found :: "'e view \<Rightarrow> (string \<times> string) \<Rightarrow> 'e \<Rightarrow> secret result \<times> 'e \<Rightarrow> bool" where
  "found view key e x \<longleftrightarrow> view (snd x) = view e \<and>
     (case fst x of
        Inl err \<Rightarrow> is_not_found err \<longrightarrow> view e key = None
      | Inr s \<Rightarrow> view e key = Some s \<and> skey s = key)"

definition secret_store :: "'e kube \<Rightarrow> 'e view \<Rightarrow> bool" where
  "secret_store k view \<longleftrightarrow>
     (\<forall>ns n e. found view (ns, n) e (k_getSecret k ns n e)) \<and>
     (\<forall>s e. stored view s e (k_createSecret k s e)) \<and>
     (\<forall>s e. stored view s e (k_updateSecret k s e))"

text \<open>Generating and validating codes does not touch the cluster.\<close>

definition otp_apart :: "'e otp \<Rightarrow> 'e view \<Rightarrow> bool" where
  "otp_apart pk view \<longleftrightarrow>
     (\<forall>i a e. view (snd (o_generate pk i a e)) = view e) \<and>
     (\<forall>c s e. view (snd (o_validate pk c s e)) = view e)"

section \<open>The abstraction\<close>

definition data_at :: "'e view \<Rightarrow> (string \<times> string) \<Rightarrow> 'e \<Rightarrow> sdata" where
  "data_at view key e = (case view e key of None \<Rightarrow> fmempty | Some x \<Rightarrow> sec_data x)"

definition abs_2fa :: "sdata \<Rightarrow> tf_state" where
  "abs_2fa d =
     \<lparr>tfs_active = (if active_2fa d then Some (map_bytes d twoFAKeySecret) else None),
      tfs_pending = (if map_bytes d twoFAKeyPending = [] then None else Some (map_bytes d twoFAKeyPending))\<rparr>"

definition own_key :: "'e kube_two_fa \<Rightarrow> string \<times> string" where
  "own_key t = (kt_namespace t, kt_secretName t)"

definition tf_abs :: "'e view \<Rightarrow> 'e kube_two_fa \<Rightarrow> 'e state_of \<Rightarrow> tf_state" where
  "tf_abs view t w = abs_2fa (data_at view (own_key t) (env w))"

definition accepted :: "'e otp \<Rightarrow> string \<Rightarrow> string \<Rightarrow> bool" where
  "accepted pk code s \<longleftrightarrow> (\<exists>e. fst (o_validate pk code s e))"

fun run_op :: "'e kube_two_fa \<Rightarrow> tf_op \<Rightarrow> ('e, unit result) prog" where
  "run_op t OpSetup = do { r \<leftarrow> Setup t; ret (case r of Inl e \<Rightarrow> Inl e | Inr _ \<Rightarrow> Inr ()) }"
| "run_op t (OpEnable code) = Enable t code"
| "run_op t (OpDisable code) = Disable t code"

fun run_ops :: "'e kube_two_fa \<Rightarrow> tf_op list \<Rightarrow> ('e, unit) prog" where
  "run_ops t [] = ret ()"
| "run_ops t (x # xs) = do { _ \<leftarrow> run_op t x; run_ops t xs }"

lemma keys_2fa [simp]:
  "twoFAKeySecret \<noteq> twoFAKeyEnabled" "twoFAKeySecret \<noteq> twoFAKeyPending" "twoFAKeyEnabled \<noteq> twoFAKeyPending"
  "twoFAKeyEnabled \<noteq> twoFAKeySecret" "twoFAKeyPending \<noteq> twoFAKeySecret" "twoFAKeyPending \<noteq> twoFAKeyEnabled"
  by (simp_all add: twoFAKeySecret_def twoFAKeyEnabled_def twoFAKeyPending_def)

lemma abs_2fa_setup: "abs_2fa (fmupd twoFAKeyPending p d) = (abs_2fa d)\<lparr>tfs_pending := (if p = [] then None else Some p)\<rparr>"
  by (simp add: abs_2fa_def active_2fa_def map_bytes_def)

lemma abs_2fa_enabled:
  "p \<noteq> [] \<Longrightarrow> abs_2fa (fmap_of_list [(twoFAKeySecret, p), (twoFAKeyEnabled, ''true'')]) =
     \<lparr>tfs_active = Some p, tfs_pending = None\<rparr>"
  by (simp add: abs_2fa_def active_2fa_def map_bytes_def fmlookup_of_list)

lemma abs_2fa_disabled:
  "abs_2fa (fmap_of_list [(twoFAKeyEnabled, ''false'')]) = \<lparr>tfs_active = None, tfs_pending = None\<rparr>"
  by (simp add: abs_2fa_def active_2fa_def map_bytes_def fmlookup_of_list)

lemma abs_2fa_pending: "map_bytes d twoFAKeyPending \<noteq> [] \<Longrightarrow> tfs_pending (abs_2fa d) = Some (map_bytes d twoFAKeyPending)"
  by (simp add: abs_2fa_def)

lemma abs_2fa_active:
  "tfs_active (abs_2fa d) = Some (map_bytes d twoFAKeySecret) \<or> tfs_active (abs_2fa d) = None"
  by (simp add: abs_2fa_def)

section \<open>One operation\<close>

text \<open>What \<open>load\<close> and \<open>save\<close> do to the view.\<close>

lemma load_view:
  assumes "secret_store (kt_kube t) view" and "run_state (load t) w = (r, w')"
  shows "view (env w') = view (env w) \<and>
    (case r of Inl _ \<Rightarrow> True
     | Inr x \<Rightarrow> view (env w) (own_key t) = x \<and> (case x of None \<Rightarrow> True | Some s \<Rightarrow> skey s = own_key t))"
proof -
  obtain s e where g: "k_getSecret (kt_kube t) (kt_namespace t) (kt_secretName t) (env w) = (s, e)"
    by fastforce
  with assms(1) have "found view (own_key t) (env w) (s, e)"
    unfolding secret_store_def own_key_def by metis
  with assms(2) g show ?thesis
    by (cases s) (auto simp: found_def run_load own_key_def split: if_splits)
qed

lemma save_view:
  assumes "secret_store (kt_kube t) view" and "run_state (save t x d) w = (r, w')"
    and "case x of None \<Rightarrow> True | Some s \<Rightarrow> skey s = own_key t"
  shows "(case r of
      Inl _ \<Rightarrow> view (env w') = view (env w)
    | Inr _ \<Rightarrow> data_at view (own_key t) (env w') = d \<and>
        (\<forall>key. key \<noteq> own_key t \<longrightarrow> view (env w') key = view (env w) key))"
proof -
  define s where "s = (case x of
      None \<Rightarrow> \<lparr>sec_meta = new_meta (kt_secretName t) (kt_namespace t) Map.empty,
             sec_type = ''Opaque'', sec_data = d\<rparr>
    | Some y \<Rightarrow> y\<lparr>sec_data := d\<rparr>)"
  have s: "skey s = own_key t" "sec_data s = d"
    using assms(3) by (auto simp: s_def skey_def own_key_def new_meta_def split: option.splits)
  obtain y e where "stored view s (env w) (y, e)"
    and r: "r = (case y of Inl e \<Rightarrow> Inl e | Inr _ \<Rightarrow> Inr ())" "env w' = e"
    using assms(1,2) unfolding secret_store_def s_def save_def
    by (cases x) (auto simp: run_simps split: prod.splits, metis+)
  then show ?thesis
    using s by (cases y) (auto simp: stored_def data_at_def)
qed

definition refines_step :: "'e kube_two_fa \<Rightarrow> 'e view \<Rightarrow> tf_op \<Rightarrow> 'e state_of \<Rightarrow> 'e state_of \<Rightarrow> bool" where
  "refines_step t view x w w' \<longleftrightarrow>
     tf_step (accepted (kt_otp t)) (tf_abs view t w) x (tf_abs view t w') \<and>
     (\<forall>key. key \<noteq> own_key t \<longrightarrow> view (env w') key = view (env w) key)"

lemma refines_stay: "view (env w') = view (env w) \<Longrightarrow> refines_step t view x w w'"
  by (simp add: refines_step_def tf_abs_def data_at_def tf_stay)

lemma load_data:
  assumes "secret_store (kt_kube t) view" and "run_state (load t) w = (Inr x, w1)"
  shows "data_at view (own_key t) (env w) = (case x of None \<Rightarrow> fmempty | Some s \<Rightarrow> sec_data s)"
  using load_view [OF assms] by (simp add: data_at_def)

text \<open>A save of data that the machine allows as the next state.\<close>

lemma refines_save:
  assumes store: "secret_store (kt_kube t) view" and same: "view (env v) = view (env w)"
    and save: "run_state (save t x d) v = (r, w')"
    and x: "case x of None \<Rightarrow> True | Some s \<Rightarrow> skey s = own_key t"
    and step: "tf_step (accepted (kt_otp t)) (tf_abs view t w) op (abs_2fa d)"
  shows "refines_step t view op w w'"
  using save_view [OF store save x] same step
  by (cases r) (auto simp: refines_step_def tf_abs_def intro: refines_stay [unfolded refines_step_def tf_abs_def, THEN conjunct1])

lemma validate_view:
  "otp_apart pk view \<Longrightarrow> run_state (totpValidate pk c s) w = (b, w') \<Longrightarrow>
     view (env w') = view (env w) \<and> (b \<longrightarrow> accepted pk c s)"
  by (auto simp: otp_apart_def accepted_def run_simps split: prod.splits) (metis snd_conv fst_conv)+

lemma generate_view:
  "otp_apart pk view \<Longrightarrow> run_state (totpGenerate pk i a) w = (b, w') \<Longrightarrow> view (env w') = view (env w)"
  by (auto simp: otp_apart_def run_simps split: prod.splits) (metis snd_conv)

lemma Setup_refines:
  assumes store: "secret_store (kt_kube t) view" and otp: "otp_apart (kt_otp t) view"
    and run: "run_state (Setup t) w = (r, w')"
  shows "refines_step t view OpSetup w w'"
proof -
  obtain g w1 where g: "run_state (totpGenerate (kt_otp t) (kt_issuer t) (kt_account t)) w = (g, w1)"
    by fastforce
  note v1 = generate_view [OF otp g]
  obtain l w2 where l: "run_state (load t) w1 = (l, w2)"
    by fastforce
  note v2 = load_view [OF store l]
  show ?thesis
  proof (cases g)
    case (Inl e)
    with run g v1 show ?thesis by (auto simp: Setup_def intro: refines_stay)
  next
    case key: (Inr key)
    show ?thesis
    proof (cases l)
      case (Inl e)
      with run g l key v1 v2 show ?thesis by (auto simp: Setup_def intro: refines_stay)
    next
      case x: (Inr x)
      let ?d = "fmupd twoFAKeyPending (ok_secret key) (case x of None \<Rightarrow> fmempty | Some y \<Rightarrow> fmadd fmempty (sec_data y))"
      obtain r' where save: "run_state (save t x ?d) w2 = (r', w')"
        using run g l key x by (auto simp: Setup_def split: prod.splits sum.splits)
      have "data_at view (own_key t) (env w1) = (case x of None \<Rightarrow> fmempty | Some s \<Rightarrow> sec_data s)"
        using load_data [OF store] l x by blast
      then have "tf_step (accepted (kt_otp t)) (tf_abs view t w) OpSetup (abs_2fa ?d)"
        using v1 unfolding tf_abs_def abs_2fa_setup
        by (cases x) (auto simp: data_at_def intro: tf_setup)
      with refines_save [OF store _ save] v1 v2 x show ?thesis by auto
    qed
  qed
qed

lemma Enable_refines:
  assumes store: "secret_store (kt_kube t) view" and otp: "otp_apart (kt_otp t) view"
    and run: "run_state (Enable t code) w = (r, w')"
  shows "refines_step t view (OpEnable code) w w'"
proof -
  obtain l w1 where l: "run_state (load t) w = (l, w1)"
    by fastforce
  note v1 = load_view [OF store l]
  show ?thesis
  proof (cases "\<exists>x. l = Inr (Some x) \<and> map_bytes (sec_data x) twoFAKeyPending \<noteq> []")
    case False
    with run l have "w' = w1"
      by (auto simp: Enable_def split: sum.splits option.splits)
    with v1 show ?thesis by (auto intro: refines_stay)
  next
    case True
    then obtain x where x: "l = Inr (Some x)" and p: "map_bytes (sec_data x) twoFAKeyPending \<noteq> []"
      by blast
    obtain b w2 where b: "run_state (totpValidate (kt_otp t) code (map_bytes (sec_data x) twoFAKeyPending)) w1 = (b, w2)"
      by fastforce
    note v2 = validate_view [OF otp b]
    show ?thesis
    proof (cases b)
      case False
      with run l x p b v1 v2 show ?thesis by (auto simp: Enable_def intro: refines_stay)
    next
      case True
      let ?d = "fmap_of_list [(twoFAKeySecret, map_bytes (sec_data x) twoFAKeyPending), (twoFAKeyEnabled, ''true'')]"
      have save: "run_state (save t (Some x) ?d) w2 = (r, w')"
        using run l x p b True by (simp add: Enable_def)
      have "data_at view (own_key t) (env w) = sec_data x"
        using load_data [OF store] l x by fastforce
      then have "tf_step (accepted (kt_otp t)) (tf_abs view t w) (OpEnable code) (abs_2fa ?d)"
        using v2 True p unfolding tf_abs_def abs_2fa_enabled [OF p]
        by (auto intro: tf_enable abs_2fa_pending)
      with refines_save [OF store _ save] v1 v2 x show ?thesis by auto
    qed
  qed
qed

lemma Disable_refines:
  assumes store: "secret_store (kt_kube t) view" and otp: "otp_apart (kt_otp t) view"
    and run: "run_state (Disable t code) w = (r, w')"
  shows "refines_step t view (OpDisable code) w w'"
proof -
  obtain l w1 where l: "run_state (load t) w = (l, w1)"
    by fastforce
  note v1 = load_view [OF store l]
  show ?thesis
  proof (cases "\<exists>x. l = Inr (Some x) \<and> map_bytes (sec_data x) twoFAKeySecret \<noteq> []")
    case False
    with run l have "w' = w1"
      by (auto simp: Disable_def split: sum.splits option.splits)
    with v1 show ?thesis by (auto intro: refines_stay)
  next
    case True
    then obtain x where x: "l = Inr (Some x)" and p: "map_bytes (sec_data x) twoFAKeySecret \<noteq> []"
      by blast
    obtain b w2 where b: "run_state (totpValidate (kt_otp t) code (map_bytes (sec_data x) twoFAKeySecret)) w1 = (b, w2)"
      by fastforce
    note v2 = validate_view [OF otp b]
    show ?thesis
    proof (cases b)
      case False
      with run l x p b v1 v2 show ?thesis by (auto simp: Disable_def intro: refines_stay)
    next
      case True
      let ?d = "fmap_of_list [(twoFAKeyEnabled, ''false'')]"
      have save: "run_state (save t (Some x) ?d) w2 = (r, w')"
        using run l x p b True by (simp add: Disable_def)
      have "data_at view (own_key t) (env w) = sec_data x"
        using load_data [OF store] l x by fastforce
      then have "tf_step (accepted (kt_otp t)) (tf_abs view t w) (OpDisable code) (abs_2fa ?d)"
        using v2 True abs_2fa_active [of "sec_data x"] unfolding tf_abs_def abs_2fa_disabled
        by (auto intro: tf_disable tf_off)
      with refines_save [OF store _ save] v1 v2 x show ?thesis by auto
    qed
  qed
qed

lemma run_op_step:
  assumes "secret_store (kt_kube t) view" and "otp_apart (kt_otp t) view"
  shows "refines_step t view x w (snd (run_state (run_op t x) w))"
proof (cases x)
  case OpSetup
  obtain r w' where "run_state (Setup t) w = (r, w')" by fastforce
  with Setup_refines [OF assms this] OpSetup show ?thesis by simp
next
  case (OpEnable code)
  obtain r w' where "run_state (Enable t code) w = (r, w')" by fastforce
  with Enable_refines [OF assms this] OpEnable show ?thesis by simp
next
  case (OpDisable code)
  obtain r w' where "run_state (Disable t code) w = (r, w')" by fastforce
  with Disable_refines [OF assms this] OpDisable show ?thesis by simp
qed

text \<open>
  C10. Two-factor authentication is the state machine: on a cluster that stores Secrets, setting up,
  enabling and disabling each make a step of it, whichever call fails, and touch no other Secret. In
  particular a set-up never changes what is active, and enabling or disabling needs a code that is
  accepted for the pending or the active secret.
\<close>

theorem two_fa_refines:
  assumes "secret_store (kt_kube t) view" and "otp_apart (kt_otp t) view"
  shows "refines_step t view x w (snd (run_state (run_op t x) w))"
  using assms by (rule run_op_step)

text \<open>A cluster and a TOTP package that keep these laws.\<close>

definition mem_view :: "mem view" where
  "mem_view e key = (case mm_secrets e key of
     None \<Rightarrow> None | Some x \<Rightarrow> if skey x = key then Some x else None)"

definition store_kube :: "mem kube" where
  "store_kube = mem_kube\<lparr>k_getSecret := \<lambda>ns n e. (mem_get (mem_view e) (ns, n), e)\<rparr>"

definition mem_otp :: "mem otp" where
  "mem_otp = \<lparr>o_generate = \<lambda>i a e. (Inr \<lparr>ok_secret = ''JBSWY3DP'', ok_url = ''otpauth://totp''\<rparr>, e),
     o_validate = \<lambda>code s e. (code = ''123456'', e),
     o_image = \<lambda>key x y. Inr ''image'', o_pngEncode = \<lambda>img. Inr img\<rparr>"

definition mem_2fa :: "mem kube_two_fa" where
  "mem_2fa = \<lparr>kt_kube = store_kube, kt_otp = mem_otp, kt_namespace = ''wordpress-system'',
     kt_secretName = ''wordpress-admin-2fa'', kt_issuer = ''WordPress Manager'', kt_account = ''admin''\<rparr>"

lemma mem_view_upd: "mem_view (e\<lparr>mm_secrets := (mm_secrets e)(meta_key (sec_meta s) \<mapsto> s)\<rparr>) = (mem_view e)(skey s \<mapsto> s)"
  by (auto simp: fun_eq_iff mem_view_def skey_def meta_key_def)

lemma store_kube_stores: "secret_store store_kube mem_view"
  by (auto simp: secret_store_def store_kube_def found_def stored_def mem_kube_def mem_view_upd
      mem_get_def mem_view_def split: option.splits)

lemma mem_otp_apart: "otp_apart mem_otp mem_view"
  by (simp add: otp_apart_def mem_otp_def)

theorem two_fa_refines_witness:
  "refines_step mem_2fa mem_view OpSetup mem_empty (snd (run_state (run_op mem_2fa OpSetup) mem_empty))"
  by (rule two_fa_refines) (simp_all add: mem_2fa_def store_kube_stores mem_otp_apart)

section \<open>Histories\<close>

lemma run_ops_refines:
  assumes "secret_store (kt_kube t) view" and "otp_apart (kt_otp t) view"
  shows "tf_steps (accepted (kt_otp t)) (tf_abs view t w) xs (tf_abs view t (snd (run_state (run_ops t xs) w)))"
proof (induction xs arbitrary: w)
  case (Cons x xs)
  obtain r w1 where 1: "run_state (run_op t x) w = (r, w1)"
    by fastforce
  with run_op_step [OF assms, of x w] Cons.IH [of w1] show ?case
    by (auto simp: refines_step_def intro: tf_more)
qed (simp add: tf_none)

text \<open>
  C24. Nobody is locked out by an unverified secret: from a state in which 2FA is neither active nor
  pending, whatever sequence of set-ups, enables and disables is run, if a secret is active in the
  end then a set-up was made and a code accepted for exactly that secret was presented to enable it.
\<close>

theorem active_secret_was_verified:
  assumes "secret_store (kt_kube t) view" and "otp_apart (kt_otp t) view"
    and "tf_abs view t w = \<lparr>tfs_active = None, tfs_pending = None\<rparr>"
    and "tfs_active (tf_abs view t (snd (run_state (run_ops t xs) w))) = Some s"
  shows "OpSetup \<in> set xs \<and> (\<exists>code. OpEnable code \<in> set xs \<and> accepted (kt_otp t) code s)"
  using steps_active [OF run_ops_refines [OF assms(1,2), of w xs] assms(4)] assms(3) by auto

lemma mem_2fa_run:
  "tfs_active (tf_abs mem_view mem_2fa
     (snd (run_state (run_ops mem_2fa [OpSetup, OpEnable ''123456'']) mem_empty))) = Some ''JBSWY3DP''"
  by (simp add: mem_2fa_def Setup_def Enable_def run_simps run_load save_def mem_otp_def store_kube_def
      mem_kube_def mem_empty_def mem_get_def mem_view_def not_found_def new_meta_def meta_key_def
      skey_def map_bytes_def qrDataURI_def tf_abs_def data_at_def own_key_def abs_2fa_def active_2fa_def
      fmlookup_of_list)

theorem active_secret_was_verified_witness:
  "OpSetup \<in> set [OpSetup, OpEnable ''123456''] \<and>
   (\<exists>code. OpEnable code \<in> set [OpSetup, OpEnable ''123456''] \<and> accepted (kt_otp mem_2fa) code ''JBSWY3DP'')"
proof (rule active_secret_was_verified)
  show "secret_store (kt_kube mem_2fa) mem_view" by (simp add: mem_2fa_def store_kube_stores)
  show "otp_apart (kt_otp mem_2fa) mem_view" by (simp add: mem_2fa_def mem_otp_apart)
  show "tf_abs mem_view mem_2fa mem_empty = \<lparr>tfs_active = None, tfs_pending = None\<rparr>"
    by (simp add: tf_abs_def data_at_def mem_view_def mem_empty_def abs_2fa_def active_2fa_def map_bytes_def)
  show "tfs_active (tf_abs mem_view mem_2fa
     (snd (run_state (run_ops mem_2fa [OpSetup, OpEnable ''123456'']) mem_empty))) = Some ''JBSWY3DP''"
    by (rule mem_2fa_run)
qed

end
