(* ===== verification/SiteDto.thy ===== *)
theory SiteDto
imports Workloads
begin

text \<open>
  The data of the admin API: \<open>SiteDTO\<close> with its conversions (internal/apiserver/handlers.go), the
  diagnostic records of internal/apiserver/status.go, and the functions that derive them from a
  site, a pod or an event.
\<close>

section \<open>SiteDTO\<close>

record site_dto =
  sd_name :: string
  sd_domain :: string
  sd_aliases :: "string list"
  sd_image :: string
  sd_replicas :: i32
  sd_tlsEnabled :: bool
  sd_tlsIssuer :: string
  sd_ingressClass :: string
  sd_tablePrefix :: string
  sd_phpConfig :: string
  sd_phpIni :: string
  sd_forceHTTPS :: "bool option"
  sd_suspended :: bool
  sd_phase :: string
  sd_message :: string
  sd_url :: string
  sd_databaseName :: string
  sd_databaseUser :: string

text \<open>The message of the condition \<open>Ready\<close>, else of the last one.\<close>

fun ready_message :: "condition list \<Rightarrow> string option" where
  "ready_message [] = None"
| "ready_message (c # cs) = (if c_type c = ''Ready'' then Some (c_message c) else ready_message cs)"

definition latestConditionMessage :: "site \<Rightarrow> string" where
  "latestConditionMessage s =
     (case ready_message (ss_conditions (site_status s)) of
        Some m \<Rightarrow> m
      | None \<Rightarrow> if ss_conditions (site_status s) \<noteq> [] then c_message (last (ss_conditions (site_status s)))
                else [])"

definition toDTO :: "site \<Rightarrow> site_dto" where
  "toDTO s =
     \<lparr>sd_name = site_name s, sd_domain = sp_domain (site_spec s), sd_aliases = sp_aliases (site_spec s),
      sd_image = sp_image (site_spec s),
      sd_replicas = (case sp_replicas (site_spec s) of None \<Rightarrow> 1 | Some r \<Rightarrow> r),
      sd_tlsEnabled = tls_enabled (sp_tls (site_spec s)), sd_tlsIssuer = tls_issuer (sp_tls (site_spec s)),
      sd_ingressClass = sp_ingressClassName (site_spec s), sd_tablePrefix = sp_tablePrefix (site_spec s),
      sd_phpConfig = sp_phpConfig (site_spec s), sd_phpIni = sp_phpIni (site_spec s),
      sd_forceHTTPS = Some (ForceHTTPSEnabled s), sd_suspended = sp_suspend (site_spec s),
      sd_phase = ss_phase (site_status s), sd_message = latestConditionMessage s,
      sd_url = ss_url (site_status s), sd_databaseName = ss_databaseName (site_status s),
      sd_databaseUser = ss_databaseUser (site_status s)\<rparr>"

definition toSite :: "site_dto \<Rightarrow> string \<Rightarrow> site" where
  "toSite d ns = new_site (sd_name d) ns (empty_spec
     \<lparr>sp_domain := sd_domain d, sp_aliases := sd_aliases d, sp_image := sd_image d,
      sp_replicas := Some (if sd_replicas d = 0 then 1 else sd_replicas d),
      sp_ingressClassName := sd_ingressClass d, sp_tablePrefix := sd_tablePrefix d,
      sp_phpConfig := sd_phpConfig d, sp_phpIni := sd_phpIni d, sp_forceHTTPS := sd_forceHTTPS d,
      sp_tls := \<lparr>tls_enabled = sd_tlsEnabled d, tls_issuer = sd_tlsIssuer d, tls_secretName = []\<rparr>\<rparr>)"

section \<open>Diagnostics\<close>

record condition_dto =
  cd_type :: string
  cd_status :: string
  cd_reason :: string
  cd_message :: string
  cd_lastTransition :: string

record pod_status_dto =
  pd_name :: string
  pd_phase :: string
  pd_ready :: string
  pd_reason :: string
  pd_message :: string
  pd_restarts :: i32
  pd_node :: string
  pd_created :: string

record event_dto =
  ed_type :: string
  ed_reason :: string
  ed_message :: string
  ed_count :: i32
  ed_object :: string
  ed_lastSeen :: string

record site_status_dto =
  sx_phase :: string
  sx_message :: string
  sx_conditions :: "condition_dto list"
  sx_pods :: "pod_status_dto list"
  sx_events :: "event_dto list"

text \<open>
  \<open>fmt\<close> is \<open>Time.Format(time.RFC3339)\<close>, whose result depends on the time zone of the process; the
  code applies it to times that are not zero.
\<close>

definition time_text :: "(gotime \<Rightarrow> string) \<Rightarrow> gotime \<Rightarrow> string" where
  "time_text fmt t = (if t = ZeroTime then [] else fmt t)"

definition conditionDTO :: "(gotime \<Rightarrow> string) \<Rightarrow> condition \<Rightarrow> condition_dto" where
  "conditionDTO fmt c = \<lparr>cd_type = c_type c, cd_status = c_status c, cd_reason = c_reason c,
     cd_message = c_message c, cd_lastTransition = time_text fmt (c_lastTransition c)\<rparr>"

record pod_scan =
  pn_ready :: nat
  pn_restarts :: i32
  pn_reason :: string
  pn_message :: string

definition scan_container :: "container_state \<Rightarrow> pod_scan \<Rightarrow> pod_scan" where
  "scan_container cs a =
     (let b = a\<lparr>pn_ready := pn_ready a + (if cs_ready cs then 1 else 0),
                pn_restarts := pn_restarts a + cs_restartCount cs\<rparr>
      in if pn_reason a \<noteq> [] then b
         else case cs_waiting cs of
           Some (r, m) \<Rightarrow> b\<lparr>pn_reason := r, pn_message := m\<rparr>
         | None \<Rightarrow> (case cs_terminated cs of
             Some (r, m) \<Rightarrow> if r \<noteq> [] then b\<lparr>pn_reason := r, pn_message := m\<rparr> else b
           | None \<Rightarrow> b))"

definition scan_condition :: "pod_condition \<Rightarrow> pod_scan \<Rightarrow> pod_scan" where
  "scan_condition c a =
     (if pc_type c = ''PodScheduled'' \<and> pc_status c = ''False''
      then a\<lparr>pn_reason := pc_reason c, pn_message := pc_message c\<rparr> else a)"

definition podStatus :: "(gotime \<Rightarrow> string) \<Rightarrow> pod \<Rightarrow> pod_status_dto" where
  "podStatus fmt p =
     (let a = fold scan_container (pod_statuses p)
            \<lparr>pn_ready = 0, pn_restarts = 0, pn_reason = [], pn_message = []\<rparr>;
          b = (if pn_reason a = [] \<and> pod_phase p = ''Pending''
               then fold scan_condition (pod_conditions p) a else a)
      in \<lparr>pd_name = m_name (pod_meta p), pd_phase = pod_phase p,
          pd_ready = itoa (pn_ready b) @ ''/'' @ itoa (length (pod_containers p)),
          pd_reason = (if pn_reason b = [] then pod_reason p else pn_reason b),
          pd_message = pn_message b, pd_restarts = pn_restarts b, pd_node = pod_nodeName p,
          pd_created = time_text fmt (m_creation (pod_meta p))\<rparr>)"

definition eventDTO :: "(gotime \<Rightarrow> string) \<Rightarrow> kube_event \<Rightarrow> event_dto" where
  "eventDTO fmt e =
     (let last = (if ke_lastTimestamp e = ZeroTime then ke_eventTime e else ke_lastTimestamp e)
      in \<lparr>ed_type = ke_type e, ed_reason = ke_reason e, ed_message = ke_message e,
          ed_count = (if ke_count e = 0 then 1 else ke_count e),
          ed_object = ke_kind e @ ''/'' @ ke_name e, ed_lastSeen = time_text fmt last\<rparr>)"

text \<open>Which events are shown: the object is the site, or its name starts with the site's and a hyphen.\<close>

definition event_of_site :: "string \<Rightarrow> kube_event \<Rightarrow> bool" where
  "event_of_site n e \<longleftrightarrow> ke_name e = n \<or> has_prefix (ke_name e) (n @ ''-'')"

text \<open>Go compares strings bytewise.\<close>

fun str_less :: "string \<Rightarrow> string \<Rightarrow> bool" where
  "str_less _ [] = False"
| "str_less [] (_ # _) = True"
| "str_less (a # as) (b # bs) =
     (byte_of a < byte_of b \<or> (a = b \<and> str_less as bs))"

text \<open>
  \<open>arrange\<close> is what \<open>sort.Slice\<close> makes of the events: newest first; the order among equal ones is
  not specified.
\<close>

definition shown_events ::
  "(gotime \<Rightarrow> string) \<Rightarrow> (event_dto list \<Rightarrow> event_dto list) \<Rightarrow> string \<Rightarrow> kube_event list \<Rightarrow> event_dto list" where
  "shown_events fmt arrange n es =
     take 25 (arrange (map (eventDTO fmt) (filter (event_of_site n) es)))"

end
