(* ===== verification/Auth.thy ===== *)
theory Auth
imports Externals
begin

text \<open>
  internal/apiserver/auth.go: the admin's password and the session tokens, and the shapes of an HTTP
  request and response. bcrypt and the JWT package are parameters.
\<close>

section \<open>bcrypt and JWT\<close>

record claims =
  jc_subject :: string
  jc_expiresAt :: gotime
  jc_issuedAt :: gotime
  jc_issuer :: string

text \<open>
  \<open>a_sign\<close> signs claims with HS256; \<open>a_parse\<close> is \<open>jwt.ParseWithClaims\<close>: it reads the clock, asks the
  key function for the key (telling it whether the token's method is an HMAC one) and returns the
  subject.
\<close>

record 'e auth_pkg =
  a_bcryptGenerate :: "string \<Rightarrow> 'e \<Rightarrow> string result \<times> 'e"
  a_bcryptCompare :: "string \<Rightarrow> string \<Rightarrow> bool"
  a_sign :: "claims \<Rightarrow> string \<Rightarrow> 'e \<Rightarrow> string result \<times> 'e"
  a_parse :: "string \<Rightarrow> (bool \<Rightarrow> string result) \<Rightarrow> 'e \<Rightarrow> string result \<times> 'e"

text \<open>\<open>t.Add(d)\<close> with \<open>d\<close> in seconds; the zero time is 62135596800 seconds before the epoch.\<close>

fun time_add :: "gotime \<Rightarrow> int \<Rightarrow> gotime" where
  "time_add ZeroTime d = At (d - 62135596800)"
| "time_add (At t) d = At (t + d)"

section \<open>Authenticator\<close>

record 'e authenticator =
  au_pkg :: "'e auth_pkg"
  au_kube :: "'e kube"
  au_username :: string
  au_passwordHash :: string
  au_jwtSecret :: string
  au_ttl :: int

definition NewAuthenticator ::
  "'e auth_pkg \<Rightarrow> 'e kube \<Rightarrow> string \<Rightarrow> string \<Rightarrow> string \<Rightarrow> string \<Rightarrow> int \<Rightarrow>
     ('e, 'e authenticator result) prog" where
  "NewAuthenticator pkg k username passwordHash plaintext jwtSecret ttl =
     (if passwordHash = [] \<and> plaintext = [] then ret (Inl (GoErr ''no admin password configured''))
      else do {
        h \<leftarrow> (if passwordHash = [] then call CHashPassword (a_bcryptGenerate pkg plaintext)
              else ret (Inr passwordHash));
        case h of
          Inl e \<Rightarrow> ret (Inl e)
        | Inr hash \<Rightarrow>
            if jwtSecret = [] then ret (Inl (GoErr ''JWT_SECRET is required''))
            else ret (Inr \<lparr>au_pkg = pkg, au_kube = k, au_username = username, au_passwordHash = hash,
              au_jwtSecret = jwtSecret, au_ttl = ttl\<rparr>)
      })"

definition VerifyPassword :: "'e authenticator \<Rightarrow> string \<Rightarrow> string \<Rightarrow> bool" where
  "VerifyPassword a username password =
     (if username \<noteq> au_username a then False
      else a_bcryptCompare (au_pkg a) (au_passwordHash a) password)"

definition Issue :: "'e authenticator \<Rightarrow> string \<Rightarrow> ('e, string result) prog" where
  "Issue a username = do {
     t1 \<leftarrow> timeNow (au_kube a);
     t2 \<leftarrow> timeNow (au_kube a);
     call (CSignToken username) (a_sign (au_pkg a)
       \<lparr>jc_subject = username, jc_expiresAt = time_add t1 (au_ttl a), jc_issuedAt = t2,
        jc_issuer = ''wordpress-manager''\<rparr> (au_jwtSecret a))
   }"

text \<open>The key function given to the parser: only HMAC tokens get a key.\<close>

definition parse_key :: "'e authenticator \<Rightarrow> bool \<Rightarrow> string result" where
  "parse_key a hmac = (if \<not> hmac then Inl (GoErr ''unexpected signing method'') else Inr (au_jwtSecret a))"

definition parse_token :: "'e authenticator \<Rightarrow> string \<Rightarrow> ('e, string result) prog" where
  "parse_token a token = call (CParseToken token) (a_parse (au_pkg a) token (parse_key a))"

section \<open>The middleware\<close>

text \<open>
  \<open>guard a header next\<close> is \<open>Middleware\<close>: \<open>next\<close> runs with the token's subject as the user, and
  \<open>refuse\<close> is \<open>writeError\<close> with status 401.
\<close>

definition guard ::
  "'e authenticator \<Rightarrow> string \<Rightarrow> (string \<Rightarrow> ('e, 'r) prog) \<Rightarrow> (string \<Rightarrow> 'r) \<Rightarrow> ('e, 'r) prog" where
  "guard a header next refuse =
     (if \<not> has_prefix header ''Bearer '' then ret (refuse ''missing bearer token'')
      else do {
        u \<leftarrow> parse_token a (trim_prefix header ''Bearer '');
        case u of Inl e \<Rightarrow> ret (refuse ''invalid token'') | Inr user \<Rightarrow> next user
      })"

section \<open>Lemmas\<close>

lemma emits_parse_token [emits_intros]: "(\<And>r. P (CParseToken t, r)) \<Longrightarrow> emits P (parse_token a t)"
  unfolding parse_token_def by (intro emits_intros)

lemma runs_parse_token [wp]: "(\<And>r. Q r [(CParseToken t, err_of r)]) \<Longrightarrow> runs (parse_token a t) Q"
  unfolding parse_token_def by (intro wp)

lemma emits_Issue [emits_intros]:
  "P (CNow, None) \<Longrightarrow> (\<And>r. P (CSignToken u, r)) \<Longrightarrow> emits P (Issue a u)"
  unfolding Issue_def by (intro emits_intros)

lemma runs_Issue [wp]:
  "(\<And>r. Q r [(CNow, None), (CNow, None), (CSignToken u, err_of r)]) \<Longrightarrow> runs (Issue a u) Q"
  unfolding Issue_def by (intro wp) simp

end
