(* ===== verification/Handlers.thy ===== *)
theory Handlers
imports SiteDto Auth TwoFactor Metrics
begin

text \<open>
  internal/apiserver/handlers.go and status.go: the handlers of the site endpoints. A handler is a
  program from the request to the response. JSON and YAML (encoding/json, sigs.k8s.io/yaml) are
  parameters of the server, functions between texts and values; \<open>writeJSON\<close> is the response with
  the value it encodes.
\<close>

section \<open>Requests, responses, the server\<close>

text \<open>A body: the bytes that arrive, then the end of the stream or an error.\<close>

record body =
  bd_bytes :: string
  bd_error :: "go_error option"

record request =
  rq_method :: string
  rq_path :: string
  rq_auth :: string
  rq_body :: body

datatype payload =
    NoBody
  | RawBody string
  | ErrorBody string
  | SiteBody site_dto
  | SitesBody "site_dto list"
  | StatusBody site_status_dto
  | YamlBody string string
  | TokenBody string
  | UserBody string
  | EnabledBody bool
  | SetupBody string string string
  | MetricsBody cluster_metrics "site_usage list"

record response =
  rs_code :: nat
  rs_body :: payload

definition writeJSON :: "nat \<Rightarrow> payload \<Rightarrow> response" where
  "writeJSON code v = \<lparr>rs_code = code, rs_body = v\<rparr>"

definition writeError :: "nat \<Rightarrow> string \<Rightarrow> response" where
  "writeError code msg = writeJSON code (ErrorBody msg)"

definition notFoundOr500 :: "go_error \<Rightarrow> response" where
  "notFoundOr500 e = (if is_not_found e then writeError 404 ''site not found'' else writeError 500 (error_text e))"

text \<open>The document \<open>crYAML\<close> marshals.\<close>

record cr_doc =
  cr_apiVersion :: string
  cr_kind :: string
  cr_name :: string
  cr_namespace :: string
  cr_annotations :: "sdata option"
  cr_spec :: site_spec

record login_body =
  lb_username :: string
  lb_password :: string
  lb_totp :: string

record codec =
  cx_site :: "body \<Rightarrow> site_dto result"
  cx_login :: "body \<Rightarrow> login_body result"
  cx_code :: "body \<Rightarrow> string result"
  cx_yamlSite :: "string \<Rightarrow> site result"
  cx_yamlDoc :: "cr_doc \<Rightarrow> string result"
  cx_yamlObject :: "owned \<Rightarrow> string result"
  cx_time :: "gotime \<Rightarrow> string"
  cx_arrange :: "event_dto list \<Rightarrow> event_dto list"

record 'e server =
  sv_kube :: "'e kube"
  sv_auth :: "'e authenticator"
  sv_namespace :: string
  sv_dbHost :: string
  sv_dbPort :: string
  sv_metrics :: "'e provider option"
  sv_twoFA :: "'e two_fa option"
  sv_reconcile :: "(string \<Rightarrow> string \<Rightarrow> ('e, unit result) prog) option"
  sv_globals :: globals
  sv_codec :: codec

type_synonym 'e handler = "string \<Rightarrow> request \<Rightarrow> ('e, response) prog"

definition maybeReconcile :: "'e server \<Rightarrow> string \<Rightarrow> ('e, unit) prog" where
  "maybeReconcile sv n =
     (case sv_reconcile sv of
        None \<Rightarrow> ret ()
      | Some f \<Rightarrow> do { _ \<leftarrow> f (sv_namespace sv) n; ret () })"

text \<open>With a reconciler, the site is read again; if that fails, it stays as it is.\<close>

definition reread :: "'e server \<Rightarrow> site \<Rightarrow> ('e, site) prog" where
  "reread sv s =
     (case sv_reconcile sv of
        None \<Rightarrow> ret s
      | Some _ \<Rightarrow> do {
          g \<leftarrow> getSite (sv_kube sv) (site_ns s) (site_name s);
          ret (case g of Inl _ \<Rightarrow> s | Inr s' \<Rightarrow> s')
        })"

definition fetch :: "'e server \<Rightarrow> string \<Rightarrow> ('e, site result) prog" where
  "fetch sv n = getSite (sv_kube sv) (sv_namespace sv) n"

text \<open>Fetch the site of the URL and go on, or answer with 404 or 500.\<close>

definition with_site :: "'e server \<Rightarrow> string \<Rightarrow> (site \<Rightarrow> ('e, response) prog) \<Rightarrow> ('e, response) prog" where
  "with_site sv n f = do {
     g \<leftarrow> fetch sv n;
     case g of Inl e \<Rightarrow> ret (notFoundOr500 e) | Inr s \<Rightarrow> f s
   }"

text \<open>Store a changed site, let it converge, and answer with it.\<close>

definition store_site :: "'e server \<Rightarrow> site \<Rightarrow> ('e, response) prog" where
  "store_site sv s = do {
     u \<leftarrow> updateSiteObj (sv_kube sv) s;
     case u of
       Inl e \<Rightarrow> ret (writeError 500 (error_text e))
     | Inr s1 \<Rightarrow> do {
         _ \<leftarrow> maybeReconcile sv (site_name s1);
         s2 \<leftarrow> reread sv s1;
         ret (writeJSON 200 (SiteBody (toDTO s2)))
       }
   }"

section \<open>handlers.go\<close>

definition listSitesH :: "'e server \<Rightarrow> 'e handler" where
  "listSitesH sv _ _ = do {
     l \<leftarrow> listSites (sv_kube sv) (sv_namespace sv);
     ret (case l of
        Inl e \<Rightarrow> writeError 500 (error_text e)
      | Inr xs \<Rightarrow> writeJSON 200 (SitesBody (map toDTO xs)))
   }"

definition getSiteH :: "'e server \<Rightarrow> 'e handler" where
  "getSiteH sv n _ = with_site sv n (\<lambda>s. ret (writeJSON 200 (SiteBody (toDTO s))))"

definition createSite :: "'e server \<Rightarrow> 'e handler" where
  "createSite sv _ rq =
     (case cx_site (sv_codec sv) (rq_body rq) of
        Inl e \<Rightarrow> ret (writeError 400 (''invalid JSON: '' @ error_text e))
      | Inr dto \<Rightarrow>
          if sd_name dto = [] \<or> sd_domain dto = []
          then ret (writeError 400 ''name and domain are required'')
          else do {
            c \<leftarrow> createSiteObj (sv_kube sv) (toSite dto (sv_namespace sv));
            case c of
              Inl e \<Rightarrow> ret (if is_already_exists e then writeError 409 ''site already exists''
                             else writeError 500 (error_text e))
            | Inr s \<Rightarrow> do {
                _ \<leftarrow> maybeReconcile sv (site_name s);
                s1 \<leftarrow> reread sv s;
                ret (writeJSON 201 (SiteBody (toDTO s1)))
              }
          })"

definition deleteSite :: "'e server \<Rightarrow> 'e handler" where
  "deleteSite sv n _ = with_site sv n (\<lambda>s. do {
     d \<leftarrow> deleteSiteObj (sv_kube sv) s;
     case d of
       Inl e \<Rightarrow> ret (writeError 500 (error_text e))
     | Inr _ \<Rightarrow> do {
         _ \<leftarrow> maybeReconcile sv (site_name s);
         ret \<lparr>rs_code = 204, rs_body = NoBody\<rparr>
       }
   })"

definition crYAML :: "'e server \<Rightarrow> site \<Rightarrow> string result" where
  "crYAML sv s = cx_yamlDoc (sv_codec sv)
     \<lparr>cr_apiVersion = apiVersion, cr_kind = ''WordPressSite'', cr_name = site_name s, cr_namespace = site_ns s,
      cr_annotations = (case m_annotations (site_meta s) of
        None \<Rightarrow> None | Some a \<Rightarrow> if a = fmempty then None else Some a),
      cr_spec = site_spec s\<rparr>"

fun render_all :: "(owned \<Rightarrow> string result) \<Rightarrow> bool \<Rightarrow> owned list \<Rightarrow> string result" where
  "render_all f later [] = Inr []"
| "render_all f later (b # bs) =
     (case f b of
        Inl e \<Rightarrow> Inl e
      | Inr y \<Rightarrow> case render_all f True bs of
          Inl e \<Rightarrow> Inl e
        | Inr r \<Rightarrow> Inr ((if later then ''---'' @ newline else []) @ y @ r))"

definition rendered_objects :: "'e server \<Rightarrow> site \<Rightarrow> owned list" where
  "rendered_objects sv s =
     [OwnedDeployment (DesiredDeployment (sv_globals sv) s (sv_dbHost sv) (sv_dbPort sv)),
      OwnedService (DesiredService s),
      OwnedIngress (DesiredIngress (sv_globals sv) s)]"

definition renderManifests :: "'e server \<Rightarrow> site \<Rightarrow> string result" where
  "renderManifests sv s = render_all (cx_yamlObject (sv_codec sv)) False (rendered_objects sv s)"

definition previewYAML :: "'e server \<Rightarrow> 'e handler" where
  "previewYAML sv _ rq =
     (case cx_site (sv_codec sv) (rq_body rq) of
        Inl e \<Rightarrow> ret (writeError 400 (''invalid JSON: '' @ error_text e))
      | Inr dto \<Rightarrow>
          let s = toSite dto (sv_namespace sv) in
          case crYAML sv s of
            Inl e \<Rightarrow> ret (writeError 500 (error_text e))
          | Inr src \<Rightarrow> case renderManifests sv s of
              Inl e \<Rightarrow> ret (writeError 500 (error_text e))
            | Inr rendered \<Rightarrow>
                ret \<lparr>rs_code = 200, rs_body = RawBody (src @ ''---'' @ newline @ rendered)\<rparr>)"

definition getSiteYAML :: "'e server \<Rightarrow> 'e handler" where
  "getSiteYAML sv n _ = with_site sv n (\<lambda>s.
     case crYAML sv s of
       Inl e \<Rightarrow> ret (writeError 500 (error_text e))
     | Inr src \<Rightarrow> case renderManifests sv s of
         Inl e \<Rightarrow> ret (writeError 500 (error_text e))
       | Inr rendered \<Rightarrow> ret (writeJSON 200 (YamlBody src rendered)))"

definition patched_spec :: "site_dto \<Rightarrow> site_spec \<Rightarrow> site_spec" where
  "patched_spec dto sp = sp
     \<lparr>sp_domain := sd_domain dto, sp_aliases := sd_aliases dto, sp_image := sd_image dto,
      sp_replicas := (if 0 <s sd_replicas dto then Some (sd_replicas dto) else sp_replicas sp),
      sp_ingressClassName := sd_ingressClass dto, sp_tablePrefix := sd_tablePrefix dto,
      sp_phpConfig := sd_phpConfig dto, sp_phpIni := sd_phpIni dto,
      sp_forceHTTPS := (case sd_forceHTTPS dto of None \<Rightarrow> sp_forceHTTPS sp | Some b \<Rightarrow> Some b),
      sp_tls := \<lparr>tls_enabled = sd_tlsEnabled dto, tls_issuer = sd_tlsIssuer dto, tls_secretName = []\<rparr>\<rparr>"

definition updateSite :: "'e server \<Rightarrow> 'e handler" where
  "updateSite sv n rq =
     (case cx_site (sv_codec sv) (rq_body rq) of
        Inl e \<Rightarrow> ret (writeError 400 (''invalid JSON: '' @ error_text e))
      | Inr dto \<Rightarrow>
          if sd_domain dto = [] then ret (writeError 400 ''domain is required'')
          else with_site sv n (\<lambda>s. store_site sv (s\<lparr>site_spec := patched_spec dto (site_spec s)\<rparr>)))"

definition setSuspend :: "'e server \<Rightarrow> bool \<Rightarrow> 'e handler" where
  "setSuspend sv suspend n _ = with_site sv n (\<lambda>s.
     store_site sv (s\<lparr>site_spec := (site_spec s)\<lparr>sp_suspend := suspend\<rparr>\<rparr>))"

text \<open>\<open>io.ReadAll(io.LimitReader(body, n))\<close>: an error after the limit is never seen.\<close>

definition read_limited :: "nat \<Rightarrow> body \<Rightarrow> string result" where
  "read_limited n b =
     (if n \<le> length (bd_bytes b) then Inr (take n (bd_bytes b))
      else case bd_error b of Some e \<Rightarrow> Inl e | None \<Rightarrow> Inr (bd_bytes b))"

definition updateSiteYAML :: "'e server \<Rightarrow> 'e handler" where
  "updateSiteYAML sv n rq =
     (case read_limited 1048576 (rq_body rq) of
        Inl e \<Rightarrow> ret (writeError 400 (''read body: '' @ error_text e))
      | Inr body \<Rightarrow> case cx_yamlSite (sv_codec sv) body of
          Inl e \<Rightarrow> ret (writeError 400 (''invalid YAML: '' @ error_text e))
        | Inr parsed \<Rightarrow>
            if site_name parsed \<noteq> [] \<and> site_name parsed \<noteq> n
            then ret (writeError 400 ''metadata.name must match the host being edited'')
            else if sp_domain (site_spec parsed) = []
            then ret (writeError 400 ''spec.domain is required'')
            else with_site sv n (\<lambda>s. store_site sv
              (s\<lparr>site_spec := site_spec parsed,
                 site_meta := (case m_annotations (site_meta parsed) of
                   None \<Rightarrow> site_meta s
                 | Some a \<Rightarrow> (site_meta s)\<lparr>m_annotations := Some a\<rparr>)\<rparr>)))"

section \<open>status.go\<close>

definition getSiteStatus :: "'e server \<Rightarrow> 'e handler" where
  "getSiteStatus sv n _ = with_site sv n (\<lambda>s. do {
     pods \<leftarrow> listPods (sv_kube sv) (sv_namespace sv) (site_name s);
     events \<leftarrow> listEvents (sv_kube sv) (sv_namespace sv);
     ret (writeJSON 200 (StatusBody
       \<lparr>sx_phase = ss_phase (site_status s), sx_message = latestConditionMessage s,
        sx_conditions = map (conditionDTO (cx_time (sv_codec sv))) (ss_conditions (site_status s)),
        sx_pods = (case pods of Inl _ \<Rightarrow> [] | Inr ps \<Rightarrow> map (podStatus (cx_time (sv_codec sv))) ps),
        sx_events = (case events of
            Inl _ \<Rightarrow> []
          | Inr es \<Rightarrow> shown_events (cx_time (sv_codec sv)) (cx_arrange (sv_codec sv)) (site_name s) es)\<rparr>))
   })"

end
