(* ===== verification/Server.thy ===== *)
theory Server
imports Handlers
begin

text \<open>
  internal/apiserver/server.go and the HTTP handlers of twofa.go: login, the session and metrics
  endpoints, and the route table with its authenticated group. chi is a parameter: \<open>pick\<close> chooses,
  for a request, a route of the table and the value of its URL parameter.
\<close>

section \<open>login, me, metrics\<close>

definition issue_token :: "'e server \<Rightarrow> string \<Rightarrow> ('e, response) prog" where
  "issue_token sv user = do {
     t \<leftarrow> Issue (sv_auth sv) user;
     ret (case t of
        Inl _ \<Rightarrow> writeError 500 ''could not issue token''
      | Inr token \<Rightarrow> writeJSON 200 (TokenBody token))
   }"

definition login :: "'e server \<Rightarrow> request \<Rightarrow> ('e, response) prog" where
  "login sv rq =
     (case cx_login (sv_codec sv) (rq_body rq) of
        Inl _ \<Rightarrow> ret (writeError 400 ''invalid JSON'')
      | Inr b \<Rightarrow>
          if \<not> VerifyPassword (sv_auth sv) (lb_username b) (lb_password b)
          then ret (writeError 401 ''invalid credentials'')
          else case sv_twoFA sv of
            None \<Rightarrow> issue_token sv (lb_username b)
          | Some tf \<Rightarrow> do {
              on \<leftarrow> tf_enabled tf;
              if \<not> on then issue_token sv (lb_username b)
              else if lb_totp b = [] then ret (writeError 401 ''totp_required'')
              else do {
                ok \<leftarrow> tf_validate tf (lb_totp b);
                if \<not> ok then ret (writeError 401 ''invalid 2FA code'')
                else issue_token sv (lb_username b)
              }
            })"

definition me :: "string \<Rightarrow> response" where
  "me user = writeJSON 200 (UserBody user)"

definition getMetrics :: "'e server \<Rightarrow> ('e, response) prog" where
  "getMetrics sv =
     (case sv_metrics sv of
        None \<Rightarrow> ret (writeError 503 ''metrics not configured'')
      | Some p \<Rightarrow> do {
          c \<leftarrow> mp_cluster p;
          case c of
            Inl e \<Rightarrow> ret (writeError 500 (error_text e))
          | Inr cluster \<Rightarrow> do {
              s \<leftarrow> mp_sites p;
              ret (case s of
                 Inl e \<Rightarrow> writeError 500 (error_text e)
               | Inr sites \<Rightarrow> writeJSON 200 (MetricsBody cluster (case sites of None \<Rightarrow> [] | Some xs \<Rightarrow> xs)))
            }
        })"

section \<open>The 2FA endpoints\<close>

definition code_message :: string where
  "code_message = ''m'' @ [CHR 0xC3, CHR 0xA3] @ '' 2FA kh'' @ [CHR 0xC3, CHR 0xB4] @ ''ng ''
     @ [CHR 0xC4, CHR 0x91, CHR 0xC3, CHR 0xBA] @ ''ng''"

definition twoFAStatus :: "'e server \<Rightarrow> ('e, response) prog" where
  "twoFAStatus sv =
     (case sv_twoFA sv of
        None \<Rightarrow> ret (writeJSON 200 (EnabledBody False))
      | Some tf \<Rightarrow> do { on \<leftarrow> tf_enabled tf; ret (writeJSON 200 (EnabledBody on)) })"

definition twoFASetup :: "'e server \<Rightarrow> ('e, response) prog" where
  "twoFASetup sv =
     (case sv_twoFA sv of
        None \<Rightarrow> ret (writeError 503 ''2FA not configured'')
      | Some tf \<Rightarrow> do {
          r \<leftarrow> tf_setup tf;
          ret (case r of
             Inl e \<Rightarrow> writeError 500 (error_text e)
           | Inr (secret, url, qr) \<Rightarrow> writeJSON 200 (SetupBody secret url qr))
        })"

definition twoFAMutate ::
  "'e server \<Rightarrow> request \<Rightarrow> ('e two_fa \<Rightarrow> string \<Rightarrow> ('e, unit result) prog) \<Rightarrow> ('e, response) prog" where
  "twoFAMutate sv rq fn =
     (case sv_twoFA sv of
        None \<Rightarrow> ret (writeError 503 ''2FA not configured'')
      | Some tf \<Rightarrow> case cx_code (sv_codec sv) (rq_body rq) of
          Inl _ \<Rightarrow> ret (writeError 400 ''invalid JSON'')
        | Inr code \<Rightarrow> do {
            r \<leftarrow> fn tf code;
            case r of
              Inl e \<Rightarrow> ret (writeError 400 (if e = ErrCodeInvalid then code_message else error_text e))
            | Inr _ \<Rightarrow> do { on \<leftarrow> tf_enabled tf; ret (writeJSON 200 (EnabledBody on)) }
          })"

definition twoFAEnable :: "'e server \<Rightarrow> request \<Rightarrow> ('e, response) prog" where
  "twoFAEnable sv rq = twoFAMutate sv rq tf_enable"

definition twoFADisable :: "'e server \<Rightarrow> request \<Rightarrow> ('e, response) prog" where
  "twoFADisable sv rq = twoFAMutate sv rq tf_disable"

section \<open>Routes\<close>

datatype endpoint =
    EHealthz | ELogin | EListSites | ECreateSite | EPreview | EGetSite | EUpdateSite | EDeleteSite
  | EGetYAML | EPutYAML | EStatus | ESuspend | EResume | EMetrics | EMe
  | ETwoFAStatus | ETwoFASetup | ETwoFAEnable | ETwoFADisable

record route =
  rt_method :: string
  rt_pattern :: string
  rt_endpoint :: endpoint

definition open_routes :: "route list" where
  "open_routes =
     [\<lparr>rt_method = ''GET'', rt_pattern = ''/healthz'', rt_endpoint = EHealthz\<rparr>,
      \<lparr>rt_method = ''POST'', rt_pattern = ''/api/v1/login'', rt_endpoint = ELogin\<rparr>]"

definition guarded_routes :: "route list" where
  "guarded_routes =
     [\<lparr>rt_method = ''GET'', rt_pattern = ''/api/v1/sites'', rt_endpoint = EListSites\<rparr>,
      \<lparr>rt_method = ''POST'', rt_pattern = ''/api/v1/sites'', rt_endpoint = ECreateSite\<rparr>,
      \<lparr>rt_method = ''POST'', rt_pattern = ''/api/v1/sites/preview'', rt_endpoint = EPreview\<rparr>,
      \<lparr>rt_method = ''GET'', rt_pattern = ''/api/v1/sites/{name}'', rt_endpoint = EGetSite\<rparr>,
      \<lparr>rt_method = ''PUT'', rt_pattern = ''/api/v1/sites/{name}'', rt_endpoint = EUpdateSite\<rparr>,
      \<lparr>rt_method = ''DELETE'', rt_pattern = ''/api/v1/sites/{name}'', rt_endpoint = EDeleteSite\<rparr>,
      \<lparr>rt_method = ''GET'', rt_pattern = ''/api/v1/sites/{name}/yaml'', rt_endpoint = EGetYAML\<rparr>,
      \<lparr>rt_method = ''PUT'', rt_pattern = ''/api/v1/sites/{name}/yaml'', rt_endpoint = EPutYAML\<rparr>,
      \<lparr>rt_method = ''GET'', rt_pattern = ''/api/v1/sites/{name}/status'', rt_endpoint = EStatus\<rparr>,
      \<lparr>rt_method = ''POST'', rt_pattern = ''/api/v1/sites/{name}/suspend'', rt_endpoint = ESuspend\<rparr>,
      \<lparr>rt_method = ''POST'', rt_pattern = ''/api/v1/sites/{name}/resume'', rt_endpoint = EResume\<rparr>,
      \<lparr>rt_method = ''GET'', rt_pattern = ''/api/v1/metrics'', rt_endpoint = EMetrics\<rparr>,
      \<lparr>rt_method = ''GET'', rt_pattern = ''/api/v1/me'', rt_endpoint = EMe\<rparr>,
      \<lparr>rt_method = ''GET'', rt_pattern = ''/api/v1/2fa'', rt_endpoint = ETwoFAStatus\<rparr>,
      \<lparr>rt_method = ''POST'', rt_pattern = ''/api/v1/2fa/setup'', rt_endpoint = ETwoFASetup\<rparr>,
      \<lparr>rt_method = ''POST'', rt_pattern = ''/api/v1/2fa/enable'', rt_endpoint = ETwoFAEnable\<rparr>,
      \<lparr>rt_method = ''POST'', rt_pattern = ''/api/v1/2fa/disable'', rt_endpoint = ETwoFADisable\<rparr>]"

fun run_endpoint :: "'e server \<Rightarrow> endpoint \<Rightarrow> string \<Rightarrow> string \<Rightarrow> request \<Rightarrow> ('e, response) prog" where
  "run_endpoint sv EHealthz user n rq = ret \<lparr>rs_code = 200, rs_body = RawBody ''ok''\<rparr>"
| "run_endpoint sv ELogin user n rq = login sv rq"
| "run_endpoint sv EListSites user n rq = listSitesH sv n rq"
| "run_endpoint sv ECreateSite user n rq = createSite sv n rq"
| "run_endpoint sv EPreview user n rq = previewYAML sv n rq"
| "run_endpoint sv EGetSite user n rq = getSiteH sv n rq"
| "run_endpoint sv EUpdateSite user n rq = updateSite sv n rq"
| "run_endpoint sv EDeleteSite user n rq = deleteSite sv n rq"
| "run_endpoint sv EGetYAML user n rq = getSiteYAML sv n rq"
| "run_endpoint sv EPutYAML user n rq = updateSiteYAML sv n rq"
| "run_endpoint sv EStatus user n rq = getSiteStatus sv n rq"
| "run_endpoint sv ESuspend user n rq = setSuspend sv True n rq"
| "run_endpoint sv EResume user n rq = setSuspend sv False n rq"
| "run_endpoint sv EMetrics user n rq = getMetrics sv"
| "run_endpoint sv EMe user n rq = ret (me user)"
| "run_endpoint sv ETwoFAStatus user n rq = twoFAStatus sv"
| "run_endpoint sv ETwoFASetup user n rq = twoFASetup sv"
| "run_endpoint sv ETwoFAEnable user n rq = twoFAEnable sv rq"
| "run_endpoint sv ETwoFADisable user n rq = twoFADisable sv rq"

text \<open>
  \<open>pick\<close> answers with the position of a route in the table and the URL parameter, or with the code
  of chi's own answer (404 or 405).
\<close>

type_synonym picker = "route list \<Rightarrow> string \<Rightarrow> string \<Rightarrow> nat + (nat \<times> string)"

definition Router :: "'e server \<Rightarrow> picker \<Rightarrow> request \<Rightarrow> ('e, response) prog" where
  "Router sv pick rq =
     (case pick (open_routes @ guarded_routes) (rq_method rq) (rq_path rq) of
        Inl code \<Rightarrow> ret \<lparr>rs_code = code, rs_body = NoBody\<rparr>
      | Inr (i, n) \<Rightarrow>
          if i < length open_routes
          then run_endpoint sv (rt_endpoint (open_routes ! i)) [] n rq
          else if i < length open_routes + length guarded_routes
          then guard (sv_auth sv) (rq_auth rq)
            (\<lambda>user. run_endpoint sv (rt_endpoint (guarded_routes ! (i - length open_routes))) user n rq)
            (writeError 401)
          else ret \<lparr>rs_code = 404, rs_body = NoBody\<rparr>)"

end
