(* ===== verification/Wiring.thy ===== *)
theory Wiring
imports Server Controller Mysql Sqlite
begin

text \<open>
  cmd/operator/main.go and cmd/apiserver/main.go: what the two programs build from their
  environment. The environment is a function on variable names, the empty text where a variable is
  not set (\<open>os.Getenv\<close>).
\<close>

section \<open>The environment\<close>

type_synonym getenv = "string \<Rightarrow> string"

definition env_or :: "getenv \<Rightarrow> string \<Rightarrow> string \<Rightarrow> string" where
  "env_or g key dflt = (if g key \<noteq> [] then g key else dflt)"

section \<open>cmd/operator\<close>

definition operator_globals :: "getenv \<Rightarrow> globals" where
  "operator_globals g = \<lparr>g_sharedPVCName = env_or g ''SHARED_PVC_NAME'' ''wordpress-shared'',
     g_ingressClass = env_or g ''INGRESS_CLASS'' ''nginx''\<rparr>"

definition operator_mysql :: "getenv \<Rightarrow> mysql_config" where
  "operator_mysql g = \<lparr>my_host = env_or g ''MYSQL_HOST'' ''mysql'', my_port = env_or g ''MYSQL_PORT'' ''3306'',
     my_user = env_or g ''MYSQL_ADMIN_USER'' ''root'', my_password = g ''MYSQL_ADMIN_PASSWORD''\<rparr>"

definition operator_reconciler :: "getenv \<Rightarrow> 'e kube \<Rightarrow> 'e sqldrv \<Rightarrow> 'e reconciler" where
  "operator_reconciler g k q =
     \<lparr>r_kube = k, r_db = mysql_provisioner q (operator_mysql g), r_globals = operator_globals g,
      r_dbHost = env_or g ''MYSQL_HOST'' ''mysql'', r_dbPort = env_or g ''MYSQL_PORT'' ''3306'',
      r_dropDataOnDelete = (env_or g ''DROP_DATA_ON_DELETE'' ''false'' = ''true''),
      r_noServerSideApply = False\<rparr>"

section \<open>cmd/apiserver\<close>

definition dev_mode :: "getenv \<Rightarrow> bool" where
  "dev_mode g \<longleftrightarrow> env_or g ''DEV_MODE'' [] = ''true''"

definition sites_namespace :: "getenv \<Rightarrow> string" where
  "sites_namespace g = env_or g ''SITES_NAMESPACE'' ''wordpress-sites''"

definition dev_reconciler :: "getenv \<Rightarrow> 'e kube \<Rightarrow> 'e sqldrv \<Rightarrow> sqlite_prov \<Rightarrow> 'e reconciler" where
  "dev_reconciler g k q p =
     \<lparr>r_kube = k, r_db = sqlite_provisioner q p, r_globals = default_globals,
      r_dbHost = ''127.0.0.1'', r_dbPort = env_or g ''MYSQL_PORT'' ''3306'',
      r_dropDataOnDelete = False, r_noServerSideApply = True\<rparr>"

definition dev_reconcile_func :: "'e reconciler \<Rightarrow> string \<Rightarrow> string \<Rightarrow> ('e, unit result) prog" where
  "dev_reconcile_func rec ns n = do {
     x \<leftarrow> Reconcile rec ns n;
     ret (case ro_err x of None \<Rightarrow> Inr () | Some e \<Rightarrow> Inl e)
   }"

definition admin_2fa :: "getenv \<Rightarrow> 'e kube \<Rightarrow> 'e otp \<Rightarrow> 'e kube_two_fa" where
  "admin_2fa g k pk =
     \<lparr>kt_kube = k, kt_otp = pk, kt_namespace = env_or g ''TWOFA_NAMESPACE'' ''wordpress-system'',
      kt_secretName = env_or g ''TWOFA_SECRET_NAME'' ''wordpress-admin-2fa'',
      kt_issuer = env_or g ''TWOFA_ISSUER'' ''WordPress Manager'',
      kt_account = env_or g ''ADMIN_USERNAME'' ''admin''\<rparr>"

text \<open>
  The server of either mode: in dev mode the reconciler runs in the process and the figures are
  synthetic. The package variables of internal/resources keep their initial values here: this
  program never sets them.
\<close>

definition api_server ::
  "getenv \<Rightarrow> 'e kube \<Rightarrow> 'e sqldrv \<Rightarrow> 'e otp \<Rightarrow> codec \<Rightarrow> (site_usage list \<Rightarrow> site_usage list) \<Rightarrow>
     sqlite_prov \<Rightarrow> 'e authenticator \<Rightarrow> 'e server" where
  "api_server g k q pk cx order p auth =
     \<lparr>sv_kube = k, sv_auth = auth, sv_namespace = sites_namespace g,
      sv_dbHost = env_or g ''MYSQL_HOST'' ''mysql'', sv_dbPort = env_or g ''MYSQL_PORT'' ''3306'',
      sv_metrics = Some (if dev_mode g then dev_provider k (sites_namespace g)
                         else kube_provider k order (sites_namespace g)),
      sv_twoFA = Some (kube_two_factor (admin_2fa g k pk)),
      sv_reconcile = (if dev_mode g then Some (dev_reconcile_func (dev_reconciler g k q p)) else None),
      sv_globals = default_globals, sv_codec = cx\<rparr>"

text \<open>The start-up steps that can fail: the SQLite directory in dev mode, then the authenticator.\<close>

definition build_server ::
  "getenv \<Rightarrow> 'e kube \<Rightarrow> 'e sqldrv \<Rightarrow> 'e otp \<Rightarrow> codec \<Rightarrow> (site_usage list \<Rightarrow> site_usage list) \<Rightarrow>
     'e auth_pkg \<Rightarrow> ('e, 'e server result) prog" where
  "build_server g k q pk cx order pkg = do {
     d \<leftarrow> (if dev_mode g then NewSqlite q (env_or g ''SQLITE_DIR'' ''./.dev/sqlite'')
           else ret (Inr \<lparr>lite_dir = []\<rparr>));
     case d of
       Inl e \<Rightarrow> ret (Inl (GoErr (''sqlite provisioner: '' @ error_text e)))
     | Inr p \<Rightarrow> do {
         a \<leftarrow> NewAuthenticator pkg k (env_or g ''ADMIN_USERNAME'' ''admin'') (g ''ADMIN_PASSWORD_HASH'')
           (g ''ADMIN_PASSWORD'') (g ''JWT_SECRET'') 86400;
         ret (case a of
            Inl e \<Rightarrow> Inl (GoErr (''auth setup: '' @ error_text e))
          | Inr auth \<Rightarrow> Inr (api_server g k q pk cx order p auth))
       }
   }"

end
