(* ===== verification/ApiProps.thy ===== *)
theory ApiProps
imports Wiring ReconcileOutcome Fixtures "HOL-Library.Multiset"
begin

text \<open>
  The properties of the admin API, for the server cmd/apiserver builds: authentication, what a
  refused or a reading request can touch, and what the conversions keep.
\<close>

section \<open>Running the handlers\<close>

lemma runs_with_site:
  assumes "\<And>e. Q (notFoundOr500 e) [(CGetSite (sv_namespace sv) n, Some e)]"
    and "\<And>s. runs (f s) (\<lambda>r l. Q r ((CGetSite (sv_namespace sv) n, None) # l))"
  shows "runs (with_site sv n f) Q"
  unfolding with_site_def fetch_def by (intro wp) (auto simp: assms)

lemma emits_with_site:
  "(\<And>r. P (CGetSite (sv_namespace sv) n, r)) \<Longrightarrow> (\<And>s. emits P (f s)) \<Longrightarrow> emits P (with_site sv n f)"
  unfolding with_site_def fetch_def by (intro emits_intros)

lemma emits_Setup [emits_intros]:
  "(\<And>c. P c) \<Longrightarrow> emits P (Setup t)" "(\<And>c. P c) \<Longrightarrow> emits P (Enable t code)"
  "(\<And>c. P c) \<Longrightarrow> emits P (Disable t code)"
  unfolding Setup_def Enable_def Disable_def save_def by (intro emits_intros; simp)+

lemma emits_Enabled [emits_intros]:
  "(\<And>c. read_call c \<Longrightarrow> P c) \<Longrightarrow> emits P (Enabled t)" "(\<And>c. read_call c \<Longrightarrow> P c) \<Longrightarrow> emits P (Validate t code)"
  unfolding Enabled_def Validate_def by (intro emits_intros; simp)+

section \<open>The server of cmd/apiserver\<close>

text \<open>Its reconciler, in dev mode, only appends to the trace, like everything else it runs.\<close>

lemma emits_dev_reconcile: "emits (\<lambda>_. True) (dev_reconcile_func (dev_reconciler g k q p) ns n)"
proof -
  have r: "dev_reconciler g k q p = (dev_reconciler g k q p)\<lparr>r_db := sqlite_provisioner q p\<rparr>"
    by (simp add: dev_reconciler_def)
  have "emits (\<lambda>_. True) (Reconcile (dev_reconciler g k q p) ns n)"
    by (subst r, rule emits_runs, rule runs_mono [OF sqlite_rec.runs_Reconcile]) (simp add: list_all_iff)
  then show ?thesis
    unfolding dev_reconcile_func_def by (intro emits_intros)
qed

definition converges :: "'e server \<Rightarrow> bool" where
  "converges sv \<longleftrightarrow> (\<forall>n. emits (\<lambda>_. True) (maybeReconcile sv n))"

lemma api_server_converges: "converges (api_server g k q pk cx order p auth)"
  by (auto simp: converges_def maybeReconcile_def api_server_def intro!: emits_intros emits_dev_reconcile)

lemma runs_maybeReconcile:
  assumes "converges sv" and "\<And>l. Q () l"
  shows "runs (maybeReconcile sv n) Q"
  by (rule runs_emits [OF assms(1) [unfolded converges_def, rule_format]]) (simp add: assms(2))

lemma emits_reread: "(\<And>r ns n. P (CGetSite ns n, r)) \<Longrightarrow> emits P (reread sv s)"
  unfolding reread_def by (intro emits_intros)

lemma emits_store_site: "converges sv \<Longrightarrow> emits (\<lambda>_. True) (store_site sv s)"
  unfolding store_site_def converges_def by (intro emits_intros emits_reread; simp)

text \<open>What the proofs below use of the server.\<close>

definition serves :: "'e server \<Rightarrow> 'e kube_two_fa \<Rightarrow> bool" where
  "serves sv t \<longleftrightarrow> converges sv \<and> sv_twoFA sv = Some (kube_two_factor t) \<and>
     (case sv_metrics sv of None \<Rightarrow> False | Some p \<Rightarrow> metrics_source p)"

lemma api_server_serves: "serves (api_server g k q pk cx order p auth) (admin_2fa g k pk)"
  using api_server_converges [of g k q pk cx order p auth]
  by (simp add: serves_def api_server_def kube_metrics.metrics_source_axioms
      dev_metrics.metrics_source_axioms)

lemma emits_issue_token: "(\<And>c. read_call c \<Longrightarrow> P c) \<Longrightarrow> emits P (issue_token sv user)"
  unfolding issue_token_def by (intro emits_intros) simp_all

lemma emits_login:
  assumes "serves sv t" and "\<And>c. read_call c \<Longrightarrow> P c"
  shows "emits P (login sv rq)"
  using assms(1) unfolding login_def serves_def kube_two_factor_def
  by (auto intro!: emits_intros emits_issue_token assms(2) split: sum.splits)

lemma emits_getMetrics:
  assumes "serves sv t" and "\<And>c. read_call c \<Longrightarrow> P c"
  shows "emits P (getMetrics sv)"
proof -
  from assms(1) obtain p where p: "sv_metrics sv = Some p" "metrics_source p"
    by (auto simp: serves_def split: option.splits)
  have "emits P (mp_cluster p)" "emits P (mp_sites p)"
    using assms(2) by (auto intro: emits_mono metrics_source.cluster_reads [OF p(2)]
        metrics_source.sites_reads [OF p(2)])
  then show ?thesis
    unfolding getMetrics_def p(1) option.case by (intro emits_intros)
qed

definition read_endpoints :: "endpoint list" where
  "read_endpoints = [EHealthz, ELogin, EListSites, EPreview, EGetSite, EGetYAML, EStatus, EMetrics,
     EMe, ETwoFAStatus]"

lemma emits_read_endpoint:
  assumes "serves sv t" and "ep \<in> set read_endpoints"
  shows "emits read_call (run_endpoint sv ep user n rq)"
proof -
  have tf: "sv_twoFA sv = Some (kube_two_factor t)"
    using assms(1) by (simp add: serves_def)
  have site: "emits read_call (with_site sv n (\<lambda>s. ret (f s)))" for f
    by (intro emits_with_site emits_intros) simp
  have pages: "emits read_call (listSitesH sv n rq)" "emits read_call (previewYAML sv n rq)"
    "emits read_call (getSiteH sv n rq)" "emits read_call (getSiteStatus sv n rq)"
    by (unfold listSitesH_def previewYAML_def getSiteH_def getSiteStatus_def Let_def;
        intro emits_intros emits_with_site; simp)+
  have yaml: "emits read_call (getSiteYAML sv n rq)"
    unfolding getSiteYAML_def by (intro emits_with_site emits_intros) simp
  have two: "emits read_call (twoFAStatus sv)"
    unfolding twoFAStatus_def tf option.case kube_two_factor_def two_fa.simps
    by (intro emits_intros) simp
  show ?thesis
    using assms(2) pages yaml two emits_login [OF assms(1), of read_call] emits_getMetrics [OF assms(1), of read_call]
    by (auto simp: read_endpoints_def intro: emits_intros)
qed

lemma emits_write_endpoint:
  assumes "serves sv t"
  shows "emits (\<lambda>_. True) (createSite sv n rq)" "emits (\<lambda>_. True) (updateSite sv n rq)"
    "emits (\<lambda>_. True) (deleteSite sv n rq)" "emits (\<lambda>_. True) (updateSiteYAML sv n rq)"
    "emits (\<lambda>_. True) (setSuspend sv b n rq)" "emits (\<lambda>_. True) (twoFASetup sv)"
    "emits (\<lambda>_. True) (twoFAEnable sv rq)" "emits (\<lambda>_. True) (twoFADisable sv rq)"
proof -
  have c: "converges sv" and tf: "sv_twoFA sv = Some (kube_two_factor t)"
    using assms by (simp_all add: serves_def)
  then have m: "emits (\<lambda>_. True) (maybeReconcile sv n)" for n
    by (simp add: converges_def)
  show "emits (\<lambda>_. True) (createSite sv n rq)" "emits (\<lambda>_. True) (updateSite sv n rq)"
    "emits (\<lambda>_. True) (deleteSite sv n rq)" "emits (\<lambda>_. True) (updateSiteYAML sv n rq)"
    "emits (\<lambda>_. True) (setSuspend sv b n rq)"
    by (unfold createSite_def updateSite_def deleteSite_def updateSiteYAML_def setSuspend_def;
        intro emits_intros emits_with_site emits_store_site c m emits_reread; simp)+
  show "emits (\<lambda>_. True) (twoFASetup sv)"
    "emits (\<lambda>_. True) (twoFAEnable sv rq)" "emits (\<lambda>_. True) (twoFADisable sv rq)"
    by (unfold twoFASetup_def twoFAEnable_def twoFADisable_def twoFAMutate_def tf option.case
          kube_two_factor_def two_fa.simps;
        intro emits_intros; simp)+
qed

lemma emits_endpoint:
  assumes "serves sv t"
  shows "emits (\<lambda>_. True) (run_endpoint sv ep user n rq)"
proof (cases "ep \<in> set read_endpoints")
  case True
  from emits_read_endpoint [OF assms this] show ?thesis by (rule emits_mono) simp
next
  case False
  with emits_write_endpoint [OF assms] show ?thesis
    by (cases ep) (simp_all add: read_endpoints_def)
qed

section \<open>Authentication\<close>

fun token_accepted :: "traced \<Rightarrow> bool" where
  "token_accepted (CParseToken _, None) = True"
| "token_accepted _ = False"

lemma runs_guard:
  assumes "\<And>user. emits (\<lambda>_. True) (next user)"
  shows "runs (guard a h next refuse) (\<lambda>_ l. precedes token_accepted (\<lambda>c. \<not> read_call c) l)"
proof -
  have "runs (next user) (\<lambda>_ l. precedes token_accepted (\<lambda>c. \<not> read_call c)
      ((CParseToken tok, None) # l))" for user tok
    using assms by (rule runs_emits) simp
  then show ?thesis
    unfolding guard_def by (intro wp) auto
qed

text \<open>
  C2. Only the admin changes anything: whatever route chi picks for a request, the API server
  creates, updates or deletes nothing, neither in the cluster nor in a database, before the JWT
  package has accepted the request's bearer token; the open routes only read.
\<close>

theorem writes_need_token:
  "precedes token_accepted (\<lambda>c. \<not> read_call c)
     (emitted (Router (api_server g k q pk cx order p auth) pick rq) w)"
proof -
  let ?sv = "api_server g k q pk cx order p auth"
  have all: "emits (\<lambda>_. True) (run_endpoint ?sv ep user n rq)" for ep user n
    by (rule emits_endpoint [OF api_server_serves])
  have reads: "emits read_call (run_endpoint ?sv (rt_endpoint (open_routes ! i)) [] n rq)"
    if "i < length open_routes" for i n
  proof (rule emits_read_endpoint [OF api_server_serves])
    from that have "i = 0 \<or> i = 1" by (auto simp: open_routes_def)
    then show "rt_endpoint (open_routes ! i) \<in> set read_endpoints"
      by (auto simp: open_routes_def read_endpoints_def)
  qed
  have open_ok: "runs (run_endpoint ?sv (rt_endpoint (open_routes ! i)) [] n rq)
      (\<lambda>_ l. precedes token_accepted (\<lambda>c. \<not> read_call c) l)" if "i < length open_routes" for i n
    by (rule runs_emits [OF reads [OF that]]) (auto intro: precedes_none list_all_imp)
  have "runs (Router ?sv pick rq) (\<lambda>_ l. precedes token_accepted (\<lambda>c. \<not> read_call c) l)"
    unfolding Router_def by (intro wp open_ok runs_guard all) simp_all
  then show ?thesis by (rule runsD)
qed

text \<open>
  C26. A session token is issued only for the admin's name and password and, when two-factor
  authentication answers that it is on, only for a code it validates.
\<close>

theorem login_needs_both_factors:
  assumes "sv_twoFA sv = Some tf" and "rs_body (fst (run_state (login sv rq) w)) = TokenBody token"
  shows "\<exists>b. cx_login (sv_codec sv) (rq_body rq) = Inr b \<and>
    lb_username b = au_username (sv_auth sv) \<and>
    a_bcryptCompare (au_pkg (sv_auth sv)) (au_passwordHash (sv_auth sv)) (lb_password b) \<and>
    (fst (run_state (tf_enabled tf) w) \<longrightarrow>
       lb_totp b \<noteq> [] \<and> fst (run_state (tf_validate tf (lb_totp b)) (snd (run_state (tf_enabled tf) w))))"
  using assms
  by (auto simp: login_def writeError_def writeJSON_def VerifyPassword_def split: sum.splits if_splits prod.splits)

definition mem_auth :: "mem authenticator" where
  "mem_auth = \<lparr>au_pkg = \<lparr>a_bcryptGenerate = \<lambda>p e. (Inr p, e), a_bcryptCompare = \<lambda>h p. h = p,
       a_sign = \<lambda>c key e. (Inr ''token'', e), a_parse = \<lambda>t f e. (Inl (GoErr ''expired''), e)\<rparr>,
     au_kube = mem_kube, au_username = ''admin'', au_passwordHash = ''secret'', au_jwtSecret = ''key'',
     au_ttl = 86400\<rparr>"

definition mem_codec :: codec where
  "mem_codec = \<lparr>cx_site = \<lambda>b. Inl (GoErr ''EOF''),
     cx_login = \<lambda>b. Inr \<lparr>lb_username = ''admin'', lb_password = ''secret'', lb_totp = []\<rparr>,
     cx_code = \<lambda>b. Inl (GoErr ''EOF''), cx_yamlSite = \<lambda>t. Inl (GoErr ''EOF''),
     cx_yamlDoc = \<lambda>d. Inr [], cx_yamlObject = \<lambda>b. Inr [], cx_time = \<lambda>t. [], cx_arrange = \<lambda>es. es\<rparr>"

definition failing_kube :: "mem kube" where
  "failing_kube = mem_kube\<lparr>k_getSecret := \<lambda>ns n e. (Inl (KubeErr OtherReason ''server is down''), e)\<rparr>"

definition mem_totp :: "mem kube_two_fa" where
  "mem_totp = \<lparr>kt_kube = failing_kube,
     kt_otp = \<lparr>o_generate = \<lambda>i a e. (Inl (GoErr ''no entropy''), e), o_validate = \<lambda>c s e. (False, e),
       o_image = \<lambda>key x y. Inr [], o_pngEncode = \<lambda>i. Inr []\<rparr>,
     kt_namespace = ''wordpress-system'', kt_secretName = ''wordpress-admin-2fa'',
     kt_issuer = ''WordPress Manager'', kt_account = ''admin''\<rparr>"

definition mem_server :: "mem server" where
  "mem_server = \<lparr>sv_kube = mem_kube, sv_auth = mem_auth, sv_namespace = ''wordpress-sites'',
     sv_dbHost = ''mysql'', sv_dbPort = ''3306'', sv_metrics = None,
     sv_twoFA = Some (kube_two_factor mem_totp), sv_reconcile = None, sv_globals = default_globals,
     sv_codec = mem_codec\<rparr>"

definition login_request :: request where
  "login_request = \<lparr>rq_method = ''POST'', rq_path = ''/api/v1/login'', rq_auth = [],
     rq_body = \<lparr>bd_bytes = [], bd_error = None\<rparr>\<rparr>"

lemma mem_login: "rs_body (fst (run_state (login mem_server login_request) mem_empty)) = TokenBody ''token''"
  by (simp add: mem_server_def login_def mem_codec_def VerifyPassword_def mem_auth_def kube_two_factor_def
      Enabled_def run_load mem_totp_def failing_kube_def issue_token_def Issue_def run_simps mem_kube_def
      mem_empty_def writeJSON_def)

theorem login_needs_both_factors_witness:
  "\<exists>b. cx_login (sv_codec mem_server) (rq_body login_request) = Inr b \<and>
    lb_username b = au_username (sv_auth mem_server)"
proof -
  have "sv_twoFA mem_server = Some (kube_two_factor mem_totp)"
    by (simp add: mem_server_def)
  from login_needs_both_factors [OF this mem_login] show ?thesis by blast
qed

text \<open>
  C40. The second factor fails open: when reading the 2FA Secret fails with any error but NotFound
  (the API server is down, access is denied), the password alone gets a token, although 2FA may be
  on; no code is asked for or checked.
\<close>

theorem two_fa_fails_open:
  assumes "cx_login (sv_codec sv) (rq_body rq) = Inr b"
    and "VerifyPassword (sv_auth sv) (lb_username b) (lb_password b)"
    and "sv_twoFA sv = Some (kube_two_factor t)"
    and "k_getSecret (kt_kube t) (kt_namespace t) (kt_secretName t) (env w) = (Inl err, e)"
    and "\<not> is_not_found err"
  shows "run_state (login sv rq) w = run_state (issue_token sv (lb_username b))
    (w\<lparr>env := e, trace := trace w @ [(CGetSecret (kt_namespace t) (kt_secretName t), Some err)]\<rparr>)"
  using assms by (simp add: login_def kube_two_factor_def Enabled_def run_load)

theorem two_fa_fails_open_witness:
  "run_state (login mem_server login_request) mem_empty = run_state (issue_token mem_server ''admin'')
    (mem_empty\<lparr>env := env mem_empty, trace := trace mem_empty @
       [(CGetSecret (kt_namespace mem_totp) (kt_secretName mem_totp),
         Some (KubeErr OtherReason ''server is down''))]\<rparr>)"
proof -
  have "run_state (login mem_server login_request) mem_empty =
      run_state (issue_token mem_server (lb_username \<lparr>lb_username = ''admin'', lb_password = ''secret'', lb_totp = []\<rparr>))
      (mem_empty\<lparr>env := env mem_empty, trace := trace mem_empty @
       [(CGetSecret (kt_namespace mem_totp) (kt_secretName mem_totp),
         Some (KubeErr OtherReason ''server is down''))]\<rparr>)"
    by (rule two_fa_fails_open)
      (simp_all add: mem_server_def mem_codec_def VerifyPassword_def mem_auth_def mem_totp_def failing_kube_def)
  then show ?thesis by simp
qed

section \<open>Reading and refused requests\<close>

text \<open>
  The reading endpoints (health, login, list, preview, get, YAML, status, metrics, session and
  2FA status) write nothing to the cluster, in either mode of the server.
\<close>

theorem reading_endpoints_only_read:
  "list_all (\<lambda>ep. list_all read_call
      (emitted (run_endpoint (api_server g k q pk cx order p auth) ep user n rq) w)) read_endpoints"
proof -
  have "list_all read_call (emitted (run_endpoint (api_server g k q pk cx order p auth) ep user n rq) w)"
    if "ep \<in> set read_endpoints" for ep
    using emitsD [OF emits_read_endpoint [OF api_server_serves that]] by blast
  then show ?thesis by (simp add: list_all_iff)
qed

text \<open>A refusal (400, 401, 404) that leaves everything as it was, and what a created answer means.\<close>

definition clean_answer :: "response \<Rightarrow> traced list \<Rightarrow> bool" where
  "clean_answer r l \<longleftrightarrow>
     (rs_code r \<in> {400, 401, 404} \<longrightarrow> list_all read_call l) \<and>
     (rs_code r = 409 \<longrightarrow> list_ex (\<lambda>c. case c of (CCreateSite _, Some e) \<Rightarrow> is_already_exists e | _ \<Rightarrow> False) l) \<and>
     (rs_code r = 201 \<longrightarrow> list_ex (\<lambda>c. case c of (CCreateSite _, None) \<Rightarrow> True | _ \<Rightarrow> False) l) \<and>
     (rs_code r = 204 \<longrightarrow> list_ex (\<lambda>c. case c of (CDeleteSite _, None) \<Rightarrow> True | _ \<Rightarrow> False) l)"

definition site_endpoints :: "endpoint list" where
  "site_endpoints = [ECreateSite, EUpdateSite, EDeleteSite, EPutYAML, ESuspend, EResume]"

lemma code_notFoundOr500 [simp]: "rs_code (notFoundOr500 e) = (if is_not_found e then 404 else 500)"
  by (simp add: notFoundOr500_def writeError_def writeJSON_def)

lemma clean_refusal:
  "clean_answer (writeError 400 m) []" "clean_answer (notFoundOr500 e) [(CGetSite ns n, r)]"
  by (simp_all add: clean_answer_def writeError_def writeJSON_def)

lemma runs_reread: "(\<And>a l. Q a l) \<Longrightarrow> runs (reread sv s) Q"
  unfolding reread_def by (intro wp) simp_all

lemma clean_200_500:
  "clean_answer (writeJSON 200 b) l" "clean_answer (writeError 500 m) l"
  by (simp_all add: clean_answer_def writeError_def writeJSON_def)

lemma runs_store_site: "converges sv \<Longrightarrow> runs (store_site sv s) (\<lambda>r l. clean_answer r (k @ l))"
  unfolding store_site_def
  by (intro wp runs_maybeReconcile runs_reread) (simp_all add: clean_200_500)

lemma runs_site_endpoint:
  assumes "serves sv t" and "ep \<in> set site_endpoints"
  shows "runs (run_endpoint sv ep user n rq) clean_answer"
proof -
  have c: "converges sv" using assms(1) by (simp add: serves_def)
  have store: "runs (store_site sv s) (\<lambda>r l. clean_answer r ((CGetSite ns n, None) # l))" for s ns n
    using runs_store_site [OF c, of s "[(CGetSite ns n, None)]"] by simp
  have "runs (createSite sv n rq) clean_answer"
    unfolding createSite_def
    by (intro wp runs_maybeReconcile c runs_reread)
      (auto simp: clean_refusal clean_answer_def writeError_def writeJSON_def)
  moreover have "runs (deleteSite sv n rq) clean_answer"
    unfolding deleteSite_def
    by (intro runs_with_site wp runs_maybeReconcile c)
      (auto simp: clean_refusal clean_answer_def writeError_def writeJSON_def)
  moreover have "runs (updateSite sv n rq) clean_answer" "runs (updateSiteYAML sv n rq) clean_answer"
    "runs (setSuspend sv b n rq) clean_answer" for b
    by (unfold updateSite_def updateSiteYAML_def setSuspend_def;
        intro wp runs_with_site store clean_refusal)+
  ultimately show ?thesis
    using assms(2) by (auto simp: site_endpoints_def)
qed

text \<open>
  C13. A refused request leaves no trace: when create, update, delete, YAML update, suspend or
  resume answers 400 or 404, nothing was written; a conflict is answered only when the API server
  reported that the site exists; created and deleted only when it accepted the call.
\<close>

theorem refusals_write_nothing:
  "list_all (\<lambda>ep. clean_answer
      (fst (run_state (run_endpoint (api_server g k q pk cx order p auth) ep user n rq) w))
      (emitted (run_endpoint (api_server g k q pk cx order p auth) ep user n rq) w)) site_endpoints"
proof -
  have "clean_answer (fst (run_state (run_endpoint (api_server g k q pk cx order p auth) ep user n rq) w))
      (emitted (run_endpoint (api_server g k q pk cx order p auth) ep user n rq) w)"
    if "ep \<in> set site_endpoints" for ep
    by (rule runsD [OF runs_site_endpoint [OF api_server_serves that]])
  then show ?thesis by (simp add: list_all_iff)
qed

end
