(* ===== verification/DtoProps.thy ===== *)
theory DtoProps
imports Wiring Fixtures "HOL-Library.Multiset"
begin

text \<open>
  The properties of the data of the admin API: what the conversions between the form and the custom
  resource keep, which events are shown, and when the rendered manifests are the deployed ones.
\<close>

section \<open>The form and the custom resource\<close>

text \<open>
  Round trip of a create: reading back the site a form creates gives the form, with the defaults
  made explicit (one replica, forced HTTPS) and the read-only part empty; the form's flag
  \<open>suspended\<close> is not taken over.
\<close>

theorem create_round_trip:
  "toDTO (toSite d ns) = d
     \<lparr>sd_replicas := (if sd_replicas d = 0 then 1 else sd_replicas d),
      sd_forceHTTPS := Some (case sd_forceHTTPS d of None \<Rightarrow> True | Some b \<Rightarrow> b),
      sd_suspended := False, sd_phase := [], sd_message := [], sd_url := [],
      sd_databaseName := [], sd_databaseUser := []\<rparr>"
  by (simp add: toDTO_def toSite_def new_site_def new_meta_def empty_spec_def empty_status_def
      ForceHTTPSEnabled_def latestConditionMessage_def site_dto.equality)

text \<open>
  Editing a site with its own form changes nothing but defaults, except that a custom name of
  the TLS secret is lost: the Ingress falls back to the generated name.
\<close>

theorem resubmitting_the_form:
  "patched_spec (toDTO s) (site_spec s) = (site_spec s)
     \<lparr>sp_replicas := Some (case sp_replicas (site_spec s) of None \<Rightarrow> 1 | Some r \<Rightarrow> r),
      sp_forceHTTPS := Some (ForceHTTPSEnabled s),
      sp_tls := (sp_tls (site_spec s))\<lparr>tls_secretName := []\<rparr>\<rparr> \<and>
   TLSSecretName (s\<lparr>site_spec := patched_spec (toDTO s) (site_spec s)\<rparr>) = site_name s @ ''-tls''"
  by (auto simp: patched_spec_def toDTO_def TLSSecretName_def site_spec.equality tls_spec.equality word_sless_alt
      split: option.split)

text \<open>What a form edit must leave alone, and what it takes from the form.\<close>

definition unmodelled_kept :: "site \<Rightarrow> site \<Rightarrow> bool" where
  "unmodelled_kept s s' \<longleftrightarrow> site_meta s' = site_meta s \<and> site_status s' = site_status s \<and>
     sp_resources (site_spec s') = sp_resources (site_spec s) \<and>
     sp_storage (site_spec s') = sp_storage (site_spec s) \<and>
     sp_database (site_spec s') = sp_database (site_spec s) \<and>
     sp_ingressAnnotations (site_spec s') = sp_ingressAnnotations (site_spec s) \<and>
     sp_env (site_spec s') = sp_env (site_spec s) \<and>
     sp_suspend (site_spec s') = sp_suspend (site_spec s)"

definition form_taken :: "site_dto \<Rightarrow> site_spec \<Rightarrow> site_spec \<Rightarrow> bool" where
  "form_taken dto sp sp' \<longleftrightarrow> sp_domain sp' = sd_domain dto \<and> sp_aliases sp' = sd_aliases dto \<and>
     sp_image sp' = sd_image dto \<and>
     sp_replicas sp' = (if 0 < sint (sd_replicas dto) then Some (sd_replicas dto) else sp_replicas sp) \<and>
     sp_ingressClassName sp' = sd_ingressClass dto \<and> sp_tablePrefix sp' = sd_tablePrefix dto \<and>
     sp_phpConfig sp' = sd_phpConfig dto \<and> sp_phpIni sp' = sd_phpIni dto \<and>
     sp_forceHTTPS sp' = (if sd_forceHTTPS dto = None then sp_forceHTTPS sp else sd_forceHTTPS dto) \<and>
     tls_enabled (sp_tls sp') = sd_tlsEnabled dto \<and> tls_issuer (sp_tls sp') = sd_tlsIssuer dto \<and>
     tls_secretName (sp_tls sp') = []"

text \<open>
  C32. In production (no in-process reconciler), a form edit of a stored site sends exactly one update,
  of the site that was just read, with every field the form shows taken from it (replicas only when
  positive, forced HTTPS only when given), and with everything the form does not model (resources,
  storage, database, annotations, environment, suspension, metadata, status) as it was, except the name
  of the TLS secret, which is reset.
\<close>

theorem form_edit_keeps_the_rest:
  assumes "cx_site (sv_codec sv) (rq_body rq) = Inr dto" and "sd_domain dto \<noteq> []"
    and "sv_reconcile sv = None"
    and "k_getSite (sv_kube sv) (sv_namespace sv) n (env w) = (Inr s, e)"
  shows "\<exists>s' r. emitted (updateSite sv n rq) w =
      [(CGetSite (sv_namespace sv) n, None), (CUpdateSite s', r)] \<and> unmodelled_kept s s' \<and>
      form_taken dto (site_spec s) (site_spec s')"
proof -
  let ?s = "s\<lparr>site_spec := patched_spec dto (site_spec s)\<rparr>"
  obtain x e' where u: "k_updateSite (sv_kube sv) ?s e = (x, e')"
    by fastforce
  have "emitted (updateSite sv n rq) w =
      [(CGetSite (sv_namespace sv) n, None), (CUpdateSite ?s, err_of x)]"
    using assms u by (cases x)
      (simp_all add: emitted_def updateSite_def with_site_def fetch_def store_site_def run_simps
        maybeReconcile_def reread_def)
  then show ?thesis
    by (intro exI [of _ ?s] exI [of _ "err_of x"]) 
      (simp add: unmodelled_kept_def form_taken_def patched_spec_def word_sless_alt split: option.split)
qed

definition edit_form :: site_dto where
  "edit_form = (toDTO sample_site)\<lparr>sd_aliases := [''www.blog.acme.example'']\<rparr>"

definition edit_server :: "mem server" where
  "edit_server = \<lparr>sv_kube = mem_kube,
     sv_auth = \<lparr>au_pkg = \<lparr>a_bcryptGenerate = \<lambda>p e. (Inr p, e), a_bcryptCompare = \<lambda>h p. h = p,
       a_sign = \<lambda>c key e. (Inr ''token'', e), a_parse = \<lambda>t f e. (Inl (GoErr ''expired''), e)\<rparr>,
       au_kube = mem_kube, au_username = ''admin'', au_passwordHash = ''secret'',
       au_jwtSecret = ''key'', au_ttl = 86400\<rparr>,
     sv_namespace = ''wordpress-sites'', sv_dbHost = ''mysql'', sv_dbPort = ''3306'', sv_metrics = None,
     sv_twoFA = None, sv_reconcile = None, sv_globals = default_globals,
     sv_codec = \<lparr>cx_site = \<lambda>b. Inr edit_form, cx_login = \<lambda>b. Inl (GoErr ''EOF''),
       cx_code = \<lambda>b. Inl (GoErr ''EOF''), cx_yamlSite = \<lambda>t. Inl (GoErr ''EOF''),
       cx_yamlDoc = \<lambda>d. Inr [], cx_yamlObject = \<lambda>b. Inr [], cx_time = \<lambda>t. [], cx_arrange = \<lambda>es. es\<rparr>\<rparr>"

definition edit_request :: request where
  "edit_request = \<lparr>rq_method = ''PUT'', rq_path = ''/api/v1/sites/blog-acme'', rq_auth = ''Bearer t'',
     rq_body = \<lparr>bd_bytes = [], bd_error = None\<rparr>\<rparr>"

definition mem_with_site :: "mem state_of" where
  "mem_with_site = mem_empty\<lparr>env := (env mem_empty)
     \<lparr>mm_sites := [(''wordpress-sites'', ''blog-acme'') \<mapsto> sample_site]\<rparr>\<rparr>"

theorem form_edit_keeps_the_rest_witness:
  "\<exists>s' r. emitted (updateSite edit_server ''blog-acme'' edit_request) mem_with_site =
      [(CGetSite (sv_namespace edit_server) ''blog-acme'', None), (CUpdateSite s', r)] \<and>
      unmodelled_kept sample_site s' \<and> form_taken edit_form (site_spec sample_site) (site_spec s')"
  by (rule form_edit_keeps_the_rest)
    (simp_all add: edit_server_def edit_form_def toDTO_def sample_site_def new_site_def empty_spec_def
      mem_kube_def mem_get_def mem_with_site_def mem_empty_def)

section \<open>Events\<close>

text \<open>
  The events of a site are the newest: at most 25 of those that involve the site are shown,
  newest first, and no event left out is newer than one that is shown.
\<close>

theorem newest_events_shown:
  assumes "mset (arrange xs) = mset xs"
    and "sorted_wrt (\<lambda>a b. \<not> str_less (ed_lastSeen a) (ed_lastSeen b)) (arrange xs)"
    and "xs = map (eventDTO fmt) (filter (event_of_site n) es)"
  shows "\<exists>hidden. mset (shown_events fmt arrange n es @ hidden) = mset xs \<and>
    length (shown_events fmt arrange n es) = min 25 (length xs) \<and>
    sorted_wrt (\<lambda>a b. \<not> str_less (ed_lastSeen a) (ed_lastSeen b)) (shown_events fmt arrange n es) \<and>
    list_all (\<lambda>a. list_all (\<lambda>b. \<not> str_less (ed_lastSeen a) (ed_lastSeen b)) hidden)
      (shown_events fmt arrange n es)"
proof -
  let ?l = "arrange xs"
  have shown: "shown_events fmt arrange n es = take 25 ?l"
    by (simp add: shown_events_def assms(3))
  have "length ?l = length xs"
    using assms(1) by (rule mset_eq_length)
  moreover have "sorted_wrt (\<lambda>a b. \<not> str_less (ed_lastSeen a) (ed_lastSeen b)) (take 25 ?l @ drop 25 ?l)"
    using assms(2) by simp
  ultimately show ?thesis
    unfolding shown sorted_wrt_append
    by (intro exI [of _ "drop 25 ?l"]) (auto simp: assms(1) list_all_iff min_def)
qed

definition two_events :: "kube_event list" where
  "two_events =
     [\<lparr>ke_type = ''Normal'', ke_reason = ''Pulled'', ke_message = [], ke_count = 1, ke_kind = ''Pod'',
       ke_name = ''blog-acme-x'', ke_lastTimestamp = At 1, ke_eventTime = ZeroTime\<rparr>,
      \<lparr>ke_type = ''Warning'', ke_reason = ''BackOff'', ke_message = [], ke_count = 0, ke_kind = ''Pod'',
       ke_name = ''blog-acme-x'', ke_lastTimestamp = ZeroTime, ke_eventTime = At 2\<rparr>]"

definition short_time :: "gotime \<Rightarrow> string" where
  "short_time t = (if t = At 1 then ''1'' else ''2'')"

theorem newest_events_shown_witness:
  "\<exists>hidden. mset (shown_events short_time rev ''blog-acme'' two_events @ hidden) =
      mset (map (eventDTO short_time) (filter (event_of_site ''blog-acme'') two_events)) \<and>
    length (shown_events short_time rev ''blog-acme'' two_events) =
      min 25 (length (map (eventDTO short_time) (filter (event_of_site ''blog-acme'') two_events)))"
proof -
  have "mset (rev xs) = mset xs" for xs :: "event_dto list"
    by simp
  moreover have "sorted_wrt (\<lambda>a b. \<not> str_less (ed_lastSeen a) (ed_lastSeen b))
      (rev (map (eventDTO short_time) (filter (event_of_site ''blog-acme'') two_events)))"
    by (simp add: two_events_def event_of_site_def has_prefix_def eventDTO_def short_time_def
        time_text_def byte_of_def)
  ultimately show ?thesis
    using newest_events_shown [OF _ _ refl, of rev short_time "''blog-acme''" two_events] by blast
qed

section \<open>Rendered manifests\<close>

text \<open>
  C36. The Deployment, Service and Ingress the API server shows, with its own environment \<open>g\<close>, are the
  ones the operator builds to apply, with its environment \<open>g'\<close>, exactly when both have the same MySQL
  address (host and port, each with its default), the site names its volume claim or the operator runs
  with the default claim, and likewise for the ingress class: the API server never learns the operator's
  settings. (The controller reference the operator adds to each object is not shown.)
\<close>

theorem rendered_iff_deployed:
  "rendered_objects (api_server g k q pk cx order p auth) s =
     tl (desired_objects (operator_reconciler g' k' q') s) \<longleftrightarrow>
   env_or g ''MYSQL_HOST'' ''mysql'' @ '':'' @ env_or g ''MYSQL_PORT'' ''3306'' =
     env_or g' ''MYSQL_HOST'' ''mysql'' @ '':'' @ env_or g' ''MYSQL_PORT'' ''3306'' \<and>
   (st_sharedPVCName (sp_storage (site_spec s)) \<noteq> [] \<or>
      env_or g' ''SHARED_PVC_NAME'' ''wordpress-shared'' = ''wordpress-shared'') \<and>
   (sp_ingressClassName (site_spec s) \<noteq> [] \<or> env_or g' ''INGRESS_CLASS'' ''nginx'' = ''nginx'')"
proof -
  let ?host = "\<lambda>g. env_or g ''MYSQL_HOST'' ''mysql''" and ?port = "\<lambda>g. env_or g ''MYSQL_PORT'' ''3306''"
  have env: "dep_env s h p = dep_env s h' p' \<longleftrightarrow> h @ '':'' @ p = h' @ '':'' @ p'" for h p h' p'
    by (simp add: dep_env_def generated_env_def env_value_def)
  show ?thesis
    by (auto simp: rendered_objects_def desired_objects_def api_server_def operator_reconciler_def
        operator_globals_def default_globals_def DefaultSharedPVCName_def DefaultIngressClass_def
        DesiredDeployment_def DesiredIngress_def dep_volume_list_def SharedPVCName_def env)
qed

definition traefik_env :: getenv where
  "traefik_env key = (if key = ''INGRESS_CLASS'' then ''traefik'' else [])"

theorem rendered_iff_deployed_witness:
  "\<forall>pk cx order p auth. rendered_objects (api_server (\<lambda>_. []) mem_kube mem_drv pk cx order p auth) sample_site \<noteq>
     tl (desired_objects (operator_reconciler traefik_env mem_kube mem_drv) sample_site)"
  unfolding rendered_iff_deployed
  by (simp add: traefik_env_def env_or_def sample_site_def new_site_def empty_spec_def)

end
