(* ===== verification/DeepCopy.thy ===== *)
theory DeepCopy
imports ApiTypes
begin

text \<open>
  api/v1alpha1/zz_generated.deepcopy.go, which this repository maintains by hand. Here sharing
  matters, so the structs are modelled with their pointers into an explicit heap: a list of cells,
  an address being a position and an allocation an appended cell. A slice is the address of its
  array, nil or not; a struct holds its flat parts and its references. The structs of other modules
  (ObjectMeta, ListMeta, ResourceRequirements, EnvVar, Condition) are a parameter: values of type
  \<open>'x\<close> with their own \<open>DeepCopyInto\<close>. The locale \<open>deep_copier\<close> is what a deep copy promises.
\<close>

section \<open>Structs with references\<close>

type_synonym ref_of = "nat option"

record spec_flat =
  sf_domain :: string
  sf_image :: string
  sf_storage :: storage_spec
  sf_database :: database_spec
  sf_tls :: tls_spec
  sf_ingressClassName :: string
  sf_phpConfig :: string
  sf_phpIni :: string
  sf_tablePrefix :: string
  sf_suspend :: bool

record 'x go_spec =
  gp_flat :: spec_flat
  gp_aliases :: ref_of
  gp_replicas :: ref_of
  gp_resources :: 'x
  gp_ingressAnnotations :: ref_of
  gp_env :: ref_of
  gp_forceHTTPS :: ref_of

record status_flat =
  tf_phase :: string
  tf_url :: string
  tf_databaseName :: string
  tf_databaseUser :: string
  tf_secretName :: string
  tf_observedGeneration :: i64

record 'x go_status =
  gt_flat :: status_flat
  gt_conditions :: ref_of

record type_meta =
  ty_kind :: string
  ty_apiVersion :: string

record 'x go_site =
  go_type :: type_meta
  go_meta :: 'x
  go_spec_of :: "'x go_spec"
  go_status_of :: "'x go_status"

record 'x go_list =
  gl_type :: type_meta
  gl_meta :: 'x
  gl_items :: ref_of

text \<open>What a cell holds: the arrays, the targets of pointers, the maps, and cells of other modules.\<close>

datatype 'x cell =
    Strings (strings_of: "string list")
  | Int32 i32
  | Boolean bool
  | Table sdata
  | Structs (structs_of: "'x list")
  | Sites (sites_of: "'x go_site list")
  | ASite (the_site: "'x go_site")
  | AList (the_list: "'x go_list")
  | ASpec (the_spec: "'x go_spec")
  | AStatus (the_status: "'x go_status")
  | Foreign 'x
where
  "strings_of (Int32 _) = []" | "strings_of (Boolean _) = []" | "strings_of (Table _) = []"
| "strings_of (Structs _) = []" | "strings_of (Sites _) = []" | "strings_of (ASite _) = []"
| "strings_of (AList _) = []" | "strings_of (ASpec _) = []" | "strings_of (AStatus _) = []"
| "strings_of (Foreign _) = []"
| "structs_of (Int32 _) = []" | "structs_of (Boolean _) = []" | "structs_of (Table _) = []"
| "structs_of (Strings _) = []" | "structs_of (Sites _) = []" | "structs_of (ASite _) = []"
| "structs_of (AList _) = []" | "structs_of (ASpec _) = []" | "structs_of (AStatus _) = []"
| "structs_of (Foreign _) = []"
| "sites_of (Int32 _) = []" | "sites_of (Boolean _) = []" | "sites_of (Table _) = []"
| "sites_of (Structs _) = []" | "sites_of (Strings _) = []" | "sites_of (ASite _) = []"
| "sites_of (AList _) = []" | "sites_of (ASpec _) = []" | "sites_of (AStatus _) = []"
| "sites_of (Foreign _) = []"

type_synonym 'x heap = "'x cell list"
type_synonym ('x, 'a) copier = "'a \<Rightarrow> 'x heap \<Rightarrow> 'a \<times> 'x heap"

section \<open>The contract\<close>

text \<open>
  \<open>copy\<close> answers a value and the heap after it; \<open>val h a\<close> is the value of \<open>a\<close> with every
  reference followed, \<open>reach h a\<close> the cells it is read from.
\<close>

locale deep_copier =
  fixes copy :: "('x, 'a) copier"
    and val :: "'x heap \<Rightarrow> 'a \<Rightarrow> 'v"
    and reach :: "'x heap \<Rightarrow> 'a \<Rightarrow> nat set"
  assumes frame: "\<lbrakk>\<And>i. i \<in> reach h a \<Longrightarrow> i < length h' \<and> h' ! i = h ! i; reach h a \<subseteq> {..<length h}\<rbrakk> \<Longrightarrow>
      val h' a = val h a \<and> reach h' a = reach h a"
    and copied: "\<lbrakk>copy a h = (b, h'); reach h a \<subseteq> {..<length h}\<rbrakk> \<Longrightarrow>
      take (length h) h' = h \<and> length h \<le> length h' \<and> val h' b = val h a \<and>
      reach h' b \<subseteq> {length h..<length h'}"
begin

text \<open>What was there before a copy is still there, with the same value.\<close>

lemma extend:
  assumes "reach h a \<subseteq> {..<length h}" and "take (length h) h' = h" and "length h \<le> length h'"
  shows "val h' a = val h a" and "reach h' a = reach h a"
proof -
  have "i < length h' \<and> h' ! i = h ! i" if "i \<in> reach h a" for i
    using assms that by (metis lessThan_iff nth_take order_less_le_trans subsetD)
  from frame [OF this assms(1)] show "val h' a = val h a" and "reach h' a = reach h a"
    by simp_all
qed

text \<open>Writing to other cells does not change a value.\<close>

lemma other_cells:
  assumes "reach h a \<subseteq> {..<length h}" and "k \<notin> reach h a"
  shows "val (h[k := c]) a = val h a" and "reach (h[k := c]) a = reach h a"
proof -
  have "i < length (h[k := c]) \<and> h[k := c] ! i = h ! i" if "i \<in> reach h a" for i
    using assms that by (metis length_list_update lessThan_iff nth_list_update_neq subsetD)
  from frame [OF this assms(1)] show "val (h[k := c]) a = val h a" and "reach (h[k := c]) a = reach h a"
    by simp_all
qed

end

section \<open>Pointers, slices and maps\<close>

definition alloc :: "'x cell \<Rightarrow> 'x heap \<Rightarrow> nat \<times> 'x heap" where
  "alloc c h = (length h, h @ [c])"

text \<open>\<open>if in.P != nil { v := *in.P; out.P = &v }\<close>, and a map copied entry by entry.\<close>

definition copy_ptr :: "('x, ref_of) copier" where
  "copy_ptr p h = (case p of
     None \<Rightarrow> (None, h)
   | Some a \<Rightarrow> (case alloc (h ! a) h of (b, h1) \<Rightarrow> (Some b, h1)))"

text \<open>\<open>append([]string(nil), in.Aliases...)\<close>: nil, not an empty slice, when there is nothing to append.\<close>

definition copy_strings :: "('x, ref_of) copier" where
  "copy_strings p h = (case p of
     None \<Rightarrow> (None, h)
   | Some a \<Rightarrow> if strings_of (h ! a) = [] then (None, h)
       else (case alloc (Strings (strings_of (h ! a))) h of (b, h1) \<Rightarrow> (Some b, h1)))"

text \<open>
  \<open>l := make([]T, len(in)); for i := range in { in[i].DeepCopyInto(&l[i]) }\<close>, for the arrays that
  \<open>get\<close> and \<open>put\<close> read from and write to a cell.
\<close>

fun copy_loop ::
  "('x, 'b) copier \<Rightarrow> ('x cell \<Rightarrow> 'b list) \<Rightarrow> ('b list \<Rightarrow> 'x cell) \<Rightarrow> nat \<Rightarrow> nat \<Rightarrow> nat list \<Rightarrow>
   'x heap \<Rightarrow> 'x heap" where
  "copy_loop copy get put src dst [] h = h"
| "copy_loop copy get put src dst (i # is) h =
     (case copy (get (h ! src) ! i) h of (y, h1) \<Rightarrow>
        copy_loop copy get put src dst is (h1[dst := put ((get (h1 ! dst))[i := y])]))"

definition copy_slice ::
  "('x, 'b) copier \<Rightarrow> 'b \<Rightarrow> ('x cell \<Rightarrow> 'b list) \<Rightarrow> ('b list \<Rightarrow> 'x cell) \<Rightarrow> ('x, ref_of) copier" where
  "copy_slice copy zero get put p h = (case p of
     None \<Rightarrow> (None, h)
   | Some a \<Rightarrow> (case alloc (put (replicate (length (get (h ! a))) zero)) h of
       (b, h1) \<Rightarrow> (Some b, copy_loop copy get put a b [0..<length (get (h ! a))] h1)))"

definition ref_reach :: "'x heap \<Rightarrow> ref_of \<Rightarrow> nat set" where
  "ref_reach h p = set_option p"

definition ptr_val :: "'x heap \<Rightarrow> ref_of \<Rightarrow> 'x cell option" where
  "ptr_val h p = map_option (\<lambda>a. h ! a) p"

definition strings_val :: "'x heap \<Rightarrow> ref_of \<Rightarrow> string list" where
  "strings_val h p = (case p of None \<Rightarrow> [] | Some a \<Rightarrow> strings_of (h ! a))"

definition slice_val ::
  "('x heap \<Rightarrow> 'b \<Rightarrow> 'v) \<Rightarrow> ('x cell \<Rightarrow> 'b list) \<Rightarrow> 'x heap \<Rightarrow> ref_of \<Rightarrow> 'v list option" where
  "slice_val val get h p = map_option (\<lambda>a. map (val h) (get (h ! a))) p"

definition slice_reach ::
  "('x heap \<Rightarrow> 'b \<Rightarrow> nat set) \<Rightarrow> ('x cell \<Rightarrow> 'b list) \<Rightarrow> 'x heap \<Rightarrow> ref_of \<Rightarrow> nat set" where
  "slice_reach reach get h p =
     (case p of None \<Rightarrow> {} | Some a \<Rightarrow> insert a (\<Union>x \<in> set (get (h ! a)). reach h x))"

lemma ptr_frame:
  assumes "\<And>i. i \<in> ref_reach h p \<Longrightarrow> i < length h' \<and> h' ! i = h ! i"
  shows "ptr_val h' p = ptr_val h p" and "strings_val h' p = strings_val h p"
    and "ref_reach h' p = ref_reach h p"
  using assms by (cases p; simp add: ptr_val_def strings_val_def ref_reach_def)+

interpretation pointers: deep_copier copy_ptr ptr_val ref_reach
  by unfold_locales
    (use ptr_frame in blast, auto simp: copy_ptr_def ptr_val_def ref_reach_def alloc_def split: option.splits)

interpretation string_slices: deep_copier copy_strings strings_val ref_reach
  by unfold_locales
    (use ptr_frame in blast, auto simp: copy_strings_def strings_val_def ref_reach_def alloc_def split: option.splits if_splits)

section \<open>Composing copies\<close>

context deep_copier
begin

text \<open>One more element of an array is copied.\<close>

text \<open>One element: its copy is entered, and the elements copied before it are as they were.\<close>

lemma copy_loop_step:
  assumes put: "\<And>l. get (put l) = l" and in_base: "reach base (xs ! i) \<subseteq> {..<length base}"
    and i: "i < length xs" "length ys = length xs"
    and before: "\<And>j. j < i \<Longrightarrow> val (base @ put ys # l) (ys ! j) = val base (xs ! j) \<and>
      reach (base @ put ys # l) (ys ! j) \<subseteq> {Suc (length base)..<length (base @ put ys # l)}"
    and y: "copy (xs ! i) (base @ put ys # l) = (y, h1)"
  obtains l' where "h1[length base := put ((get (h1 ! length base))[i := y])] = base @ put (ys[i := y]) # l'"
    and "\<And>j. j < Suc i \<Longrightarrow> val (base @ put (ys[i := y]) # l') (ys[i := y] ! j) = val base (xs ! j) \<and>
      reach (base @ put (ys[i := y]) # l') (ys[i := y] ! j) \<subseteq>
        {Suc (length base)..<length (base @ put (ys[i := y]) # l')}"
proof -
  let ?h = "base @ put ys # l" and ?ys = "ys[i := y]"
  have from_base: "val ?h (xs ! i) = val base (xs ! i)" "reach ?h (xs ! i) = reach base (xs ! i)"
    using extend [OF in_base, of ?h] by simp_all
  have fits: "reach ?h (xs ! i) \<subseteq> {..<length ?h}"
    using in_base by (auto simp: from_base)
  have c: "take (length ?h) h1 = ?h" "length ?h \<le> length h1" "val h1 y = val base (xs ! i)"
    "reach h1 y \<subseteq> {length ?h..<length h1}"
    using copied [OF y fits] from_base by simp_all
  then obtain m where h1: "h1 = base @ put ys # l @ m"
    by (metis append_Cons append_assoc append_take_drop_id)
  let ?h2 = "base @ put ?ys # l @ m"
  have new: "val ?h2 z = val h1 z \<and> reach ?h2 z \<subseteq> {Suc (length base)..<length ?h2}"
    if z: "reach h1 z \<subseteq> {Suc (length base)..<length h1}" for z
  proof -
    have "reach h1 z \<subseteq> {..<length h1}" "length base \<notin> reach h1 z"
      using z by auto
    from other_cells [OF this, of "put ?ys"] z show ?thesis
      by (simp add: h1 list_update_append)
  qed
  have old: "val h1 (ys ! j) = val ?h (ys ! j) \<and> reach h1 (ys ! j) = reach ?h (ys ! j)" if "j < i" for j
    using extend [of ?h "ys ! j" h1] c(1,2) before [OF that] by (auto simp: subset_iff)
  have "val ?h2 (?ys ! j) = val base (xs ! j) \<and> reach ?h2 (?ys ! j) \<subseteq> {Suc (length base)..<length ?h2}"
    if j: "j < Suc i" for j
  proof (cases "j = i")
    case True
    have "reach h1 y \<subseteq> {Suc (length base)..<length h1}"
      using c(4) by auto
    from new [OF this] c(3) i True show ?thesis
      by simp
  next
    case False
    with j have "j < i" by simp
    note b = old [OF this] before [OF this]
    then have "reach h1 (ys ! j) \<subseteq> {Suc (length base)..<length h1}"
      by (auto simp: h1)
    from new [OF this] b False show ?thesis
      by simp
  qed
  moreover have "h1[length base := put ((get (h1 ! length base))[i := y])] = ?h2"
    by (simp add: h1 put list_update_append)
  ultimately show thesis
    by (rule that [rotated])
qed

lemma copy_loop_spec:
  assumes put: "\<And>l. get (put l) = l"
    and "src < length base" and "\<And>x. x \<in> set (get (base ! src)) \<Longrightarrow> reach base x \<subseteq> {..<length base}"
    and "i + length is = length (get (base ! src))" and "is = [i..<length (get (base ! src))]"
    and "length ys = length (get (base ! src))"
    and "\<And>j. j < i \<Longrightarrow> val (base @ put ys # l) (ys ! j) = val base (get (base ! src) ! j) \<and>
      reach (base @ put ys # l) (ys ! j) \<subseteq> {Suc (length base)..<length (base @ put ys # l)}"
  shows "\<exists>zs l'. copy_loop copy get put src (length base) is (base @ put ys # l) = base @ put zs # l' \<and>
    length zs = length (get (base ! src)) \<and>
    (\<forall>j < length zs. val (base @ put zs # l') (zs ! j) = val base (get (base ! src) ! j) \<and>
      reach (base @ put zs # l') (zs ! j) \<subseteq> {Suc (length base)..<length (base @ put zs # l')})"
  using assms(4-)
proof (induction "is" arbitrary: i ys l)
  case Nil
  then show ?case
    by (intro exI [of _ ys] exI [of _ l]) simp
next
  case (Cons k "is")
  let ?xs = "get (base ! src)" and ?h = "base @ put ys # l"
  have k: "k = i" "i < length ?xs" "is = [Suc i..<length ?xs]"
    using Cons.prems(2) [symmetric] by (auto simp: upt_eq_Cons_conv)
  have src: "?h ! src = base ! src"
    using assms(2) by (simp add: nth_append)
  have in_base: "reach base (?xs ! i) \<subseteq> {..<length base}"
    using assms(3) k(2) by simp
  obtain y h1 where y: "copy (?xs ! i) ?h = (y, h1)"
    by fastforce
  obtain l' where h2: "h1[length base := put ((get (h1 ! length base))[i := y])] = base @ put (ys[i := y]) # l'"
    and step: "\<And>j. j < Suc i \<Longrightarrow> val (base @ put (ys[i := y]) # l') (ys[i := y] ! j) = val base (?xs ! j) \<and>
      reach (base @ put (ys[i := y]) # l') (ys[i := y] ! j) \<subseteq> {Suc (length base)..<length (base @ put (ys[i := y]) # l')}"
    by (rule copy_loop_step [where xs = ?xs, OF put in_base k(2) Cons.prems(3,4) y]) blast+
  show ?case
    using Cons.IH [of "Suc i" "ys[i := y]" l'] Cons.prems(1,3) k(1,3) step
    by (simp add: src y h2 del: copy_loop.simps(1))
qed

lemma slice_copied:
  assumes put: "\<And>l. get (put l) = l" and c: "copy_slice copy zero get put p h = (q, h')"
    and r: "slice_reach reach get h p \<subseteq> {..<length h}"
  shows "take (length h) h' = h \<and> length h \<le> length h' \<and>
    slice_val val get h' q = slice_val val get h p \<and>
    slice_reach reach get h' q \<subseteq> {length h..<length h'}"
proof (cases p)
  case None
  then show ?thesis
    using c by (simp add: copy_slice_def slice_val_def slice_reach_def)
next
  case (Some a)
  let ?xs = "get (h ! a)"
  have a: "a < length h" "\<And>x. x \<in> set ?xs \<Longrightarrow> reach h x \<subseteq> {..<length h}"
    using r Some by (auto simp: slice_reach_def)
  obtain zs l' where z: "copy_loop copy get put a (length h) [0..<length ?xs]
        (h @ put (replicate (length ?xs) zero) # []) = h @ put zs # l'" "length zs = length ?xs"
      "\<forall>j < length zs. val (h @ put zs # l') (zs ! j) = val h (?xs ! j) \<and>
         reach (h @ put zs # l') (zs ! j) \<subseteq> {Suc (length h)..<length (h @ put zs # l')}"
    using copy_loop_spec [OF put a, of 0 "[0..<length ?xs]" "replicate (length ?xs) zero" "[]"] by auto
  then have q: "q = Some (length h)" "h' = h @ put zs # l'"
    using c Some by (simp_all add: copy_slice_def alloc_def)
  have "slice_val val get h' q = slice_val val get h p"
    using z(2,3) Some by (auto simp: q slice_val_def put intro: nth_equalityI)
  moreover have "slice_reach reach get h' q \<subseteq> {length h..<length h'}"
    using z(3) by (fastforce simp: q slice_reach_def put in_set_conv_nth)
  ultimately show ?thesis
    by (simp add: q)
qed

lemma slice_frame:
  assumes same: "\<And>i. i \<in> slice_reach reach get h p \<Longrightarrow> i < length h' \<and> h' ! i = h ! i"
    and r: "slice_reach reach get h p \<subseteq> {..<length h}"
  shows "slice_val val get h' p = slice_val val get h p \<and>
    slice_reach reach get h' p = slice_reach reach get h p"
proof (cases p)
  case (Some a)
  have "val h' x = val h x \<and> reach h' x = reach h x" if "x \<in> set (get (h ! a))" for x
    using same r Some that by (intro frame) (auto simp: slice_reach_def)
  moreover have "h' ! a = h ! a"
    using same Some by (simp add: slice_reach_def)
  ultimately show ?thesis
    using Some by (simp add: slice_val_def slice_reach_def)
qed (simp add: slice_val_def slice_reach_def)

end

text \<open>A slice of copied elements is copied, and so are a pair and a struct around copied parts.\<close>

lemma deep_copier_slice:
  assumes "deep_copier copy val reach" and "\<And>l. get (put l) = l"
  shows "deep_copier (copy_slice copy zero get put) (slice_val val get) (slice_reach reach get)"
proof (rule deep_copier.intro, goal_cases)
  case 1
  then show ?case
    by (intro deep_copier.slice_frame [OF assms(1)])
next
  case 2
  then show ?case
    by (intro deep_copier.slice_copied [OF assms])
qed

definition copy_both :: "('x, 'a) copier \<Rightarrow> ('x, 'b) copier \<Rightarrow> ('x, 'a \<times> 'b) copier" where
  "copy_both c d p h = (case c (fst p) h of (x, h1) \<Rightarrow> case d (snd p) h1 of (y, h2) \<Rightarrow> ((x, y), h2))"

lemma deep_copier_both:
  assumes "deep_copier c v r" and "deep_copier d w s"
  shows "deep_copier (copy_both c d) (\<lambda>h p. (v h (fst p), w h (snd p))) (\<lambda>h p. r h (fst p) \<union> s h (snd p))"
proof (rule deep_copier.intro, goal_cases)
  case (1 h p h')
  then have "v h' (fst p) = v h (fst p) \<and> r h' (fst p) = r h (fst p)"
    and "w h' (snd p) = w h (snd p) \<and> s h' (snd p) = s h (snd p)"
    by (intro deep_copier.frame [OF assms(1)] deep_copier.frame [OF assms(2)]; simp)+
  then show ?case
    by simp
next
  case (2 p h q h')
  obtain x h1 where x: "c (fst p) h = (x, h1)"
    by fastforce
  obtain y where y: "d (snd p) h1 = (y, h')" and q: "q = (x, y)"
    using 2(1) x by (auto simp: copy_both_def split: prod.splits)
  note cx = deep_copier.copied [OF assms(1) x]
  note keep = deep_copier.extend [OF assms(2), of h "snd p" h1]
  have x1: "take (length h) h1 = h" "length h \<le> length h1" "v h1 x = v h (fst p)"
    "r h1 x \<subseteq> {length h..<length h1}"
    using cx 2(2) by simp_all
  have p1: "w h1 (snd p) = w h (snd p)" "s h1 (snd p) = s h (snd p)"
    using keep x1(1,2) 2(2) by simp_all
  have fits: "s h1 (snd p) \<subseteq> {..<length h1}"
    using p1 2(2) x1(2) by auto
  have y1: "take (length h1) h' = h1" "length h1 \<le> length h'" "w h' y = w h1 (snd p)"
    "s h' y \<subseteq> {length h1..<length h'}"
    using deep_copier.copied [OF assms(2) y fits] by simp_all
  have "v h' x = v h1 x" "r h' x = r h1 x"
    using deep_copier.extend [OF assms(1) _ y1(1,2), of x] x1(4) by (auto simp: subset_iff)
  moreover have "take (length h) h' = h"
    using x1(1,2) y1(1) by (metis min.absorb1 take_take)
  ultimately show ?case
    using x1 y1 p1 by (auto simp: q)
qed

lemma deep_copier_struct:
  assumes "deep_copier c v r"
    and copy: "\<And>s h. copy s h = (case c (parts s) h of (f, h1) \<Rightarrow> (put f s, h1))"
    and "\<And>f s. parts (put f s) = f" and "\<And>f s. flat (put f s) = flat s"
  shows "deep_copier copy (\<lambda>h s. (flat s, v h (parts s))) (\<lambda>h s. r h (parts s))"
proof (rule deep_copier.intro, goal_cases)
  case (1 h s h')
  then show ?case
    using deep_copier.frame [OF assms(1), of h "parts s" h'] by simp
next
  case (2 s h b h')
  obtain f where "c (parts s) h = (f, h')" and "b = put f s"
    using 2(1) by (auto simp: copy split: prod.splits)
  with deep_copier.copied [OF assms(1) this(1)] 2(2) show ?case
    by (simp add: assms(3,4))
qed

text \<open>\<open>out := new(T); in.DeepCopyInto(out); return out\<close>, nil for nil.\<close>

definition copy_new ::
  "('x, 'b) copier \<Rightarrow> 'b \<Rightarrow> ('x cell \<Rightarrow> 'b) \<Rightarrow> ('b \<Rightarrow> 'x cell) \<Rightarrow> ('x, ref_of) copier" where
  "copy_new into zero get put p h = (case p of
     None \<Rightarrow> (None, h)
   | Some a \<Rightarrow> (case alloc (put zero) h of (b, h1) \<Rightarrow>
       case into (get (h1 ! a)) h1 of (out, h2) \<Rightarrow> (Some b, h2[b := put out])))"

definition new_val :: "('x heap \<Rightarrow> 'b \<Rightarrow> 'v) \<Rightarrow> ('x cell \<Rightarrow> 'b) \<Rightarrow> 'x heap \<Rightarrow> ref_of \<Rightarrow> 'v option" where
  "new_val val get h p = map_option (\<lambda>a. val h (get (h ! a))) p"

definition new_reach ::
  "('x heap \<Rightarrow> 'b \<Rightarrow> nat set) \<Rightarrow> ('x cell \<Rightarrow> 'b) \<Rightarrow> 'x heap \<Rightarrow> ref_of \<Rightarrow> nat set" where
  "new_reach reach get h p = (case p of None \<Rightarrow> {} | Some a \<Rightarrow> insert a (reach h (get (h ! a))))"

lemma copy_new_some: "\<exists>b h'. copy_new into zero get put (Some a) h = (Some b, h')"
  by (simp add: copy_new_def alloc_def split: prod.splits)

lemma deep_copier_new:
  assumes d: "deep_copier into val reach" and put: "\<And>x. get (put x) = x"
  shows "deep_copier (copy_new into zero get put) (new_val val get) (new_reach reach get)"
proof (rule deep_copier.intro, goal_cases)
  case (1 h p h')
  show ?case
  proof (cases p)
    case (Some a)
    then have "val h' (get (h ! a)) = val h (get (h ! a)) \<and> reach h' (get (h ! a)) = reach h (get (h ! a))"
      using 1 by (intro deep_copier.frame [OF d]) (auto simp: new_reach_def)
    then show ?thesis
      using 1(1) Some by (simp add: new_val_def new_reach_def)
  qed (simp add: new_val_def new_reach_def)
next
  case (2 p h q h')
  show ?case
  proof (cases p)
    case None
    then show ?thesis
      using 2 by (simp add: copy_new_def new_val_def new_reach_def)
  next
    case (Some a)
    let ?h1 = "h @ [put zero]" and ?x = "get (h ! a)"
    have a: "a < length h" "reach h ?x \<subseteq> {..<length h}"
      using 2(2) Some by (auto simp: new_reach_def)
    note keep = deep_copier.extend [OF d a(2), of ?h1]
    obtain out h2 where o: "into ?x ?h1 = (out, h2)"
      by fastforce
    have fits: "reach ?h1 ?x \<subseteq> {..<length ?h1}"
      using keep a(2) by auto
    have c: "take (Suc (length h)) h2 = ?h1" "Suc (length h) \<le> length h2" "val h2 out = val h ?x"
      "reach h2 out \<subseteq> {Suc (length h)..<length h2}"
      using deep_copier.copied [OF d o fits] keep by simp_all
    then obtain l where l: "h2 = h @ put zero # l"
      by (metis append_Cons append_Nil append_assoc append_take_drop_id)
    have "reach h2 out \<subseteq> {..<length h2}" "length h \<notin> reach h2 out"
      using c(4) by auto
    note w = deep_copier.other_cells [OF d this, of "put out"]
    have "q = Some (length h)" "h' = h @ put out # l"
      using 2(1) Some a(1) o by (simp_all add: copy_new_def alloc_def nth_append l list_update_append)
    then show ?thesis
      using Some w c(3,4) by (auto simp: new_val_def new_reach_def put l list_update_append)
  qed
qed

section \<open>zz_generated.deepcopy.go\<close>

definition Spec_DeepCopyInto :: "('x, 'x) copier \<Rightarrow> 'x \<Rightarrow> ('x, 'x go_spec) copier" where
  "Spec_DeepCopyInto lib zero s h =
     (case copy_strings (gp_aliases s) h of (aliases, h1) \<Rightarrow>
      case copy_ptr (gp_replicas s) h1 of (replicas, h2) \<Rightarrow>
      case copy_ptr (gp_forceHTTPS s) h2 of (https, h3) \<Rightarrow>
      case lib (gp_resources s) h3 of (resources, h4) \<Rightarrow>
      case copy_ptr (gp_ingressAnnotations s) h4 of (annotations, h5) \<Rightarrow>
      case copy_slice lib zero structs_of Structs (gp_env s) h5 of (vars, h6) \<Rightarrow>
      (s\<lparr>gp_aliases := aliases, gp_replicas := replicas, gp_forceHTTPS := https,
         gp_resources := resources, gp_ingressAnnotations := annotations, gp_env := vars\<rparr>, h6))"

definition Status_DeepCopyInto :: "('x, 'x) copier \<Rightarrow> 'x \<Rightarrow> ('x, 'x go_status) copier" where
  "Status_DeepCopyInto lib zero s h =
     (case copy_slice lib zero structs_of Structs (gt_conditions s) h of (conditions, h1) \<Rightarrow>
      (s\<lparr>gt_conditions := conditions\<rparr>, h1))"

definition Site_DeepCopyInto :: "('x, 'x) copier \<Rightarrow> 'x \<Rightarrow> ('x, 'x go_site) copier" where
  "Site_DeepCopyInto lib zero s h =
     (case lib (go_meta s) h of (m, h1) \<Rightarrow>
      case Spec_DeepCopyInto lib zero (go_spec_of s) h1 of (sp, h2) \<Rightarrow>
      case Status_DeepCopyInto lib zero (go_status_of s) h2 of (st, h3) \<Rightarrow>
      (s\<lparr>go_meta := m, go_spec_of := sp, go_status_of := st\<rparr>, h3))"

text \<open>The zero values \<open>new\<close> and \<open>make\<close> fill a cell with.\<close>

definition zero_spec :: "'x \<Rightarrow> 'x go_spec" where
  "zero_spec zero = \<lparr>gp_flat = \<lparr>sf_domain = [], sf_image = [],
       sf_storage = \<lparr>st_sharedPVCName = [], st_subPath = []\<rparr>,
       sf_database = \<lparr>db_name = [], db_user = [], db_host = []\<rparr>,
       sf_tls = \<lparr>tls_enabled = False, tls_issuer = [], tls_secretName = []\<rparr>,
       sf_ingressClassName = [], sf_phpConfig = [], sf_phpIni = [], sf_tablePrefix = [],
       sf_suspend = False\<rparr>,
     gp_aliases = None, gp_replicas = None, gp_resources = zero, gp_ingressAnnotations = None,
     gp_env = None, gp_forceHTTPS = None\<rparr>"

definition zero_status :: "'x go_status" where
  "zero_status = \<lparr>gt_flat = \<lparr>tf_phase = [], tf_url = [], tf_databaseName = [], tf_databaseUser = [],
     tf_secretName = [], tf_observedGeneration = 0\<rparr>, gt_conditions = None\<rparr>"

definition zero_site :: "'x \<Rightarrow> 'x go_site" where
  "zero_site zero = \<lparr>go_type = \<lparr>ty_kind = [], ty_apiVersion = []\<rparr>, go_meta = zero,
     go_spec_of = zero_spec zero, go_status_of = zero_status\<rparr>"

definition zero_list :: "'x \<Rightarrow> 'x go_list" where
  "zero_list zero = \<lparr>gl_type = \<lparr>ty_kind = [], ty_apiVersion = []\<rparr>, gl_meta = zero, gl_items = None\<rparr>"

definition List_DeepCopyInto :: "('x, 'x) copier \<Rightarrow> 'x \<Rightarrow> ('x, 'x go_list) copier" where
  "List_DeepCopyInto lib zero s h =
     (case lib (gl_meta s) h of (m, h1) \<Rightarrow>
      case copy_slice (Site_DeepCopyInto lib zero) (zero_site zero) sites_of Sites (gl_items s) h1 of
        (items, h2) \<Rightarrow>
      (s\<lparr>gl_meta := m, gl_items := items\<rparr>, h2))"

definition Spec_DeepCopy :: "('x, 'x) copier \<Rightarrow> 'x \<Rightarrow> ('x, ref_of) copier" where
  "Spec_DeepCopy lib zero = copy_new (Spec_DeepCopyInto lib zero) (zero_spec zero) the_spec ASpec"

definition Status_DeepCopy :: "('x, 'x) copier \<Rightarrow> 'x \<Rightarrow> ('x, ref_of) copier" where
  "Status_DeepCopy lib zero = copy_new (Status_DeepCopyInto lib zero) zero_status the_status AStatus"

definition Site_DeepCopy :: "('x, 'x) copier \<Rightarrow> 'x \<Rightarrow> ('x, ref_of) copier" where
  "Site_DeepCopy lib zero = copy_new (Site_DeepCopyInto lib zero) (zero_site zero) the_site ASite"

definition List_DeepCopy :: "('x, 'x) copier \<Rightarrow> 'x \<Rightarrow> ('x, ref_of) copier" where
  "List_DeepCopy lib zero = copy_new (List_DeepCopyInto lib zero) (zero_list zero) the_list AList"

text \<open>
  A value of the interface \<open>runtime.Object\<close>: the nil interface, or a pointer with its type, which is
  not the nil interface even when the pointer is nil.
\<close>

datatype go_object = NilObject | SiteObject ref_of | ListObject ref_of

definition Site_DeepCopyObject :: "('x, 'x) copier \<Rightarrow> 'x \<Rightarrow> ref_of \<Rightarrow> 'x heap \<Rightarrow> go_object \<times> 'x heap" where
  "Site_DeepCopyObject lib zero p h = (case Site_DeepCopy lib zero p h of
     (c, h1) \<Rightarrow> (if c \<noteq> None then SiteObject c else NilObject, h1))"

definition List_DeepCopyObject :: "('x, 'x) copier \<Rightarrow> 'x \<Rightarrow> ref_of \<Rightarrow> 'x heap \<Rightarrow> go_object \<times> 'x heap" where
  "List_DeepCopyObject lib zero p h = (case List_DeepCopy lib zero p h of
     (c, h1) \<Rightarrow> (if c \<noteq> None then ListObject c else NilObject, h1))"

section \<open>Values and reachable cells\<close>

definition spec_val :: "('x heap \<Rightarrow> 'x \<Rightarrow> 'v) \<Rightarrow> 'x heap \<Rightarrow> 'x go_spec \<Rightarrow>
    spec_flat \<times> string list \<times> 'x cell option \<times> 'x cell option \<times> 'v \<times> 'x cell option \<times> 'v list option" where
  "spec_val val h s = (gp_flat s, strings_val h (gp_aliases s), ptr_val h (gp_replicas s),
     ptr_val h (gp_forceHTTPS s), val h (gp_resources s), ptr_val h (gp_ingressAnnotations s),
     slice_val val structs_of h (gp_env s))"

definition spec_reach :: "('x heap \<Rightarrow> 'x \<Rightarrow> nat set) \<Rightarrow> 'x heap \<Rightarrow> 'x go_spec \<Rightarrow> nat set" where
  "spec_reach reach h s = ref_reach h (gp_aliases s) \<union> (ref_reach h (gp_replicas s) \<union>
     (ref_reach h (gp_forceHTTPS s) \<union> (reach h (gp_resources s) \<union>
     (ref_reach h (gp_ingressAnnotations s) \<union> slice_reach reach structs_of h (gp_env s)))))"

definition status_val :: "('x heap \<Rightarrow> 'x \<Rightarrow> 'v) \<Rightarrow> 'x heap \<Rightarrow> 'x go_status \<Rightarrow> status_flat \<times> 'v list option" where
  "status_val val h s = (gt_flat s, slice_val val structs_of h (gt_conditions s))"

definition status_reach :: "('x heap \<Rightarrow> 'x \<Rightarrow> nat set) \<Rightarrow> 'x heap \<Rightarrow> 'x go_status \<Rightarrow> nat set" where
  "status_reach reach h s = slice_reach reach structs_of h (gt_conditions s)"

definition site_val where
  "site_val val h s = (go_type s, val h (go_meta s), spec_val val h (go_spec_of s),
     status_val val h (go_status_of s))"

definition site_reach :: "('x heap \<Rightarrow> 'x \<Rightarrow> nat set) \<Rightarrow> 'x heap \<Rightarrow> 'x go_site \<Rightarrow> nat set" where
  "site_reach reach h s = reach h (go_meta s) \<union> (spec_reach reach h (go_spec_of s) \<union>
     status_reach reach h (go_status_of s))"

definition list_val where
  "list_val val h s = (gl_type s, val h (gl_meta s), slice_val (site_val val) sites_of h (gl_items s))"

definition list_reach :: "('x heap \<Rightarrow> 'x \<Rightarrow> nat set) \<Rightarrow> 'x heap \<Rightarrow> 'x go_list \<Rightarrow> nat set" where
  "list_reach reach h s = reach h (gl_meta s) \<union> slice_reach (site_reach reach) sites_of h (gl_items s)"

lemma deep_copier_spec:
  assumes "deep_copier lib val reach"
  shows "deep_copier (Spec_DeepCopyInto lib zero) (spec_val val) (spec_reach reach)"
  unfolding spec_val_def [abs_def] spec_reach_def [abs_def]
  by (rule deep_copier_struct [where
        put = "\<lambda>f s. s\<lparr>gp_aliases := fst f, gp_replicas := fst (snd f), gp_forceHTTPS := fst (snd (snd f)),
          gp_resources := fst (snd (snd (snd f))), gp_ingressAnnotations := fst (snd (snd (snd (snd f)))),
          gp_env := snd (snd (snd (snd (snd f))))\<rparr>"
        and parts = "\<lambda>s. (gp_aliases s, gp_replicas s, gp_forceHTTPS s, gp_resources s,
          gp_ingressAnnotations s, gp_env s)",
        OF deep_copier_both [OF string_slices.deep_copier_axioms
          deep_copier_both [OF pointers.deep_copier_axioms
          deep_copier_both [OF pointers.deep_copier_axioms
          deep_copier_both [OF assms
          deep_copier_both [OF pointers.deep_copier_axioms
            deep_copier_slice [OF assms, of structs_of Structs zero]]]]]], simplified])
    (simp_all add: Spec_DeepCopyInto_def copy_both_def split: prod.splits)

lemma deep_copier_status:
  assumes "deep_copier lib val reach"
  shows "deep_copier (Status_DeepCopyInto lib zero) (status_val val) (status_reach reach)"
  unfolding status_val_def [abs_def] status_reach_def [abs_def]
  by (rule deep_copier_struct [where put = "\<lambda>f s. s\<lparr>gt_conditions := f\<rparr>" and parts = gt_conditions,
        OF deep_copier_slice [OF assms, of structs_of Structs zero], simplified])
    (simp_all add: Status_DeepCopyInto_def)

lemma deep_copier_site:
  assumes "deep_copier lib val reach"
  shows "deep_copier (Site_DeepCopyInto lib zero) (site_val val) (site_reach reach)"
  unfolding site_val_def [abs_def] site_reach_def [abs_def]
  by (rule deep_copier_struct [where
        put = "\<lambda>f s. s\<lparr>go_meta := fst f, go_spec_of := fst (snd f), go_status_of := snd (snd f)\<rparr>"
        and parts = "\<lambda>s. (go_meta s, go_spec_of s, go_status_of s)",
        OF deep_copier_both [OF assms deep_copier_both [OF deep_copier_spec [OF assms, of zero]
          deep_copier_status [OF assms, of zero]]], simplified])
    (simp_all add: Site_DeepCopyInto_def copy_both_def split: prod.splits)

lemma deep_copier_list:
  assumes "deep_copier lib val reach"
  shows "deep_copier (List_DeepCopyInto lib zero) (list_val val) (list_reach reach)"
  unfolding list_val_def [abs_def] list_reach_def [abs_def]
  by (rule deep_copier_struct [where put = "\<lambda>f s. s\<lparr>gl_meta := fst f, gl_items := snd f\<rparr>"
        and parts = "\<lambda>s. (gl_meta s, gl_items s)",
        OF deep_copier_both [OF assms deep_copier_slice [OF deep_copier_site [OF assms, of zero],
          of sites_of Sites "zero_site zero"]], simplified])
    (simp_all add: List_DeepCopyInto_def copy_both_def split: prod.splits)

lemma deep_copier_pointers:
  assumes "deep_copier lib val reach"
  shows "deep_copier (Site_DeepCopy lib zero) (new_val (site_val val) the_site) (new_reach (site_reach reach) the_site)"
    and "deep_copier (List_DeepCopy lib zero) (new_val (list_val val) the_list) (new_reach (list_reach reach) the_list)"
    and "deep_copier (Spec_DeepCopy lib zero) (new_val (spec_val val) the_spec) (new_reach (spec_reach reach) the_spec)"
    and "deep_copier (Status_DeepCopy lib zero) (new_val (status_val val) the_status) (new_reach (status_reach reach) the_status)"
  unfolding Site_DeepCopy_def List_DeepCopy_def Spec_DeepCopy_def Status_DeepCopy_def
  using assms by (simp_all add: deep_copier_new deep_copier_site deep_copier_list deep_copier_spec
      deep_copier_status)

section \<open>Original and copy\<close>

text \<open>A list of writes, each to a cell with its new content.\<close>

fun writes :: "(nat \<times> 'x cell) list \<Rightarrow> 'x heap \<Rightarrow> 'x heap" where
  "writes [] h = h"
| "writes ((k, c) # ws) h = writes ws (h[k := c])"

text \<open>
  \<open>b\<close> is a copy of \<open>a\<close> that shares nothing with it: both have the value \<open>a\<close> had, their cells are
  disjoint, and whatever is written to the cells of one leaves the value of the other.
\<close>

definition independent_copy ::
  "('x heap \<Rightarrow> 'a \<Rightarrow> 'v) \<Rightarrow> ('x heap \<Rightarrow> 'a \<Rightarrow> nat set) \<Rightarrow> 'x heap \<Rightarrow> 'a \<Rightarrow> 'x heap \<Rightarrow> 'a \<Rightarrow> bool" where
  "independent_copy val reach h a h' b \<longleftrightarrow>
     val h' b = val h a \<and> val h' a = val h a \<and> reach h' a \<inter> reach h' b = {} \<and>
     (\<forall>ws. fst ` set ws \<subseteq> reach h' b \<longrightarrow> val (writes ws h') a = val h a) \<and>
     (\<forall>ws. fst ` set ws \<subseteq> reach h' a \<longrightarrow> val (writes ws h') b = val h a)"

lemma length_writes [simp]: "length (writes ws h) = length h"
  by (induction ws h rule: writes.induct) simp_all

lemma nth_writes: "i \<notin> fst ` set ws \<Longrightarrow> writes ws h ! i = h ! i"
  by (induction ws h rule: writes.induct) auto

context deep_copier
begin

lemma writes_elsewhere:
  assumes "reach h a \<subseteq> {..<length h}" and "reach h a \<inter> fst ` set ws = {}"
  shows "val (writes ws h) a = val h a"
proof -
  have "i < length (writes ws h) \<and> writes ws h ! i = h ! i" if "i \<in> reach h a" for i
    using assms that by (intro conjI nth_writes) auto
  from frame [OF this assms(1)] show ?thesis
    by simp
qed

lemma independent:
  assumes "copy a h = (b, h')" and "reach h a \<subseteq> {..<length h}"
  shows "independent_copy val reach h a h' b"
proof -
  have c: "take (length h) h' = h" "length h \<le> length h'" "val h' b = val h a"
    "reach h' b \<subseteq> {length h..<length h'}"
    using copied [OF assms] by simp_all
  note a = extend [OF assms(2) c(1,2)]
  have disj: "reach h' a \<inter> reach h' b = {}"
    using c(4) assms(2) a by fastforce
  have in_heap: "reach h' a \<subseteq> {..<length h'}" "reach h' b \<subseteq> {..<length h'}"
    using c(2,4) assms(2) a by auto
  have "val (writes ws h') a = val h a" if "fst ` set ws \<subseteq> reach h' b" for ws
    using writes_elsewhere [OF in_heap(1), of ws] disj a(1) that by auto
  moreover have "val (writes ws h') b = val h a" if "fst ` set ws \<subseteq> reach h' a" for ws
    using writes_elsewhere [OF in_heap(2), of ws] disj c(3) that by auto
  ultimately show ?thesis
    using disj a(1) c(3) by (simp add: independent_copy_def)
qed

end

text \<open>What becomes of the aliases: nil when there are none, also of an empty slice that is not nil.\<close>

lemma empty_aliases_become_nil: "h ! a = Strings [] \<Longrightarrow> copy_strings (Some a) h = (None, h)"
  by (simp add: copy_strings_def)

lemma copy_strings_nil: "fst (copy_strings p h) = None \<longleftrightarrow> strings_val h p = []"
  by (simp add: copy_strings_def strings_val_def alloc_def split: option.split)

lemma Spec_aliases: "gp_aliases (fst (Spec_DeepCopyInto lib zero s h)) = None \<longleftrightarrow> strings_val h (gp_aliases s) = []"
  using copy_strings_nil [of "gp_aliases s" h] by (simp add: Spec_DeepCopyInto_def prod.case_eq_if)

lemma Site_aliases:
  assumes "deep_copier lib val reach" and "site_reach reach h s \<subseteq> {..<length h}"
  shows "gp_aliases (go_spec_of (fst (Site_DeepCopyInto lib zero s h))) = None \<longleftrightarrow>
    strings_val h (gp_aliases (go_spec_of s)) = []"
proof -
  obtain m h1 where m: "lib (go_meta s) h = (m, h1)"
    by fastforce
  have "take (length h) h1 = h" "length h \<le> length h1"
    using deep_copier.copied [OF assms(1) m] assms(2) by (simp_all add: site_reach_def)
  then have "strings_val h1 (gp_aliases (go_spec_of s)) = strings_val h (gp_aliases (go_spec_of s))"
    using assms(2) by (intro string_slices.extend) (simp_all add: site_reach_def spec_reach_def)
  then show ?thesis
    using Spec_aliases [of lib zero "go_spec_of s" h1] m by (simp add: Site_DeepCopyInto_def prod.case_eq_if)
qed

lemma Site_copy_aliases:
  assumes d: "deep_copier lib val reach" and r: "new_reach (site_reach reach) the_site h (Some a) \<subseteq> {..<length h}"
    and c: "Site_DeepCopy lib zero (Some a) h = (Some b, h')"
  shows "gp_aliases (go_spec_of (the_site (h' ! b))) = None \<longleftrightarrow>
    strings_val h (gp_aliases (go_spec_of (the_site (h ! a)))) = []"
proof -
  let ?h1 = "h @ [ASite (zero_site zero)]" and ?s = "the_site (h ! a)"
  have a: "a < length h" "site_reach reach h ?s \<subseteq> {..<length h}"
    using r by (simp_all add: new_reach_def)
  note keep = deep_copier.extend [OF deep_copier_site [OF d, of zero] a(2), of ?h1]
  have fits: "site_reach reach ?h1 ?s \<subseteq> {..<length ?h1}"
    using keep(2) a(2) by auto
  have "strings_val ?h1 (gp_aliases (go_spec_of ?s)) = strings_val h (gp_aliases (go_spec_of ?s))"
    using a(2) by (intro string_slices.extend) (simp_all add: site_reach_def spec_reach_def)
  moreover obtain out h2 where o: "Site_DeepCopyInto lib zero ?s ?h1 = (out, h2)"
    by fastforce
  moreover have "length h < length h2"
    using deep_copier.copied [OF deep_copier_site [OF d] o fits] by simp
  moreover from o have "b = length h" "h' = h2[length h := ASite out]"
    using c a(1) by (auto simp: Site_DeepCopy_def copy_new_def alloc_def nth_append)
  ultimately show ?thesis
    using Site_aliases [OF d fits, of zero] by simp
qed

text \<open>
  C29. A deep copy of a site or of a list of sites, made through \<open>DeepCopyObject\<close>, is a fresh object
  that shares no pointer, slice or map with the original, at any depth: no sequence of writes through one
  is seen through the other. It is equal to the original but for one thing: nil and empty slices of
  aliases are told apart neither by the copy nor by this equality, and the \<open>Aliases\<close> of a copied site are
  nil exactly when those of the original have no element, so that an empty slice that is not nil
  becomes nil. The copies of the library structs inside are assumed to be deep. A nil pointer is copied
  to the nil interface.
\<close>

theorem deep_copies_are_independent:
  assumes "deep_copier lib val reach"
    and "new_reach (site_reach reach) the_site h (Some a) \<subseteq> {..<length h}"
    and "new_reach (list_reach reach) the_list h (Some c) \<subseteq> {..<length h}"
  shows "(\<exists>b h'. Site_DeepCopyObject lib zero (Some a) h = (SiteObject (Some b), h') \<and>
      independent_copy (new_val (site_val val) the_site) (new_reach (site_reach reach) the_site)
        h (Some a) h' (Some b) \<and>
      (gp_aliases (go_spec_of (the_site (h' ! b))) = None \<longleftrightarrow>
        strings_val h (gp_aliases (go_spec_of (the_site (h ! a)))) = [])) \<and>
    (\<exists>b h'. List_DeepCopyObject lib zero (Some c) h = (ListObject (Some b), h') \<and>
      independent_copy (new_val (list_val val) the_list) (new_reach (list_reach reach) the_list)
        h (Some c) h' (Some b)) \<and>
    Site_DeepCopyObject lib zero None h = (NilObject, h) \<and>
    List_DeepCopyObject lib zero None h = (NilObject, h)"
proof -
  obtain p h1 where p: "Site_DeepCopy lib zero (Some a) h = (Some p, h1)"
    using copy_new_some [of "Site_DeepCopyInto lib zero" _ the_site ASite a h]
    unfolding Site_DeepCopy_def by blast
  obtain q h2 where q: "List_DeepCopy lib zero (Some c) h = (Some q, h2)"
    using copy_new_some [of "List_DeepCopyInto lib zero" _ the_list AList c h]
    unfolding List_DeepCopy_def by blast
  show ?thesis
    using p q deep_copier.independent [OF deep_copier_pointers(1) [OF assms(1)] p assms(2)]
      deep_copier.independent [OF deep_copier_pointers(2) [OF assms(1)] q assms(3)]
      Site_copy_aliases [OF assms(1,2) p]
    by (simp add: Site_DeepCopyObject_def List_DeepCopyObject_def)
      (simp add: Site_DeepCopy_def List_DeepCopy_def copy_new_def)
qed

text \<open>A library struct with one pointer, and a heap with a list of one site.\<close>

definition boxed :: "(string \<times> ref_of, string \<times> ref_of) copier" where
  "boxed x h = (case copy_ptr (snd x) h of (p, h1) \<Rightarrow> ((fst x, p), h1))"

lemma boxed_copies: "deep_copier boxed (\<lambda>h x. (fst x, ptr_val h (snd x))) (\<lambda>h x. ref_reach h (snd x))"
  by (rule deep_copier_struct [where put = "\<lambda>p x. (fst x, p)" and parts = snd, OF pointers.deep_copier_axioms])
    (simp_all add: boxed_def)

definition sample_heap :: "(string \<times> ref_of) heap" where
  "sample_heap =
     [Strings [''www.acme.example''], Int32 2, Boolean False, Table (fmap_of_list [(''k'', ''v'')]),
      Foreign (''secretKeyRef'', None), Structs [(''WP_DEBUG'', Some 4)], Structs [(''Ready'', None)],
      ASite ((zero_site (''meta'', None))\<lparr>
        go_spec_of := (zero_spec (''res'', None))\<lparr>gp_aliases := Some 0, gp_replicas := Some 1,
          gp_forceHTTPS := Some 2, gp_ingressAnnotations := Some 3, gp_env := Some 5\<rparr>,
        go_status_of := zero_status\<lparr>gt_conditions := Some 6\<rparr>\<rparr>),
      Sites [(zero_site (''meta'', Some 4))\<lparr>go_status_of := zero_status\<lparr>gt_conditions := Some 6\<rparr>\<rparr>],
      AList ((zero_list (''list'', None))\<lparr>gl_items := Some 8\<rparr>)]"

theorem deep_copies_are_independent_witness:
  "(\<exists>b h'. Site_DeepCopyObject boxed ([], None) (Some 7) sample_heap = (SiteObject (Some b), h') \<and>
      independent_copy (new_val (site_val (\<lambda>h x. (fst x, ptr_val h (snd x)))) the_site)
        (new_reach (site_reach (\<lambda>h x. ref_reach h (snd x))) the_site) sample_heap (Some 7) h' (Some b) \<and>
      gp_aliases (go_spec_of (the_site (h' ! b))) \<noteq> None) \<and>
   Site_DeepCopyObject boxed ([], None) None sample_heap = (NilObject, sample_heap)"
proof -
  have fits: "new_reach (site_reach (\<lambda>h x. ref_reach h (snd x))) the_site sample_heap (Some 7) \<subseteq> {..<length sample_heap}"
    "new_reach (list_reach (\<lambda>h x. ref_reach h (snd x))) the_list sample_heap (Some 9) \<subseteq> {..<length sample_heap}"
    by (simp_all add: sample_heap_def new_reach_def site_reach_def spec_reach_def status_reach_def
        list_reach_def slice_reach_def ref_reach_def zero_site_def zero_spec_def zero_status_def zero_list_def)
  have "strings_val sample_heap (gp_aliases (go_spec_of (the_site (sample_heap ! 7)))) \<noteq> []"
    by (simp add: sample_heap_def strings_val_def)
  then show ?thesis
    using deep_copies_are_independent [OF boxed_copies fits, of "([], None)"] by blast
qed

end
