(* ===== verification/Startup.thy ===== *)
theory Startup
imports Wiring
begin

text \<open>
  The two programs from their first call to their exit: cmd/operator/main.go with
  \<open>SetupWithManager\<close> of wordpresssite_controller.go, and cmd/apiserver/main.go. The controller-runtime
  manager, the cluster configuration and the HTTP server are parameters; the result is how the
  process ends.
\<close>

section \<open>The frameworks\<close>

text \<open>
  \<open>b_config\<close> reads the cluster configuration, \<open>b_client\<close> builds a client of it. \<open>b_start\<close> runs the
  manager until the stop signal or an error. \<open>b_serve\<close> serves HTTP on an address until the stop signal,
  or until \<open>ListenAndServe\<close> fails before it.
\<close>

record 'e boot =
  b_config :: "'e \<Rightarrow> unit result \<times> 'e"
  b_client :: "'e \<Rightarrow> unit result \<times> 'e"
  b_newManager :: "manager_options \<Rightarrow> 'e \<Rightarrow> unit result \<times> 'e"
  b_complete :: "string \<Rightarrow> string list \<Rightarrow> 'e \<Rightarrow> unit result \<times> 'e"
  b_healthz :: "string \<Rightarrow> 'e \<Rightarrow> unit result \<times> 'e"
  b_readyz :: "string \<Rightarrow> 'e \<Rightarrow> unit result \<times> 'e"
  b_start :: "'e \<Rightarrow> unit result \<times> 'e"
  b_serve :: "string \<Rightarrow> string list \<Rightarrow> 'e \<Rightarrow> unit result \<times> 'e"
  b_shutdown :: "nat \<Rightarrow> 'e \<Rightarrow> unit result \<times> 'e"

text \<open>How a process ends: main returned, or \<open>os.Exit(1)\<close> after a message.\<close>

datatype exit_status = Returned | Failed string

section \<open>cmd/operator\<close>

definition manager_opts :: "getenv \<Rightarrow> manager_options" where
  "manager_opts g = \<lparr>mo_metricsAddr = env_or g ''METRICS_ADDR'' '':8080'',
     mo_healthAddr = env_or g ''HEALTH_ADDR'' '':8081'',
     mo_leaderElection = (env_or g ''LEADER_ELECT'' ''true'' = ''true''),
     mo_leaderElectionID = ''wordpress-manager-operator''\<rparr>"

definition SetupWithManager :: "'e boot \<Rightarrow> ('e, unit result) prog" where
  "SetupWithManager b =
     (let owns = [''Deployment'', ''Service'', ''Secret'', ''ConfigMap'', ''Ingress''] in
      call (CComplete ''WordPressSite'' owns) (b_complete b ''WordPressSite'' owns))"

definition operator_main :: "getenv \<Rightarrow> 'e boot \<Rightarrow> ('e, exit_status) prog" where
  "operator_main g b = do {
     cfg \<leftarrow> call CGetConfig (b_config b);
     case cfg of
       Inl e \<Rightarrow> ret (Failed ''unable to get kubeconfig'')
     | Inr _ \<Rightarrow> do {
         mgr \<leftarrow> call (CNewManager (manager_opts g)) (b_newManager b (manager_opts g));
         case mgr of
           Inl e \<Rightarrow> ret (Failed ''unable to start manager'')
         | Inr _ \<Rightarrow> do {
             s \<leftarrow> SetupWithManager b;
             case s of
               Inl e \<Rightarrow> ret (Failed ''unable to create controller'')
             | Inr _ \<Rightarrow> do {
                 _ \<leftarrow> call (CAddHealthz ''healthz'') (b_healthz b ''healthz'');
                 _ \<leftarrow> call (CAddReadyz ''readyz'') (b_readyz b ''readyz'');
                 r \<leftarrow> call CStart (b_start b);
                 ret (case r of Inl e \<Rightarrow> Failed ''problem running manager'' | Inr _ \<Rightarrow> Returned)
               }
           }
       }
   }"

section \<open>cmd/apiserver\<close>

text \<open>\<open>strings.Split(s, ",")\<close>.\<close>

fun split_comma :: "string \<Rightarrow> string list" where
  "split_comma [] = [[]]"
| "split_comma (c # s) =
     (if c = CHR '','' then [] # split_comma s
      else case split_comma s of w # ws \<Rightarrow> (c # w) # ws | [] \<Rightarrow> [[c]])"

definition cors_origins :: "getenv \<Rightarrow> string list" where
  "cors_origins g = split_comma (env_or g ''CORS_ORIGINS'' ''*'')"

definition connect :: "getenv \<Rightarrow> 'e boot \<Rightarrow> ('e, unit result) prog" where
  "connect g b =
     (if dev_mode g then ret (Inr ())
      else do {
        cfg \<leftarrow> call CGetConfig (b_config b);
        case cfg of
          Inl e \<Rightarrow> ret (Inl (GoErr (''load kubeconfig: '' @ error_text e)))
        | Inr _ \<Rightarrow> do {
            c \<leftarrow> call CNewClient (b_client b);
            ret (case c of Inl e \<Rightarrow> Inl (GoErr (''create k8s client: '' @ error_text e)) | Inr _ \<Rightarrow> Inr ())
          }
      })"

definition apiserver_main ::
  "getenv \<Rightarrow> 'e boot \<Rightarrow> 'e kube \<Rightarrow> 'e sqldrv \<Rightarrow> 'e otp \<Rightarrow> codec \<Rightarrow>
     (site_usage list \<Rightarrow> site_usage list) \<Rightarrow> 'e auth_pkg \<Rightarrow> ('e, exit_status) prog" where
  "apiserver_main g b k q pk cx order pkg = do {
     c \<leftarrow> connect g b;
     case c of
       Inl e \<Rightarrow> ret (Failed (error_text e))
     | Inr _ \<Rightarrow> do {
         sv \<leftarrow> build_server g k q pk cx order pkg;
         case sv of
           Inl e \<Rightarrow> ret (Failed (error_text e))
         | Inr _ \<Rightarrow> do {
             r \<leftarrow> call (CServe (env_or g ''API_ADDR'' '':8090'') (cors_origins g))
               (b_serve b (env_or g ''API_ADDR'' '':8090'') (cors_origins g));
             case r of
               Inl e \<Rightarrow> ret (Failed (''server error: '' @ error_text e))
             | Inr _ \<Rightarrow> do { _ \<leftarrow> call (CShutdown 10) (b_shutdown b 10); ret Returned }
           }
       }
   }"

end
