(* ===== verification/StartupProps.thy ===== *)
theory StartupProps
imports Startup ReconcileOutcome
begin

text \<open>The properties of the start of the two programs: what must have succeeded before they serve.\<close>

section \<open>cmd/operator\<close>

text \<open>The kinds of the objects a call writes.\<close>

fun owned_kind :: "owned \<Rightarrow> string" where
  "owned_kind (OwnedConfigMap _) = ''ConfigMap''"
| "owned_kind (OwnedDeployment _) = ''Deployment''"
| "owned_kind (OwnedService _) = ''Service''"
| "owned_kind (OwnedIngress _) = ''Ingress''"

definition ignored_error :: "ext_call \<Rightarrow> bool" where
  "ignored_error c \<longleftrightarrow> c = CAddHealthz ''healthz'' \<or> c = CAddReadyz ''readyz'' \<or> c = CShutdown 10"

definition all_went_well :: "traced list \<Rightarrow> bool" where
  "all_went_well l \<longleftrightarrow> list_all (\<lambda>c. snd c = None \<or> ignored_error (fst c)) l"

lemma all_went_well_simps [simp]:
  "all_went_well []"
  "all_went_well (c # l) \<longleftrightarrow> (snd c = None \<or> ignored_error (fst c)) \<and> all_went_well l"
  "all_went_well (l @ l') \<longleftrightarrow> all_went_well l \<and> all_went_well l'"
  by (simp_all add: all_went_well_def)

definition operator_run :: "getenv \<Rightarrow> 'e reconciler \<Rightarrow> exit_status \<Rightarrow> traced list \<Rightarrow> bool" where
  "operator_run g rc r l \<longleftrightarrow>
     (r = Returned \<longleftrightarrow> all_went_well l) \<and>
     (\<forall>c \<in> set l. fst c = CStart \<longrightarrow>
        (CNewManager (manager_opts g), None) \<in> set l \<and>
        (\<exists>owns. (CComplete ''WordPressSite'' owns, None) \<in> set l \<and>
          (\<forall>s. set owns = insert ''Secret'' (owned_kind ` set (desired_objects rc s)))))"

text \<open>
  The operator runs its manager only after the manager was built with the options of the
  environment and the controller was registered; the controller watches, next to the sites, exactly the
  kinds of objects a reconcile writes. The process exits with success exactly when no call failed,
  save the registration of the health checks, whose errors are dropped.
\<close>

theorem operator_start:
  "operator_run g (operator_reconciler g k q) (fst (run_state (operator_main g b) w)) (emitted (operator_main g b) w)"
proof -
  have "runs (operator_main g b) (operator_run g (operator_reconciler g k q))"
    unfolding operator_main_def SetupWithManager_def Let_def
    by (intro wp) (auto simp: operator_run_def ignored_error_def desired_objects_def insert_commute
        split: sum.splits)
  then show ?thesis
    by (rule runsD)
qed

section \<open>cmd/apiserver\<close>

definition admin_configured :: "getenv \<Rightarrow> bool" where
  "admin_configured g \<longleftrightarrow>
     (g ''ADMIN_PASSWORD_HASH'' \<noteq> [] \<or> g ''ADMIN_PASSWORD'' \<noteq> []) \<and> g ''JWT_SECRET'' \<noteq> []"

fun is_serve :: "ext_call \<Rightarrow> bool" where
  "is_serve (CServe _ _) = True"
| "is_serve _ = False"

definition api_run :: "getenv \<Rightarrow> exit_status \<Rightarrow> traced list \<Rightarrow> bool" where
  "api_run g r l \<longleftrightarrow>
     (r = Returned \<longleftrightarrow> map fst (dropWhile (Not \<circ> is_serve \<circ> fst) l) =
        [CServe (env_or g ''API_ADDR'' '':8090'') (cors_origins g), CShutdown 10]) \<and>
     (r = Returned \<longleftrightarrow> admin_configured g \<and> all_went_well l) \<and>
     (list_ex (is_serve \<circ> fst) l \<longrightarrow>
        admin_configured g \<and> all_went_well (takeWhile (Not \<circ> is_serve \<circ> fst) l) \<and>
        (dev_mode g \<or> (CGetConfig, None) \<in> set l \<and> (CNewClient, None) \<in> set l))"

text \<open>
  C34. The API server listens only when an admin password (or its hash) and a signing secret are
  configured and every step before succeeded, in production with a client of a real cluster. It exits
  with success exactly when it has listened on the configured address and was stopped, so that its last
  two calls are \<open>ListenAndServe\<close> and the shutdown; and exactly when it is configured and no call
  failed, whatever the shutdown answers.
\<close>

theorem api_server_start:
  "api_run g (fst (run_state (apiserver_main g b k q pk cx order pkg) w))
     (emitted (apiserver_main g b k q pk cx order pkg) w)"
proof -
  have "runs (apiserver_main g b k q pk cx order pkg) (api_run g)"
    unfolding apiserver_main_def connect_def build_server_def NewSqlite_def NewAuthenticator_def
    by (intro wp; auto simp: api_run_def admin_configured_def ignored_error_def split: sum.splits)
  then show ?thesis
    by (rule runsD)
qed

end
