(* ===== verification/Triples.thy ===== *)
theory Triples
imports Controller
begin

text \<open>
  Hoare triples over the world, for what \<open>runs\<close> cannot say: how an operation changes the
  environment. \<open>holds P m Q\<close>: from a world with \<open>P\<close>, \<open>m\<close> ends in one that satisfies \<open>Q\<close> with the
  value it returns.
\<close>

named_theorems hoare \<open>structural rules of the triples\<close>

definition holds ::
  "(('e, 'c) world \<Rightarrow> bool) \<Rightarrow> ('e, 'c, 'a) act \<Rightarrow> ('a \<Rightarrow> ('e, 'c) world \<Rightarrow> bool) \<Rightarrow> bool" where
  "holds P m Q \<longleftrightarrow> (\<forall>w. P w \<longrightarrow> Q (fst (run_state m w)) (snd (run_state m w)))"

lemma holdsI: "(\<And>w a w'. P w \<Longrightarrow> run_state m w = (a, w') \<Longrightarrow> Q a w') \<Longrightarrow> holds P m Q"
  by (simp add: holds_def)

lemma holdsD: "holds P m Q \<Longrightarrow> P w \<Longrightarrow> run_state m w = (a, w') \<Longrightarrow> Q a w'"
  by (auto simp: holds_def)

lemma holds_return [hoare]: "(\<And>w. P w \<Longrightarrow> Q a w) \<Longrightarrow> holds P (ret a) Q"
  by (simp add: holds_def)

lemma holds_bind [hoare]:
  assumes "holds P m R" and "\<And>a. holds (R a) (f a) Q"
  shows "holds P (State_Monad.bind m f) Q"
  using assms by (auto simp: holds_def split: prod.splits)

lemma holds_if [hoare]: "(b \<Longrightarrow> holds P m Q) \<Longrightarrow> (\<not> b \<Longrightarrow> holds P n Q) \<Longrightarrow> holds P (if b then m else n) Q"
  by simp

lemma holds_sum [hoare]:
  "(\<And>e. r = Inl e \<Longrightarrow> holds P (f e) Q) \<Longrightarrow> (\<And>a. r = Inr a \<Longrightarrow> holds P (g a) Q) \<Longrightarrow>
   holds P (case r of Inl e \<Rightarrow> f e | Inr a \<Rightarrow> g a) Q"
  by (cases r) auto

lemma holds_option [hoare]:
  "(r = None \<Longrightarrow> holds P m Q) \<Longrightarrow> (\<And>a. r = Some a \<Longrightarrow> holds P (g a) Q) \<Longrightarrow>
   holds P (case r of None \<Rightarrow> m | Some a \<Rightarrow> g a) Q"
  by (cases r) auto

lemma holds_prod [hoare]:
  "(\<And>a b. r = (a, b) \<Longrightarrow> holds P (g a b) Q) \<Longrightarrow> holds P (case r of (a, b) \<Rightarrow> g a b) Q"
  by (cases r) auto

lemma holds_let [hoare]: "holds P (f t) Q \<Longrightarrow> holds P (let x = t in f x) Q"
  by simp

lemma holds_pre: "holds P m Q \<Longrightarrow> (\<And>w. P' w \<Longrightarrow> P w) \<Longrightarrow> holds P' m Q"
  by (simp add: holds_def)

lemma holds_post: "holds P m Q \<Longrightarrow> (\<And>a w. Q a w \<Longrightarrow> Q' a w) \<Longrightarrow> holds P m Q'"
  by (simp add: holds_def)

text \<open>A call and a query: what they do to the environment, and their entry in the trace.\<close>

lemma holds_call:
  assumes "\<And>w r e. P w \<Longrightarrow> f (env w) = (r, e) \<Longrightarrow> Q r (w\<lparr>env := e, trace := trace w @ [(c, err_of r)]\<rparr>)"
  shows "holds P (call c f) Q"
  using assms by (auto simp: holds_def run_simps split: prod.splits)

lemma holds_query:
  assumes "\<And>w a e. P w \<Longrightarrow> f (env w) = (a, e) \<Longrightarrow> Q a (w\<lparr>env := e, trace := trace w @ [(c, None)]\<rparr>)"
  shows "holds P (query c f) Q"
  using assms by (auto simp: holds_def run_simps split: prod.splits)

lemma holds_noted:
  assumes "holds P m (\<lambda>r w. Q r (w\<lparr>trace := trace w @ [(c, err_of r)]\<rparr>))"
  shows "holds P (noted c m) Q"
  using assms by (auto simp: holds_def run_simps split: prod.splits)

text \<open>\<open>keeps I m\<close>: \<open>I\<close> is an invariant of \<open>m\<close>.\<close>

definition keeps :: "(('e, 'c) world \<Rightarrow> bool) \<Rightarrow> ('e, 'c, 'a) act \<Rightarrow> bool" where
  "keeps I m \<longleftrightarrow> holds I m (\<lambda>_. I)"

lemma keeps_return [hoare]: "keeps I (ret a)"
  by (simp add: keeps_def holds_def)

lemma keeps_bind [hoare]: "keeps I m \<Longrightarrow> (\<And>a. keeps I (f a)) \<Longrightarrow> keeps I (State_Monad.bind m f)"
  unfolding keeps_def by (rule holds_bind)

lemma keeps_if [hoare]: "(b \<Longrightarrow> keeps I m) \<Longrightarrow> (\<not> b \<Longrightarrow> keeps I n) \<Longrightarrow> keeps I (if b then m else n)"
  by simp

lemma keeps_sum [hoare]:
  "(\<And>e. r = Inl e \<Longrightarrow> keeps I (f e)) \<Longrightarrow> (\<And>a. r = Inr a \<Longrightarrow> keeps I (g a)) \<Longrightarrow>
   keeps I (case r of Inl e \<Rightarrow> f e | Inr a \<Rightarrow> g a)"
  by (cases r) auto

lemma keeps_option [hoare]:
  "(r = None \<Longrightarrow> keeps I m) \<Longrightarrow> (\<And>a. r = Some a \<Longrightarrow> keeps I (g a)) \<Longrightarrow>
   keeps I (case r of None \<Rightarrow> m | Some a \<Rightarrow> g a)"
  by (cases r) auto

lemma keeps_prod [hoare]: "(\<And>a b. r = (a, b) \<Longrightarrow> keeps I (g a b)) \<Longrightarrow> keeps I (case r of (a, b) \<Rightarrow> g a b)"
  by (cases r) auto

lemma keeps_let [hoare]: "keeps I (f t) \<Longrightarrow> keeps I (let x = t in f x)"
  by simp

text \<open>A list of programs, one after the other.\<close>

fun in_turn :: "('e, 'c, 'a) act list \<Rightarrow> ('e, 'c, unit) act" where
  "in_turn [] = ret ()"
| "in_turn (m # ms) = do { _ \<leftarrow> m; in_turn ms }"

lemma keeps_in_turn: "(\<And>m. m \<in> set ms \<Longrightarrow> keeps I m) \<Longrightarrow> keeps I (in_turn ms)"
  by (induction ms) (auto intro!: hoare)

end
