(* ===== verification/Sharing.thy ===== *)
theory Sharing
imports Triples ReconcileOutcome Fixtures Wiring
begin

text \<open>
  Several reconcilers on one cluster. Between two calls of one reconciler the others may act; each call
  is therefore an environment transition that contains the others' steps before and after its own
  effect. What they are relied on not to do, and what a reconciler itself guarantees, is the same:
  a database password once stored in a Secret stays (\<open>kept\<close>). The Secrets are the only shared objects
  whose content is decided by a reconciler at random, so this is where interleaving could hurt.
\<close>

section \<open>Relying on others\<close>

type_synonym secrets = "string \<times> string \<Rightarrow> secret option"

abbreviation site_key :: "site \<Rightarrow> string \<times> string" where
  "site_key s \<equiv> (site_ns s, site_name s)"

abbreviation password :: "secret \<Rightarrow> string" where
  "password x \<equiv> map_bytes (sec_data x) SecretKeyDBPassword"

definition secret_key :: "secret \<Rightarrow> string \<times> string" where
  "secret_key x = (m_namespace (sec_meta x), m_name (sec_meta x))"

definition holds_password :: "secrets \<Rightarrow> string \<times> string \<Rightarrow> string \<Rightarrow> bool" where
  "holds_password v key pw \<longleftrightarrow> pw \<noteq> [] \<and> (case v key of None \<Rightarrow> False | Some x \<Rightarrow> password x = pw)"

definition kept :: "secrets \<Rightarrow> secrets \<Rightarrow> bool" where
  "kept v v' \<longleftrightarrow> (\<forall>key pw. holds_password v key pw \<longrightarrow> holds_password v' key pw)"

lemma kept_refl [simp]: "kept v v"
  by (simp add: kept_def)

lemma kept_trans: "kept u v \<Longrightarrow> kept v w \<Longrightarrow> kept u w"
  by (simp add: kept_def)

lemma keptD: "kept v v' \<Longrightarrow> holds_password v key pw \<Longrightarrow> holds_password v' key pw"
  by (cases key) (simp add: kept_def)

text \<open>Storing a Secret where none was, or one with the password that was stored if there was one.\<close>

lemma kept_store:
  assumes "case v key of None \<Rightarrow> True | Some x \<Rightarrow> password x \<noteq> [] \<longrightarrow> password y = password x"
  shows "kept v (v(key \<mapsto> y))"
  using assms by (auto simp: kept_def holds_password_def split: option.splits)

section \<open>The cluster\<close>

text \<open>
  The documented behaviour of the API server on Secrets, with the others' steps around it: Get answers
  an object that was stored at some moment of the call; Create succeeds only where there is none; Update
  succeeds only on the version it was given (optimistic concurrency). \<open>known e\<close> are the objects that
  have been stored so far, of which no two have the same key and version; \<open>ok\<close> is an invariant of the
  environment. A failed write may have others' steps in it, but no effect of its own.
\<close>

definition quiet :: "('e \<Rightarrow> secrets) \<Rightarrow> ('e \<Rightarrow> bool) \<Rightarrow> ('e \<Rightarrow> secret set) \<Rightarrow> 'e \<Rightarrow> 'e \<Rightarrow> bool" where
  "quiet view ok known e e' \<longleftrightarrow>
     (ok e \<longrightarrow> ok e' \<and> kept (view e) (view e') \<and> known e \<subseteq> known e')"

definition one_version :: "('e \<Rightarrow> bool) \<Rightarrow> ('e \<Rightarrow> secret set) \<Rightarrow> bool" where
  "one_version ok known \<longleftrightarrow>
     (\<forall>e. ok e \<longrightarrow> (\<forall>x \<in> known e. \<forall>y \<in> known e. secret_key x = secret_key y \<longrightarrow>
        m_resourceVersion (sec_meta x) = m_resourceVersion (sec_meta y) \<longrightarrow> password x = password y))"

definition got :: "('e \<Rightarrow> secrets) \<Rightarrow> ('e \<Rightarrow> bool) \<Rightarrow> ('e \<Rightarrow> secret set) \<Rightarrow> string \<times> string \<Rightarrow>
    'e \<Rightarrow> secret result \<times> 'e \<Rightarrow> bool" where
  "got view ok known key e x \<longleftrightarrow> quiet view ok known e (snd x) \<and>
     (case fst x of
        Inl _ \<Rightarrow> True
      | Inr s \<Rightarrow> ok e \<longrightarrow> secret_key s = key \<and> s \<in> known (snd x) \<and>
          (\<exists>v. v key = Some s \<and> kept v (view (snd x))))"

definition wrote :: "('e \<Rightarrow> secrets) \<Rightarrow> ('e \<Rightarrow> bool) \<Rightarrow> ('e \<Rightarrow> secret set) \<Rightarrow>
    (secret option \<Rightarrow> 'e \<Rightarrow> bool) \<Rightarrow> secret \<Rightarrow> 'e \<Rightarrow> secret result \<times> 'e \<Rightarrow> bool" where
  "wrote view ok known allowed s e x \<longleftrightarrow> (ok e \<longrightarrow> ok (snd x) \<and> known e \<subseteq> known (snd x) \<and>
     (case fst x of
        Inl _ \<Rightarrow> kept (view e) (view (snd x))
      | Inr s' \<Rightarrow> sec_data s' = sec_data s \<and>
          (\<exists>v. kept (view e) v \<and> allowed (v (secret_key s)) (snd x) \<and>
             kept (v(secret_key s \<mapsto> s')) (view (snd x)))))"

definition secrets_of :: "'e kube \<Rightarrow> ('e \<Rightarrow> secrets) \<Rightarrow> ('e \<Rightarrow> bool) \<Rightarrow> ('e \<Rightarrow> secret set) \<Rightarrow> bool" where
  "secrets_of k view ok known \<longleftrightarrow> one_version ok known \<and>
     (\<forall>ns n e. got view ok known (ns, n) e (k_getSecret k ns n e)) \<and>
     (\<forall>s e. wrote view ok known (\<lambda>cur _. cur = None) s e (k_createSecret k s e)) \<and>
     (\<forall>s e. wrote view ok known (\<lambda>cur e'. \<exists>x. cur = Some x \<and> x \<in> known e' \<and> secret_key x = secret_key s \<and>
          m_resourceVersion (sec_meta x) = m_resourceVersion (sec_meta s)) s e (k_updateSecret k s e))"

text \<open>The other calls leave the Secrets to the others.\<close>

definition others_quiet :: "'e kube \<Rightarrow> ('e \<Rightarrow> 'e \<Rightarrow> bool) \<Rightarrow> bool" where
  "others_quiet k R \<longleftrightarrow>
     (\<forall>ns n e. R e (snd (k_getSite k ns n e))) \<and> (\<forall>s e. R e (snd (k_updateSite k s e))) \<and>
     (\<forall>s e. R e (snd (k_statusUpdate k s e))) \<and> (\<forall>b e. R e (snd (k_getOwned k b e))) \<and>
     (\<forall>b e. R e (snd (k_createOwned k b e))) \<and> (\<forall>b e. R e (snd (k_updateOwned k b e))) \<and>
     (\<forall>g b e. R e (snd (k_patchOwned k g b e))) \<and> (\<forall>e. R e (snd (k_now k e))) \<and>
     (\<forall>n e. R e (snd (k_rand k n e)))"

definition db_quiet :: "'e database \<Rightarrow> ('e \<Rightarrow> 'e \<Rightarrow> bool) \<Rightarrow> bool" where
  "db_quiet db R \<longleftrightarrow>
     (\<forall>name user host pw w. R (env w) (env (snd (run_state (d_ensure db name user host pw) w)))) \<and>
     (\<forall>name user host w. R (env w) (env (snd (run_state (d_drop db name user host) w))))"

text \<open>\<open>SetControllerReference\<close> changes the owners only.\<close>

definition owner_only :: "'e kube \<Rightarrow> bool" where
  "owner_only k \<longleftrightarrow> (\<forall>s m m'. k_setControllerRef k s m = Inr m' \<longrightarrow> m' = m\<lparr>m_owners := m_owners m'\<rparr>)"

lemma owner_onlyD:
  assumes "owner_only k" and "k_setControllerRef k s m = Inr m'"
  shows "m_name m' = m_name m" "m_namespace m' = m_namespace m" "m_resourceVersion m' = m_resourceVersion m"
proof -
  have "m' = m\<lparr>m_owners := m_owners m'\<rparr>"
    using assms by (simp add: owner_only_def)
  then show "m_name m' = m_name m" "m_namespace m' = m_namespace m" "m_resourceVersion m' = m_resourceVersion m"
    by (metis object_meta.select_convs object_meta.surjective object_meta.update_convs(6))+
qed

section \<open>The invariant\<close>

text \<open>
  Every password that was handed to \<open>EnsureDatabase\<close> in a reconcile of the site \<open>key\<close> is the one that
  the Secret of this site holds; \<open>tr\<close> are the calls before that reconcile.
\<close>

definition agreed :: "string \<times> string \<Rightarrow> secrets \<Rightarrow> traced \<Rightarrow> bool" where
  "agreed key v c \<longleftrightarrow> (case fst c of
     CEnsureDatabase name user host pw \<Rightarrow>
       \<exists>s. site_key s = key \<and> name = DatabaseName s \<and> user = DatabaseUser s \<and> host = DatabaseHost s \<and>
         holds_password v (site_ns s, SecretName s) pw
   | _ \<Rightarrow> True)"

lemma agreed_kept: "agreed key v c \<Longrightarrow> kept v v' \<Longrightarrow> agreed key v' c"
  by (auto simp: agreed_def dest: keptD split: ext_call.splits)

lemma list_agreed_kept: "list_all (agreed key v) l \<Longrightarrow> kept v v' \<Longrightarrow> list_all (agreed key v') l"
  by (erule list_all_imp) (rule agreed_kept)

definition steady ::
  "('e \<Rightarrow> secrets) \<Rightarrow> ('e \<Rightarrow> bool) \<Rightarrow> ('e \<Rightarrow> secret set) \<Rightarrow> string \<times> string \<Rightarrow> traced list \<Rightarrow>
     secrets \<Rightarrow> secret set \<Rightarrow> 'e state_of \<Rightarrow> bool" where
  "steady view ok known ky tr v0 K0 w \<longleftrightarrow> ok (env w) \<and> kept v0 (view (env w)) \<and> K0 \<subseteq> known (env w) \<and>
     (\<exists>l. trace w = tr @ l \<and> list_all (agreed ky (view (env w))) l)"

fun not_ensure :: "ext_call \<Rightarrow> bool" where
  "not_ensure (CEnsureDatabase _ _ _ _) = False"
| "not_ensure _ = True"

lemma agreed_not_ensure: "not_ensure (fst c) \<Longrightarrow> agreed ky v c"
  by (cases "fst c") (simp_all add: agreed_def)

lemma steady_quiet:
  assumes "steady view ok known ky tr v0 K0 w" and "quiet view ok known (env w) e" and "not_ensure c"
  shows "steady view ok known ky tr v0 K0 (w\<lparr>env := e, trace := trace w @ [(c, r)]\<rparr>)"
proof -
  obtain l where l: "trace w = tr @ l" "list_all (agreed ky (view (env w))) l"
    using assms(1) by (auto simp: steady_def)
  have "kept (view (env w)) (view e)"
    using assms(1,2) by (simp add: steady_def quiet_def)
  from list_agreed_kept [OF l(2) this] show ?thesis
    using assms l(1) agreed_not_ensure [of "(c, r)" ky "view e"]
    by (auto simp: steady_def quiet_def intro: kept_trans)
qed

lemma steady_start: "ok (env w) \<Longrightarrow> steady view ok known ky (trace w) (view (env w)) (known (env w)) w"
  by (simp add: steady_def)

section \<open>One reconcile keeps it\<close>

text \<open>\<open>Get\<close> answers the site it was asked for, \<open>Update\<close> the one it was given.\<close>

definition sites_named :: "'e kube \<Rightarrow> bool" where
  "sites_named k \<longleftrightarrow>
     (\<forall>ns n e s e'. k_getSite k ns n e = (Inr s, e') \<longrightarrow> site_key s = (ns, n)) \<and>
     (\<forall>s e s' e'. k_updateSite k s e = (Inr s', e') \<longrightarrow> site_key s' = site_key s)"

lemma call_answers:
  assumes "keeps I (call c f)" and "\<And>e a e'. f e = (a, e') \<Longrightarrow> P a"
  shows "holds I (call c f) (\<lambda>a w. I w \<and> P a)"
proof (rule holdsI)
  fix w a w' assume w: "I w" and run: "run_state (call c f) w = (a, w')"
  have "\<exists>e'. f (env w) = (a, e')"
    using run by (auto simp: run_simps split: prod.splits)
  then show "I w' \<and> P a"
    using holdsD [OF assms(1) [unfolded keeps_def] w run] assms(2) by blast
qed

definition shared :: "'e reconciler \<Rightarrow> ('e \<Rightarrow> secrets) \<Rightarrow> ('e \<Rightarrow> bool) \<Rightarrow> ('e \<Rightarrow> secret set) \<Rightarrow> bool" where
  "shared r view ok known \<longleftrightarrow> secrets_of (r_kube r) view ok known \<and>
     others_quiet (r_kube r) (quiet view ok known) \<and> db_quiet (r_db r) (quiet view ok known) \<and>
     owner_only (r_kube r) \<and> sites_named (r_kube r) \<and> finalizer_laws (r_kube r)"

lemma keeps_quiet_call:
  "(\<And>e. quiet view ok known e (snd (f e))) \<Longrightarrow> not_ensure c \<Longrightarrow>
   keeps (steady view ok known ky tr v0 K0) (call c f)"
  unfolding keeps_def by (rule holds_call) (metis snd_conv steady_quiet)

lemma keeps_quiet_query:
  "(\<And>e. quiet view ok known e (snd (f e))) \<Longrightarrow> not_ensure c \<Longrightarrow>
   keeps (steady view ok known ky tr v0 K0) (query c f)"
  unfolding keeps_def by (rule holds_query) (metis snd_conv steady_quiet)

lemma shared_quiet:
  assumes "shared r view ok known"
  shows "keeps (steady view ok known ky tr v0 K0) (getSite (r_kube r) ns n)"
    and "keeps (steady view ok known ky tr v0 K0) (updateSiteObj (r_kube r) s)"
    and "keeps (steady view ok known ky tr v0 K0) (statusUpdate (r_kube r) s)"
    and "keeps (steady view ok known ky tr v0 K0) (getOwned (r_kube r) b)"
    and "keeps (steady view ok known ky tr v0 K0) (createOwned (r_kube r) b)"
    and "keeps (steady view ok known ky tr v0 K0) (updateOwned (r_kube r) b)"
    and "keeps (steady view ok known ky tr v0 K0) (patchOwned (r_kube r) g b)"
    and "keeps (steady view ok known ky tr v0 K0) (timeNow (r_kube r))"
    and "keeps (steady view ok known ky tr v0 K0) (randRead (r_kube r) m)"
  using assms unfolding client_defs shared_def others_quiet_def
  by (auto intro!: keeps_quiet_call keeps_quiet_query)

lemma steady_setPhase:
  assumes "shared r view ok known"
  shows "keeps (steady view ok known ky tr v0 K0) (setPhase r s phase msg)"
  unfolding setPhase_def by (intro hoare shared_quiet [OF assms])

lemma steady_fail:
  assumes "shared r view ok known"
  shows "keeps (steady view ok known ky tr v0 K0) (fail r s stage e)"
  unfolding fail_def by (intro hoare steady_setPhase [OF assms])

lemma steady_apply_obj:
  assumes "shared r view ok known"
  shows "keeps (steady view ok known ky tr v0 K0) (apply_obj r s b)"
  unfolding apply_obj_def by (intro hoare shared_quiet [OF assms])

lemma steady_workload:
  assumes "shared r view ok known"
  shows "keeps (steady view ok known ky tr v0 K0) (reconcileWorkload r s)"
proof -
  have "keeps (steady view ok known ky tr v0 K0) (apply_each r s bs)" for bs
    by (induction bs) (auto intro!: hoare steady_apply_obj [OF assms])
  then show ?thesis
    by (simp add: reconcileWorkload_def)
qed

lemma shared_secrets:
  assumes "shared r view ok known"
  shows "got view ok known (ns, n) e (k_getSecret (r_kube r) ns n e)"
    and "wrote view ok known (\<lambda>cur _. cur = None) s e (k_createSecret (r_kube r) s e)"
    and "wrote view ok known (\<lambda>cur e'. \<exists>x. cur = Some x \<and> x \<in> known e' \<and> secret_key x = secret_key s \<and>
          m_resourceVersion (sec_meta x) = m_resourceVersion (sec_meta s)) s e (k_updateSecret (r_kube r) s e)"
  using assms by (simp_all add: shared_def secrets_of_def)

lemma one_versionD:
  assumes "shared r view ok known" and "ok e" and "x \<in> known e" and "y \<in> known e"
    and "secret_key x = secret_key y" and "m_resourceVersion (sec_meta x) = m_resourceVersion (sec_meta y)"
  shows "password x = password y"
  using assms unfolding shared_def secrets_of_def one_version_def by blast

text \<open>What the builder of the Secret promises, as a triple.\<close>

lemma holds_DesiredSecret:
  assumes "shared r view ok known"
  shows "holds (steady view ok known ky tr v0 K0) (DesiredSecret (r_kube r) s ex) (\<lambda>b w. steady view ok known ky tr v0 K0 w \<and>
    secret_key b = (site_ns s, SecretName s) \<and> password b \<noteq> [] \<and>
    (\<forall>x. ex = Some x \<longrightarrow> password x \<noteq> [] \<longrightarrow> password b = password x))"
proof (rule holdsI)
  fix w b w' assume "steady view ok known ky tr v0 K0 w" and run: "run_state (DesiredSecret (r_kube r) s ex) w = (b, w')"
  moreover have "keeps (steady view ok known ky tr v0 K0) (fill_salts (r_kube r) keys d)" for keys d
    by (induction keys arbitrary: d)
      (auto simp: fill_key_def RandomPassword_def intro!: hoare shared_quiet [OF assms])
  then have "keeps (steady view ok known ky tr v0 K0) (DesiredSecret (r_kube r) s ex)"
    unfolding DesiredSecret_def fill_key_def RandomPassword_def
    by (intro hoare shared_quiet [OF assms])
  ultimately have "steady view ok known ky tr v0 K0 w'"
    unfolding keeps_def by (blast dest: holdsD)
  moreover have "password b = password x" if "ex = Some x" and "password x \<noteq> []" for x
  proof -
    have "SecretKeyDBPassword |\<in>| fmdom (sec_data x)"
      using that(2) by (auto simp: map_bytes_def intro: fmdomI split: option.splits)
    moreover have "keeps_data (sec_data x) (sec_data b)"
      using DesiredSecret_keeps run that(1) by blast
    ultimately show ?thesis
      using that(2) by (simp add: keeps_data_def map_bytes_def)
  qed
  moreover have "secret_key b = (site_ns s, SecretName s)"
    using DesiredSecret_meta [OF run] by (simp add: secret_key_def new_meta_def)
  ultimately show "steady view ok known ky tr v0 K0 w' \<and> secret_key b = (site_ns s, SecretName s) \<and> password b \<noteq> [] \<and>
      (\<forall>x. ex = Some x \<longrightarrow> password x \<noteq> [] \<longrightarrow> password b = password x)"
    using DesiredSecret_complete [OF run] by (simp add: secret_complete_def)
qed

text \<open>The Secret that is found, and then completed, created or updated.\<close>

definition read_ok :: "('e \<Rightarrow> secrets) \<Rightarrow> ('e \<Rightarrow> secret set) \<Rightarrow> string \<times> string \<Rightarrow> 'e \<Rightarrow> secret \<Rightarrow> bool" where
  "read_ok view known key e x \<longleftrightarrow> secret_key x = key \<and> x \<in> known e \<and>
     (password x \<noteq> [] \<longrightarrow> holds_password (view e) key (password x))"

lemma holds_getSecret:
  assumes "shared r view ok known"
  shows "holds (steady view ok known ky tr v0 K0) (getSecret (r_kube r) ns n) (\<lambda>res w. steady view ok known ky tr v0 K0 w \<and>
    (\<forall>x. res = Inr x \<longrightarrow> read_ok view known (ns, n) (env w) x))"
  unfolding client_defs
proof (rule holds_call)
  fix w res e
  assume w: "steady view ok known ky tr v0 K0 w" and res: "k_getSecret (r_kube r) ns n (env w) = (res, e)"
  have g: "got view ok known (ns, n) (env w) (res, e)"
    using shared_secrets(1) [OF assms, of ns n "env w"] by (simp add: res)
  then have "steady view ok known ky tr v0 K0 (w\<lparr>env := e, trace := trace w @ [(CGetSecret ns n, err_of res)]\<rparr>)"
    using w by (intro steady_quiet) (simp_all add: got_def)
  moreover have "read_ok view known (ns, n) e x" if got: "res = Inr x" for x
  proof -
    have "ok (env w)"
      using w by (simp add: steady_def)
    with g got have x: "secret_key x = (ns, n)" "x \<in> known e"
      and "\<exists>v. v (ns, n) = Some x \<and> kept v (view e)"
      by (simp_all add: got_def)
    then obtain v where v: "v (ns, n) = Some x" "kept v (view e)"
      by blast
    have "holds_password (view e) (ns, n) (password x)" if "password x \<noteq> []"
      using v(2) by (rule keptD) (simp add: holds_password_def v(1) that)
    with x show ?thesis
      by (simp add: read_ok_def)
  qed
  ultimately show "steady view ok known ky tr v0 K0 (w\<lparr>env := e, trace := trace w @ [(CGetSecret ns n, err_of res)]\<rparr>) \<and>
      (\<forall>x. res = Inr x \<longrightarrow> read_ok view known (ns, n)
        (env (w\<lparr>env := e, trace := trace w @ [(CGetSecret ns n, err_of res)]\<rparr>)) x)"
    by simp
qed

text \<open>A write whose Secret may replace what \<open>allowed\<close> lets it replace.\<close>

lemma steady_wrote:
  assumes w: "steady view ok known ky tr v0 K0 w" and "wrote view ok known allowed s (env w) (res, e)" and "not_ensure c"
    and same: "\<And>cur. allowed (Some cur) e \<Longrightarrow> password cur \<noteq> [] \<Longrightarrow> password s = password cur"
    and pw: "password s \<noteq> []"
  shows "steady view ok known ky tr v0 K0 (w\<lparr>env := e, trace := trace w @ [(c, err_of res)]\<rparr>)"
    and "res = Inr s' \<Longrightarrow> holds_password (view e) (secret_key s) (password s')"
proof -
  have r: "ok e" "known (env w) \<subseteq> known e" and v: "kept (view (env w)) (view e) \<and>
      (\<forall>s'. res = Inr s' \<longrightarrow> holds_password (view e) (secret_key s) (password s'))"
  proof -
    show "ok e" "known (env w) \<subseteq> known e"
      using assms(2) w by (simp_all add: wrote_def steady_def)
    show "kept (view (env w)) (view e) \<and>
      (\<forall>s'. res = Inr s' \<longrightarrow> holds_password (view e) (secret_key s) (password s'))"
    proof (cases res)
      case (Inr s1)
      obtain v where v: "kept (view (env w)) v" "allowed (v (secret_key s)) e"
        "kept (v(secret_key s \<mapsto> s1)) (view e)" and d: "sec_data s1 = sec_data s"
        using assms(2) w Inr by (auto simp: wrote_def steady_def)
      have "kept v (v(secret_key s \<mapsto> s1))"
        using same v(2) d by (intro kept_store) (auto split: option.splits)
      moreover have "holds_password (v(secret_key s \<mapsto> s1)) (secret_key s) (password s)"
        using pw d by (simp add: holds_password_def)
      ultimately show ?thesis
        using v(1,3) Inr d by (auto intro: kept_trans dest: keptD)
    qed (use assms(2) w in \<open>simp add: wrote_def steady_def\<close>)
  qed
  have "quiet view ok known (env w) e"
    using r v by (simp add: quiet_def)
  then show "steady view ok known ky tr v0 K0 (w\<lparr>env := e, trace := trace w @ [(c, err_of res)]\<rparr>)"
    using w assms(3) by (intro steady_quiet)
  show "res = Inr s' \<Longrightarrow> holds_password (view e) (secret_key s) (password s')"
    using v by blast
qed

text \<open>A Secret that is created, and one that is updated from what was read.\<close>

lemma steady_create_secret:
  assumes sh: "shared r view ok known" and s1: "steady view ok known ky tr v0 K0 w1" and pw: "password d \<noteq> []"
    and run: "run_state (createSecret (r_kube r) d) w1 = (res, w')"
  shows "steady view ok known ky tr v0 K0 w' \<and>
    (\<forall>x. res = Inr x \<longrightarrow> holds_password (view (env w')) (secret_key d) (password x))"
proof -
  obtain e where e: "k_createSecret (r_kube r) d (env w1) = (res, e)"
    "w' = w1\<lparr>env := e, trace := trace w1 @ [(CCreateSecret d, err_of res)]\<rparr>"
    using run by (auto simp: run_simps split: prod.splits)
  have "wrote view ok known (\<lambda>cur _. cur = None) d (env w1) (res, e)"
    using shared_secrets(2) [OF sh, of d "env w1"] by (simp add: e(1))
  from steady_wrote [OF s1 this, of "CCreateSecret d"] pw show ?thesis
    by (simp add: e(2))
qed

lemma steady_update_secret:
  assumes sh: "shared r view ok known" and s1: "steady view ok known ky tr v0 K0 w1"
    and read: "read_ok view known (secret_key d) (env w1) x"
    and version: "m_resourceVersion (sec_meta d) = m_resourceVersion (sec_meta x)"
    and pw: "password d \<noteq> []" and old: "password x \<noteq> [] \<Longrightarrow> password d = password x"
    and run: "run_state (updateSecret (r_kube r) d) w1 = (res, w')"
  shows "steady view ok known ky tr v0 K0 w' \<and>
    (\<forall>x. res = Inr x \<longrightarrow> holds_password (view (env w')) (secret_key d) (password x))"
proof -
  obtain e where e: "k_updateSecret (r_kube r) d (env w1) = (res, e)"
    "w' = w1\<lparr>env := e, trace := trace w1 @ [(CUpdateSecret d, err_of res)]\<rparr>"
    using run by (auto simp: run_simps split: prod.splits)
  note shared_secrets(3) [OF sh, of d "env w1", unfolded e(1)]
  then have wr: "wrote view ok known (\<lambda>cur e'. \<exists>x. cur = Some x \<and> x \<in> known e' \<and> secret_key x = secret_key d \<and>
      m_resourceVersion (sec_meta x) = m_resourceVersion (sec_meta d)) d (env w1) (res, e)"
    by simp
  have e2: "ok e" "x \<in> known e" "secret_key x = secret_key d"
    using wr s1 read by (auto simp: wrote_def steady_def read_ok_def)
  have "password d = password cur" if "cur \<in> known e" "secret_key cur = secret_key d"
    "m_resourceVersion (sec_meta cur) = m_resourceVersion (sec_meta d)" "password cur \<noteq> []" for cur
    using one_versionD [OF sh e2(1) that(1) e2(2)] that(2-) e2(3) old version by simp
  with steady_wrote [OF s1 wr, of "CUpdateSecret d"] pw show ?thesis
    by (simp add: e(2))
qed

lemma holds_store_secret:
  assumes sh: "shared r view ok known"
  shows "holds (\<lambda>w. steady view ok known ky tr v0 K0 w \<and>
      (\<forall>x. ex = Some x \<longrightarrow> read_ok view known (site_ns s, SecretName s) (env w) x)) (store_secret r s ex)
    (\<lambda>res w. steady view ok known ky tr v0 K0 w \<and>
      (\<forall>x. res = Inr x \<longrightarrow> holds_password (view (env w)) (site_ns s, SecretName s) (password x)))"
proof (rule holdsI)
  let ?key = "(site_ns s, SecretName s)"
  fix w res w'
  assume w: "steady view ok known ky tr v0 K0 w \<and> (\<forall>x. ex = Some x \<longrightarrow> read_ok view known ?key (env w) x)"
    and run: "run_state (store_secret r s ex) w = (res, w')"
  obtain b w1 where b: "run_state (DesiredSecret (r_kube r) s ex) w = (b, w1)"
    by fastforce
  have "steady view ok known ky tr (view (env w)) (known (env w)) w"
    using w by (simp add: steady_def)
  from holdsD [OF holds_DesiredSecret [OF sh] this b]
  have s0: "steady view ok known ky tr (view (env w)) (known (env w)) w1"
    and key: "secret_key b = ?key" and pw: "password b \<noteq> []"
    and old: "\<And>x. ex = Some x \<Longrightarrow> password x \<noteq> [] \<Longrightarrow> password b = password x"
    by simp_all
  have s1: "steady view ok known ky tr v0 K0 w1"
    using s0 w by (auto simp: steady_def intro: kept_trans)
  have read: "read_ok view known ?key (env w1) x" if "ex = Some x" for x
    using s0 w that by (auto simp: steady_def read_ok_def intro: keptD)
  show "steady view ok known ky tr v0 K0 w' \<and>
      (\<forall>x. res = Inr x \<longrightarrow> holds_password (view (env w')) ?key (password x))"
  proof (cases "k_setControllerRef (r_kube r) s (sec_meta b)")
    case (Inl e)
    then show ?thesis
      using run b s1 by (auto simp: store_secret_def)
  next
    case (Inr m)
    have m: "m_namespace m = m_namespace (sec_meta b)" "m_name m = m_name (sec_meta b)"
      using sh owner_onlyD [OF _ Inr] by (simp_all add: shared_def)
    show ?thesis
    proof (cases ex)
      case None
      have "run_state (createSecret (r_kube r) (b\<lparr>sec_meta := m\<rparr>)) w1 = (res, w')"
        using run b Inr None by (simp add: store_secret_def)
      from steady_create_secret [OF sh s1 _ this] show ?thesis
        using key m pw by (simp add: secret_key_def)
    next
      case (Some x)
      show ?thesis
      proof (cases "sec_data x = sec_data b")
        case True
        then have "res = Inr x" "w' = w1"
          using run b Inr Some by (simp_all add: store_secret_def)
        with s1 read [OF Some] pw True show ?thesis
          by (simp add: read_ok_def)
      next
        case False
        let ?d = "b\<lparr>sec_meta := m\<lparr>m_resourceVersion := m_resourceVersion (sec_meta x)\<rparr>\<rparr>"
        have d: "secret_key ?d = ?key"
          using key m by (simp add: secret_key_def)
        have "run_state (updateSecret (r_kube r) ?d) w1 = (res, w')"
          using run b Inr Some False by (simp add: store_secret_def)
        from steady_update_secret [OF sh s1 _ _ _ _ this, of x] show ?thesis
          using d read [OF Some] pw old [OF Some] by simp
      qed
    qed
  qed
qed

lemma holds_ensureSecret:
  assumes sh: "shared r view ok known"
  shows "holds (steady view ok known ky tr v0 K0) (ensureSecret r s) (\<lambda>res w. steady view ok known ky tr v0 K0 w \<and>
      (\<forall>x. res = Inr x \<longrightarrow> holds_password (view (env w)) (site_ns s, SecretName s) (password x)))"
  unfolding ensureSecret_def
proof (rule holds_bind [OF holds_getSecret [OF sh]], intro hoare, goal_cases)
  case (1 a e)
  then show ?case
    by (intro holds_pre [OF holds_store_secret [OF sh]]) simp
next
  case (2 a e w)
  then show ?case
    by simp
next
  case (3 a x)
  then show ?case
    by (intro holds_pre [OF holds_store_secret [OF sh]]) simp
qed

text \<open>The call of \<open>EnsureDatabase\<close> with the password of the Secret, for any provider.\<close>

lemma steady_driver:
  assumes "emits db_driver_call m" and "\<And>w. quiet view ok known (env w) (env (snd (run_state m w)))"
  shows "keeps (steady view ok known ky tr v0 K0) m"
  unfolding keeps_def
proof (rule holdsI)
  fix w a w' assume w: "steady view ok known ky tr v0 K0 w" and m: "run_state m w = (a, w')"
  obtain l where l: "trace w' = trace w @ l" "list_all db_driver_call l"
    using assms(1) m by (rule emitsE)
  have "quiet view ok known (env w) (env w')"
    using assms(2) [of w] m by simp
  moreover have "list_all (agreed ky v) l" for v
    using l(2) by (induction l) (auto simp: agreed_def elim!: db_driver_call.elims)
  moreover obtain k where "trace w = tr @ k" "list_all (agreed ky (view (env w))) k"
    using w by (auto simp: steady_def)
  ultimately show "steady view ok known ky tr v0 K0 w'"
    using w by (auto simp: steady_def quiet_def l(1) intro: kept_trans list_agreed_kept)
qed

context database_provider
begin

lemma keeps_provider:
  assumes "db_quiet db (quiet view ok known)"
  shows "keeps (steady view ok known ky tr v0 K0) (d_ensure db name user host pw)"
    and "keeps (steady view ok known ky tr v0 K0) (d_drop db name user host)"
  using assms by (auto simp: db_quiet_def intro!: steady_driver ensure_driver_only drop_driver_only)

lemma holds_ensureDatabase:
  assumes "shared r view ok known" and "r_db r = db" and "site_key s = ky"
  shows "holds (\<lambda>w. steady view ok known ky tr v0 K0 w \<and> holds_password (view (env w)) (site_ns s, SecretName s) pw)
    (ensureDatabase r s pw) (\<lambda>_. steady view ok known ky tr v0 K0)"
proof (rule holdsI)
  fix w a w'
  assume w: "steady view ok known ky tr v0 K0 w \<and> holds_password (view (env w)) (site_ns s, SecretName s) pw"
    and run: "run_state (ensureDatabase r s pw) w = (a, w')"
  obtain w1 where w1: "run_state (d_ensure db (DatabaseName s) (DatabaseUser s) (DatabaseHost s) pw) w = (a, w1)"
    and w': "w' = w1\<lparr>trace := trace w1 @ [(CEnsureDatabase (DatabaseName s) (DatabaseUser s) (DatabaseHost s) pw, err_of a)]\<rparr>"
    using run assms(2) by (auto simp: ensureDatabase_def run_simps split: prod.splits)
  have q: "db_quiet db (quiet view ok known)"
    using assms by (simp add: shared_def)
  have "steady view ok known ky tr v0 K0 w1"
    using holdsD [OF keeps_provider(1) [OF q, unfolded keeps_def] _ w1] w by blast
  moreover have "quiet view ok known (env w) (env w1)"
    using q w1 unfolding db_quiet_def by (metis snd_conv)
  then have "holds_password (view (env w1)) (site_ns s, SecretName s) pw"
    using w by (auto simp: steady_def quiet_def dest: keptD)
  ultimately show "steady view ok known ky tr v0 K0 w'"
    using assms(3) by (auto simp: steady_def w' agreed_def)
qed

lemma keeps_reconcileActive:
  assumes "shared r view ok known" and "r_db r = db" and "site_key s = ky"
  shows "keeps (steady view ok known ky tr v0 K0) (reconcileActive r s)"
  unfolding keeps_def reconcileActive_def
proof (rule holds_bind [OF holds_ensureSecret [OF assms(1)]], rule holds_sum, goal_cases)
  case (1 a e)
  show ?case
    using steady_fail [OF assms(1)] unfolding keeps_def by (rule holds_pre) simp
next
  case (2 a x)
  have rest: "keeps (steady view ok known ky tr v0 K0) (case d of
      Inl e \<Rightarrow> do {
        _ \<leftarrow> setPhase r s PhaseProvisioning (''Waiting for MySQL: '' @ error_text e);
        ret (retry_after 15)
      }
    | Inr _ \<Rightarrow> do {
        wl \<leftarrow> reconcileWorkload r s;
        case wl of
          Inl e \<Rightarrow> fail r s ''workload'' e
        | Inr _ \<Rightarrow> do {
            p \<leftarrow> setPhase r (s\<lparr>site_status := observed_status s\<rparr>) PhaseReady ''Site reconciled'';
            ret (done_with (err_of p))
          }
      })" for d
    by (intro hoare steady_fail [OF assms(1)] steady_setPhase [OF assms(1)] steady_workload [OF assms(1)])
  show ?case
    using 2 by (intro holds_bind [OF holds_pre [OF holds_ensureDatabase [OF assms]] rest [unfolded keeps_def]]) simp
qed

lemma keeps_Reconcile:
  assumes "shared r view ok known" and "r_db r = db"
  shows "keeps (steady view ok known (ns, n) tr v0 K0) (Reconcile r ns n)"
proof -
  let ?I = "steady view ok known (ns, n) tr v0 K0"
  have named: "sites_named (r_kube r)" and laws: "finalizer_laws (r_kube r)"
    and quiet: "db_quiet db (quiet view ok known)"
    using assms by (simp_all add: shared_def)
  have body: "keeps ?I (reconcileBody r s)" if "site_key s = (ns, n)" for s
    unfolding reconcileBody_def reconcileSuspended_def
    by (intro hoare keeps_reconcileActive [OF assms that] steady_setPhase [OF assms(1)] steady_workload [OF assms(1)])
  have drop: "keeps ?I (dropDatabase r s)" for s
    unfolding dropDatabase_def keeps_def assms(2)
    by (rule holds_noted, rule holds_post [OF keeps_provider(2) [OF quiet, unfolded keeps_def]])
      (auto simp: steady_def agreed_def)
  have delete: "keeps ?I (reconcileDelete r s)" for s
    unfolding reconcileDelete_def by (intro hoare shared_quiet [OF assms(1)] drop)
  have got: "holds ?I (getSite (r_kube r) ns n) (\<lambda>a w. ?I w \<and> (\<forall>s. a = Inr s \<longrightarrow> site_key s = (ns, n)))"
    using shared_quiet(1) [OF assms(1), of "(ns, n)" tr v0 K0 ns n] named
    unfolding client_defs sites_named_def by (intro call_answers) blast+
  have put: "holds ?I (updateSiteObj (r_kube r) s) (\<lambda>a w. ?I w \<and> (\<forall>t. a = Inr t \<longrightarrow> site_key t = site_key s))" for s
    using shared_quiet(2) [OF assms(1), of "(ns, n)" tr v0 K0 s] named
    unfolding client_defs sites_named_def by (intro call_answers) blast+
  have added: "site_key (fst (k_addFinalizer (r_kube r) s Finalizer)) = site_key s" for s
    using laws by (auto simp: finalizer_laws_def)
  have rest: "holds (\<lambda>w. ?I w \<and> (\<forall>t. a = Inr t \<longrightarrow> site_key t = (ns, n)))
      (case a of Inl e \<Rightarrow> ret (done_with (Some e)) | Inr t \<Rightarrow> reconcileBody r t) (\<lambda>_. ?I)" for a
    using body by (cases a) (auto simp: keeps_def holds_def)
  have alive: "keeps ?I (case k_addFinalizer (r_kube r) s Finalizer of (s1, added) \<Rightarrow>
      if added then do {
        u \<leftarrow> updateSiteObj (r_kube r) s1;
        case u of Inl e \<Rightarrow> ret (done_with (Some e)) | Inr s2 \<Rightarrow> reconcileBody r s2
      }
      else reconcileBody r s1)" if s: "site_key s = (ns, n)" for s
  proof -
    obtain s1 b where s1: "k_addFinalizer (r_kube r) s Finalizer = (s1, b)"
      by fastforce
    then have "site_key s1 = (ns, n)"
      using added [of s] s by simp
    then have "holds ?I (do {
        u \<leftarrow> updateSiteObj (r_kube r) s1;
        case u of Inl e \<Rightarrow> ret (done_with (Some e)) | Inr s2 \<Rightarrow> reconcileBody r s2
      }) (\<lambda>_. ?I)"
      using put [of s1] by (intro holds_bind [OF _ rest]) simp
    then show ?thesis
      using body [OF \<open>site_key s1 = (ns, n)\<close>] by (simp add: s1 keeps_def)
  qed
  show ?thesis
    unfolding keeps_def Reconcile_def
  proof (rule holds_bind [OF got])
    fix a
    show "holds (\<lambda>w. ?I w \<and> (\<forall>s. a = Inr s \<longrightarrow> site_key s = (ns, n)))
      (case a of Inl e \<Rightarrow> ret (done_with (if is_not_found e then None else Some e))
       | Inr s \<Rightarrow> if \<not> time_ptr_is_zero (m_deletion (site_meta s)) then reconcileDelete r s
           else (case k_addFinalizer (r_kube r) s Finalizer of (s1, added) \<Rightarrow>
             if added then do {
               u \<leftarrow> updateSiteObj (r_kube r) s1;
               case u of Inl e \<Rightarrow> ret (done_with (Some e)) | Inr s2 \<Rightarrow> reconcileBody r s2
             }
             else reconcileBody r s1)) (\<lambda>_. ?I)"
      using alive delete unfolding keeps_def by (cases a) (auto simp: holds_def)
  qed
qed

end

section \<open>Reconciles in turn, others in between\<close>

definition reconcile_each :: "'e reconciler \<Rightarrow> (string \<times> string) list \<Rightarrow> ('e, unit) prog" where
  "reconcile_each r reqs = in_turn (map (\<lambda>(ns, n). Reconcile r ns n) reqs)"

text \<open>The requests with the calls that were made for each.\<close>

fun calls_of_each ::
  "'e reconciler \<Rightarrow> (string \<times> string) list \<Rightarrow> 'e state_of \<Rightarrow> ((string \<times> string) \<times> traced list) list" where
  "calls_of_each r [] w = []"
| "calls_of_each r ((ns, n) # reqs) w =
     ((ns, n), emitted (Reconcile r ns n) w) # calls_of_each r reqs (snd (run_state (Reconcile r ns n) w))"

lemma each_agrees:
  assumes sh: "shared r view ok known" and db: "r_db r = mysql_provisioner q cfg" and "ok (env w)"
  shows "let w' = snd (run_state (reconcile_each r reqs) w) in
    list_all (\<lambda>(key, l). list_all (agreed key (view (env w'))) l) (calls_of_each r reqs w) \<and>
    kept (view (env w)) (view (env w'))"
  using assms(3)
proof (induction reqs arbitrary: w)
  case (Cons req reqs)
  obtain ns n where req: "req = (ns, n)"
    by fastforce
  obtain out w1 where out: "run_state (Reconcile r ns n) w = (out, w1)"
    by fastforce
  have "steady view ok known (ns, n) (trace w) (view (env w)) (known (env w)) w1"
    using holdsD [OF mysql_db.keeps_Reconcile [OF sh db, unfolded keeps_def] steady_start out] Cons.prems .
  then have 1: "ok (env w1)" "kept (view (env w)) (view (env w1))"
    "list_all (agreed (ns, n) (view (env w1))) (emitted (Reconcile r ns n) w)"
    using out by (auto simp: steady_def emitted_def)
  let ?w' = "snd (run_state (reconcile_each r reqs) w1)"
  have 2: "list_all (\<lambda>(key, l). list_all (agreed key (view (env ?w'))) l) (calls_of_each r reqs w1)"
    "kept (view (env w1)) (view (env ?w'))"
    using Cons.IH [OF 1(1)] by (simp_all add: Let_def)
  have "list_all (agreed (ns, n) (view (env ?w'))) (emitted (Reconcile r ns n) w)"
    using 1(3) by (rule list_all_imp) (rule agreed_kept [OF _ 2(2)])
  then show ?case
    using 1 2 out kept_trans by (auto simp: req reconcile_each_def Let_def)
qed (simp add: reconcile_each_def)

text \<open>
  C4. Passwords agree under interleaving: on a cluster with optimistic concurrency, whatever requests
  the operator works off and whatever other reconcilers do between any two of its calls (as long as
  they, like this one, never change a password that is stored), every password that a reconcile of a
  site has handed to \<open>EnsureDatabase\<close> is not empty and is the one that the Secret of that site, in its
  namespace and under the name derived from its own, holds at the end, after all the requests; and no
  password that was stored at the start has changed.
\<close>

theorem passwords_agree:
  assumes "shared (operator_reconciler g k q) view ok known" and "ok (env w)"
  shows "let w' = snd (run_state (reconcile_each (operator_reconciler g k q) reqs) w) in
    list_all (\<lambda>(key, l). list_all (agreed key (view (env w'))) l)
      (calls_of_each (operator_reconciler g k q) reqs w) \<and>
    kept (view (env w)) (view (env w'))"
proof -
  have "r_db (operator_reconciler g k q) = mysql_provisioner q (operator_mysql g)"
    by (simp add: operator_reconciler_def)
  from each_agrees [OF assms(1) this assms(2)] show ?thesis .
qed

section \<open>A cluster with versions\<close>

text \<open>The Secrets with the history of what was stored; the version of a Secret is its place in it.\<close>

type_synonym cas = "(string \<times> string \<Rightarrow> secret option) \<times> secret list"

definition cas_store :: "secret \<Rightarrow> cas \<Rightarrow> secret result \<times> cas" where
  "cas_store s e = (let s' = s\<lparr>sec_meta := (sec_meta s)\<lparr>m_resourceVersion := replicate (length (snd e)) (CHR ''v'')\<rparr>\<rparr>
     in (Inr s', ((fst e)(secret_key s \<mapsto> s'), snd e @ [s'])))"

definition conflict :: go_error where
  "conflict = KubeErr OtherReason ''the object has been modified''"

definition calm_kube :: "'e kube" where
  "calm_kube = \<lparr>
     k_getSite = (\<lambda>ns n e. (Inr (new_site n ns (site_spec sample_site)), e)), k_listSites = (\<lambda>ns e. (Inr [], e)),
     k_createSite = (\<lambda>s e. (Inr s, e)), k_updateSite = (\<lambda>s e. (Inr s, e)), k_deleteSite = (\<lambda>s e. (Inr (), e)),
     k_statusUpdate = (\<lambda>s e. (Inr s, e)),
     k_getSecret = (\<lambda>ns n e. (Inl not_found, e)), k_createSecret = (\<lambda>s e. (Inr s, e)),
     k_updateSecret = (\<lambda>s e. (Inr s, e)),
     k_getOwned = (\<lambda>b e. (Inl not_found, e)), k_createOwned = (\<lambda>b e. (Inr (), e)),
     k_updateOwned = (\<lambda>b e. (Inr (), e)), k_patchOwned = (\<lambda>g b e. (Inr (), e)),
     k_listPods = (\<lambda>ns n e. (Inr [], e)), k_listEvents = (\<lambda>ns e. (Inr [], e)),
     k_listNodes = (\<lambda>e. (Inr [], e)), k_listNodeUsage = (\<lambda>e. (Inr [], e)), k_listPodUsage = (\<lambda>ns e. (Inr [], e)),
     k_now = (\<lambda>e. (At 0, e)), k_rand = (\<lambda>n e. (replicate n (CHR ''r''), e)),
     k_addFinalizer = k_addFinalizer mem_kube, k_removeFinalizer = k_removeFinalizer mem_kube,
     k_containsFinalizer = k_containsFinalizer mem_kube, k_setControllerRef = k_setControllerRef mem_kube,
     k_gvk = (\<lambda>b. Inr ''gvk''), k_milliValue = (\<lambda>q. 0), k_value = (\<lambda>q. 0)\<rparr>"

definition cas_kube :: "cas kube" where
  "cas_kube = calm_kube\<lparr>
     k_getSecret := (\<lambda>ns n e. (mem_get (fst e) (ns, n), e)),
     k_createSecret := (\<lambda>s e. if fst e (secret_key s) = None then cas_store s e
       else (Inl (KubeErr AlreadyExists ''already exists''), e)),
     k_updateSecret := (\<lambda>s e. case fst e (secret_key s) of
         None \<Rightarrow> (Inl not_found, e)
       | Some x \<Rightarrow> if m_resourceVersion (sec_meta x) = m_resourceVersion (sec_meta s) then cas_store s e
           else (Inl conflict, e))\<rparr>"

definition calm_drv :: "'e sqldrv" where
  "calm_drv = \<lparr>q_open = (\<lambda>d s e. (Inr (), e)), q_ping = (\<lambda>e. (Inr (), e)),
     q_exec = (\<lambda>s a e. (Inr (), e)), q_close = (\<lambda>e. ((), e)), q_remove = (\<lambda>f e. (Inr (), e)),
     q_isNotExist = (\<lambda>e. False), q_makeDir = (\<lambda>d e. (Inr (), e)), q_mapOrder = (\<lambda>e. (True, e)),
     q_quote = (\<lambda>s. s)\<rparr>"

definition cas_ok :: "cas \<Rightarrow> bool" where
  "cas_ok e \<longleftrightarrow> (\<forall>key x. fst e key = Some x \<longrightarrow> secret_key x = key \<and> x \<in> set (snd e)) \<and>
     (\<forall>i < length (snd e). m_resourceVersion (sec_meta (snd e ! i)) = replicate i (CHR ''v''))"

lemma calm_call: "(\<And>e. snd (f e) = e) \<Longrightarrow> keeps (\<lambda>w. env w = e0) (call c f)"
  unfolding keeps_def by (rule holds_call) (auto, metis snd_conv)

lemma calm_query: "(\<And>e. snd (f e) = e) \<Longrightarrow> keeps (\<lambda>w. env w = e0) (query c f)"
  unfolding keeps_def by (rule holds_query) (auto, metis snd_conv)

lemma calm_driver:
  "keeps (\<lambda>w. env w = e0) (sqlOpen calm_drv d s)" "keeps (\<lambda>w. env w = e0) (sqlPing calm_drv)"
  "keeps (\<lambda>w. env w = e0) (sqlExec calm_drv st a)" "keeps (\<lambda>w. env w = e0) (sqlClose calm_drv)"
  by (auto simp: driver_defs calm_drv_def intro!: calm_call calm_query)

lemma calm_exec:
  "keeps (\<lambda>w. env w = e0) (exec_labelled calm_drv sts)" "keeps (\<lambda>w. env w = e0) (exec_plain calm_drv sts')"
proof -
  show "keeps (\<lambda>w. env w = e0) (exec_labelled calm_drv sts)"
    by (induction sts) (auto intro!: hoare calm_driver)
  show "keeps (\<lambda>w. env w = e0) (exec_plain calm_drv sts')"
    by (induction sts') (auto intro!: hoare calm_driver)
qed

lemma calm_provisioner:
  "keeps (\<lambda>w. env w = e0) (EnsureDatabase calm_drv cfg name user host pw)"
  "keeps (\<lambda>w. env w = e0) (DropDatabase calm_drv cfg name user host)"
  unfolding EnsureDatabase_def DropDatabase_def mysql_open_def
  by (intro hoare calm_driver calm_exec)+

lemma keeps_env: "keeps (\<lambda>w. env w = env v) m \<Longrightarrow> env (snd (run_state m v)) = env v"
  by (simp add: keeps_def holds_def)

lemma cas_store_wrote:
  assumes "allowed (fst e (secret_key s)) (snd (cas_store s e))"
  shows "wrote fst cas_ok (\<lambda>e. set (snd e)) allowed s e (cas_store s e)"
proof -
  let ?s = "s\<lparr>sec_meta := (sec_meta s)\<lparr>m_resourceVersion := replicate (length (snd e)) (CHR ''v'')\<rparr>\<rparr>"
  have "secret_key ?s = secret_key s"
    by (simp add: secret_key_def)
  then have "cas_ok ((fst e)(secret_key s \<mapsto> ?s), snd e @ [?s])" if "cas_ok e"
    using that by (auto simp: cas_ok_def nth_append less_Suc_eq)
  moreover have "\<exists>v. kept (fst e) v \<and> allowed (v (secret_key s)) (snd (cas_store s e)) \<and>
      kept (v(secret_key s \<mapsto> ?s)) ((fst e)(secret_key s \<mapsto> ?s))"
    using assms(1) by (intro exI [of _ "fst e"]) simp
  ultimately show ?thesis
    by (auto simp: wrote_def cas_store_def Let_def)
qed

lemma cas_one_version: "one_version cas_ok (\<lambda>e. set (snd e))"
proof -
  have "x = y" if ok: "cas_ok e" and elems: "x \<in> set (snd e)" "y \<in> set (snd e)"
    and eq: "m_resourceVersion (sec_meta x) = m_resourceVersion (sec_meta y)" for e x y
  proof -
    obtain i j where "x = snd e ! i" "i < length (snd e)" "y = snd e ! j" "j < length (snd e)"
      using elems by (auto simp: in_set_conv_nth)
    moreover from this have "i = j"
      using ok eq unfolding cas_ok_def by (metis length_replicate)
    ultimately show ?thesis
      by simp
  qed
  then show ?thesis
    unfolding one_version_def by metis
qed

lemma cas_shared: "shared (operator_reconciler (\<lambda>_. []) cas_kube calm_drv) fst cas_ok (\<lambda>e. set (snd e))"
proof -
  have "secrets_of cas_kube fst cas_ok (\<lambda>e. set (snd e))"
    unfolding secrets_of_def
  proof (intro conjI allI cas_one_version)
    fix ns n e
    show "got fst cas_ok (\<lambda>e. set (snd e)) (ns, n) e (k_getSecret cas_kube ns n e)"
      by (auto simp: got_def quiet_def cas_kube_def calm_kube_def mem_get_def cas_ok_def split: option.splits
          intro!: exI [of _ "fst e"])
  next
    fix s and e :: cas
    show "wrote fst cas_ok (\<lambda>e. set (snd e)) (\<lambda>cur _. cur = None) s e (k_createSecret cas_kube s e)"
      using cas_store_wrote [of "\<lambda>cur _. cur = None" e s]
      by (auto simp: cas_kube_def) (simp add: wrote_def)
  next
    fix s and e :: cas
    show "wrote fst cas_ok (\<lambda>e. set (snd e)) (\<lambda>cur e'. \<exists>x. cur = Some x \<and> x \<in> set (snd e') \<and>
        secret_key x = secret_key s \<and>
        m_resourceVersion (sec_meta x) = m_resourceVersion (sec_meta s)) s e (k_updateSecret cas_kube s e)"
    proof (cases "cas_ok e")
      case True
      then have in_hist: "secret_key x = secret_key s \<and> x \<in> set (snd e)" if "fst e (secret_key s) = Some x" for x
        using that by (cases "secret_key s") (simp add: cas_ok_def)
      show ?thesis
        using in_hist
        by (auto simp: cas_kube_def split: option.splits intro!: cas_store_wrote)
          (auto simp: wrote_def cas_store_def Let_def)
    qed (simp add: wrote_def)
  qed
  moreover have "others_quiet cas_kube (quiet fst cas_ok (\<lambda>e. set (snd e)))"
    by (simp add: others_quiet_def cas_kube_def calm_kube_def quiet_def)
  moreover have "db_quiet (mysql_provisioner calm_drv cfg) (quiet fst cas_ok (\<lambda>e. set (snd e)))" for cfg
    by (simp add: db_quiet_def quiet_def mysql_provisioner_def keeps_env [OF calm_provisioner(1)]
        keeps_env [OF calm_provisioner(2)])
  moreover have "owner_only cas_kube"
    by (simp add: owner_only_def cas_kube_def calm_kube_def mem_kube_def)
  moreover have "sites_named cas_kube" "finalizer_laws cas_kube"
    using mem_finalizer_laws
    by (simp_all add: sites_named_def finalizer_laws_def cas_kube_def calm_kube_def new_site_def new_meta_def)
  ultimately show ?thesis
    by (simp add: shared_def operator_reconciler_def)
qed

theorem passwords_agree_witness:
  "let r = operator_reconciler (\<lambda>_. []) cas_kube calm_drv;
       reqs = [(''wordpress-sites'', ''blog-acme''), (''wordpress-sites'', ''shop'')];
       w = \<lparr>env = (Map.empty, []), trace = []\<rparr>;
       w' = snd (run_state (reconcile_each r reqs) w) in
    list_all (\<lambda>(key, l). list_all (agreed key (fst (env w'))) l) (calls_of_each r reqs w) \<and>
    kept Map.empty (fst (env w'))"
  using passwords_agree [OF cas_shared, of "\<lparr>env = (Map.empty, []), trace = []\<rparr>"
      "[(''wordpress-sites'', ''blog-acme''), (''wordpress-sites'', ''shop'')]"]
  by (simp add: cas_ok_def Let_def)

end
