(* ===== verification/StatusProps.thy ===== *)
theory StatusProps
imports Sharing DtoProps
begin

text \<open>
  The type invariants of what the two programs store: the status a reconcile writes is always a
  consistent one, and the YAML the admin edits goes through the API unchanged.
\<close>

section \<open>Statuses\<close>

definition phases :: "string list" where
  "phases = [PhasePending, PhaseProvisioning, PhaseReady, PhaseSuspended, PhaseError]"

text \<open>
  A typed status: one condition per type, a declared phase, and a Ready condition that tells the same
  story as the phase. A site nobody has reconciled yet has neither phase nor Ready condition.
\<close>

definition typed_status :: "site_status \<Rightarrow> bool" where
  "typed_status st \<longleftrightarrow> distinct (map c_type (ss_conditions st)) \<and> ss_phase st \<in> set phases \<and>
     (case find_condition ''Ready'' (ss_conditions st) of
        None \<Rightarrow> False
      | Some c \<Rightarrow> c_reason c = ss_phase st \<and>
          c_status c = (if ss_phase st = PhaseReady then ''True'' else ''False''))"

definition unset_status :: "site_status \<Rightarrow> bool" where
  "unset_status st \<longleftrightarrow> distinct (map c_type (ss_conditions st)) \<and> ss_phase st = [] \<and>
     find_condition ''Ready'' (ss_conditions st) = None"

definition wf_status :: "site_status \<Rightarrow> bool" where
  "wf_status st \<longleftrightarrow> typed_status st \<or> unset_status st"

lemma wf_status_distinct: "wf_status st \<Longrightarrow> distinct (map c_type (ss_conditions st))"
  by (auto simp: wf_status_def typed_status_def unset_status_def)

lemma typed_phase_status:
  assumes "distinct (map c_type (ss_conditions st))" and "phase \<in> set phases"
  shows "typed_status (phase_status phase msg gen now st)"
  using assms
  by (auto simp: typed_status_def phase_status_def setCondition_types setCondition_find ready_condition_def
      split: option.splits)

text \<open>What the API server answers is as consistent as what was stored.\<close>

definition answers_wf :: "'e kube \<Rightarrow> bool" where
  "answers_wf k \<longleftrightarrow>
     (\<forall>ns n e. case fst (k_getSite k ns n e) of Inl _ \<Rightarrow> True | Inr s \<Rightarrow> wf_status (site_status s)) \<and>
     (\<forall>s e. wf_status (site_status s) \<longrightarrow>
        (case fst (k_updateSite k s e) of Inl _ \<Rightarrow> True | Inr s' \<Rightarrow> wf_status (site_status s')))"

text \<open>A status update carries a typed status; an update of the site one as it may be read.\<close>

fun stores_wf :: "traced \<Rightarrow> bool" where
  "stores_wf (CStatusUpdate s, _) = typed_status (site_status s)"
| "stores_wf (CUpdateSite s, _) = wf_status (site_status s)"
| "stores_wf (CCreateSite s, _) = wf_status (site_status s)"
| "stores_wf _ = True"

lemma runs_call_result: "(\<And>e r. fst (f e) = r \<Longrightarrow> Q r [(c, err_of r)]) \<Longrightarrow> runs (call c f) Q"
  by (auto simp: runs_def run_simps split: prod.splits) (metis fst_conv)

lemma runs_getSite_wf:
  assumes "answers_wf k"
    and "\<And>r. (case r of Inl _ \<Rightarrow> True | Inr s \<Rightarrow> wf_status (site_status s)) \<Longrightarrow> Q r [(CGetSite ns n, err_of r)]"
  shows "runs (getSite k ns n) Q"
  unfolding client_defs
  by (rule runs_call_result, rule assms(2)) (use assms(1) in \<open>auto simp: answers_wf_def\<close>)

lemma runs_updateSite_wf:
  assumes "answers_wf k" and "wf_status (site_status s)"
    and "\<And>r. (case r of Inl _ \<Rightarrow> True | Inr s \<Rightarrow> wf_status (site_status s)) \<Longrightarrow> Q r [(CUpdateSite s, err_of r)]"
  shows "runs (updateSiteObj k s) Q"
  unfolding client_defs
  by (rule runs_call_result, rule assms(3)) (use assms(1,2) in \<open>auto simp: answers_wf_def\<close>)

lemma setPhase_stores_wf:
  "wf_status (site_status s) \<Longrightarrow> phase \<in> set phases \<Longrightarrow> emits stores_wf (setPhase r s phase msg)"
  unfolding setPhase_def by (intro emits_intros) (simp_all add: typed_phase_status wf_status_distinct)

lemma observed_conditions: "ss_conditions (observed_status s) = ss_conditions (site_status s)"
  by (simp add: observed_status_def)

lemma fail_stores_wf: "wf_status (site_status s) \<Longrightarrow> emits stores_wf (fail r s stage e)"
  unfolding fail_def by (intro emits_intros setPhase_stores_wf) (simp_all add: phases_def)

lemma setPhase_observed_wf:
  "wf_status (site_status s) \<Longrightarrow> phase \<in> set phases \<Longrightarrow>
   emits stores_wf (setPhase r (s\<lparr>site_status := observed_status s\<rparr>) phase msg)"
  unfolding setPhase_def
  by (intro emits_intros) (simp_all add: typed_phase_status wf_status_distinct observed_conditions)

lemma workload_stores_wf: "emits stores_wf (reconcileWorkload r s)"
proof -
  have "emits stores_wf (apply_each r s bs)" for bs
    by (induction bs) (auto simp: apply_obj_def intro!: emits_intros)
  then show ?thesis
    by (simp add: reconcileWorkload_def)
qed

lemma secret_stores_wf: "emits stores_wf (ensureSecret r s)"
  unfolding ensureSecret_def store_secret_def by (intro emits_intros; simp)

context database_provider
begin

lemma driver_stores_wf:
  assumes "r_db r = db"
  shows "emits stores_wf (ensureDatabase r s pw)" and "emits stores_wf (dropDatabase r s)"
proof -
  have "stores_wf c" if "db_driver_call c" for c
    using that by (auto elim!: db_driver_call.elims)
  then show "emits stores_wf (ensureDatabase r s pw)" and "emits stores_wf (dropDatabase r s)"
    unfolding ensureDatabase_def dropDatabase_def assms
    by (intro emits_intros ensure_emits drop_emits; simp)+
qed

lemma body_stores_wf:
  assumes "r_db r = db" and "wf_status (site_status s)"
  shows "emits stores_wf (reconcileBody r s)"
  unfolding reconcileBody_def reconcileSuspended_def reconcileActive_def
  by (intro emits_intros secret_stores_wf workload_stores_wf driver_stores_wf fail_stores_wf
      setPhase_stores_wf setPhase_observed_wf assms) (simp_all add: phases_def)

lemma Reconcile_stores_wf:
  assumes "r_db r = db" and "answers_wf (r_kube r)" and "finalizer_laws (r_kube r)"
  shows "runs (Reconcile r ns n) (\<lambda>_ l. list_all stores_wf l)"
proof -
  have fin: "site_status (fst (k_addFinalizer (r_kube r) s f)) = site_status s"
    "site_status (k_removeFinalizer (r_kube r) s f) = site_status s" for s f
    using assms(3) by (simp_all add: finalizer_laws_def)
  have body: "runs (reconcileBody r s) (\<lambda>_ l. list_all stores_wf l)" if "wf_status (site_status s)" for s
    using body_stores_wf [OF assms(1) that] by (rule runs_emits)
  have delete: "runs (reconcileDelete r s) (\<lambda>_ l. list_all stores_wf l)" if "wf_status (site_status s)" for s
    unfolding reconcileDelete_def
    by (intro wp runs_emits [OF driver_stores_wf(2) [OF assms(1)]]) (use that in \<open>auto simp: fin\<close>)
  show ?thesis
    unfolding Reconcile_def
  proof (intro runs_bind runs_getSite_wf [OF assms(2)] runs_sum runs_if runs_return runs_prod, goal_cases)
    case (2 x s)
    then show ?case
      by (intro runs_mono [OF delete]) auto
  next
    case (3 x s s1 added)
    have "site_status s1 = site_status s"
      using fin(1) [of s Finalizer] 3(4) by simp
    with 3 show ?case
      by (intro runs_updateSite_wf [OF assms(2)]) (auto intro!: wp runs_mono [OF body])
  next
    case (4 x s s1 added)
    have "site_status s1 = site_status s"
      using fin(1) [of s Finalizer] 4(4) by simp
    with 4 show ?case
      by (intro runs_mono [OF body]) auto
  qed auto
qed

end

text \<open>
  C14. Well-typed statuses: as long as the status of every site the API server answers is consistent
  (typed, or without phase and Ready condition, as that of a new site), every status update of either
  reconciler (the operator's with MySQL, the dev server's with SQLite), on any path, errors included,
  carries at most one condition per type, one of the five declared phases, and a Ready condition that is
  True exactly in the phase Ready and gives the phase as its reason; and the site in every other update
  (of the finalizers) has a consistent status, typed or still unset.
\<close>

theorem written_statuses_typed:
  assumes "answers_wf k" and "finalizer_laws k"
  shows "list_all stores_wf (emitted (Reconcile (operator_reconciler g k q) ns n) w) \<and>
    list_all stores_wf (emitted (Reconcile (dev_reconciler g k q p) ns n) w)"
proof -
  have "runs (Reconcile (operator_reconciler g k q) ns n) (\<lambda>_ l. list_all stores_wf l)"
    by (rule mysql_db.Reconcile_stores_wf) (use assms in \<open>auto simp: operator_reconciler_def\<close>)
  moreover have "runs (Reconcile (dev_reconciler g k q p) ns n) (\<lambda>_ l. list_all stores_wf l)"
    by (rule sqlite_db.Reconcile_stores_wf) (use assms in \<open>auto simp: dev_reconciler_def\<close>)
  ultimately show ?thesis
    using runsD by blast
qed

lemma calm_answers_wf: "answers_wf calm_kube"
  by (simp add: answers_wf_def calm_kube_def sample_site_def new_site_def empty_status_def wf_status_def
      unset_status_def find_condition_def)

lemma calm_finalizer_laws: "finalizer_laws calm_kube"
  using mem_finalizer_laws by (simp add: finalizer_laws_def calm_kube_def)

theorem written_statuses_typed_witness:
  "list_all stores_wf (emitted (Reconcile (operator_reconciler (\<lambda>_. []) calm_kube calm_drv)
      ''wordpress-sites'' ''blog-acme'') \<lparr>env = (), trace = []\<rparr>)"
  using written_statuses_typed [OF calm_answers_wf calm_finalizer_laws, of "\<lambda>_. []" calm_drv
      "''wordpress-sites''" "''blog-acme''" "\<lparr>env = (), trace = []\<rparr>"] by blast

section \<open>The YAML of a site\<close>

text \<open>
  The documented behaviour of sigs.k8s.io/yaml on the documents \<open>crYAML\<close> builds: what was marshalled is
  unmarshalled with the same name, spec and annotations.
\<close>

definition yaml_faithful :: "codec \<Rightarrow> bool" where
  "yaml_faithful cx \<longleftrightarrow> (\<forall>d text. cx_yamlDoc cx d = Inr text \<longrightarrow>
     (case cx_yamlSite cx text of
        Inl _ \<Rightarrow> False
      | Inr p \<Rightarrow> site_name p = cr_name d \<and> site_spec p = cr_spec d \<and>
          m_annotations (site_meta p) = cr_annotations d))"

text \<open>
  C25. Round trip of the YAML editor: putting back unchanged the text that \<open>getSiteYAML\<close> showed for a
  stored site, in a body below 1 MiB, does exactly what storing that site unchanged does; in
  particular neither the spec nor the annotations nor the finalizers are touched.
\<close>

theorem yaml_edit_round_trip:
  assumes "yaml_faithful (sv_codec sv)" and "crYAML sv s = Inr text" and "length text < 1048576"
    and "sp_domain (site_spec s) \<noteq> []"
    and "run_state (fetch sv (site_name s)) w = (Inr s, w1)"
  shows "run_state (updateSiteYAML sv (site_name s) (rq\<lparr>rq_body := \<lparr>bd_bytes = text, bd_error = None\<rparr>\<rparr>)) w =
    run_state (store_site sv s) w1"
proof -
  obtain p where p: "cx_yamlSite (sv_codec sv) text = Inr p" "site_name p = site_name s"
    "site_spec p = site_spec s"
    "m_annotations (site_meta p) = (case m_annotations (site_meta s) of
       None \<Rightarrow> None | Some a \<Rightarrow> if a = fmempty then None else Some a)"
  proof -
    note assms(1) [unfolded yaml_faithful_def, rule_format, OF assms(2) [unfolded crYAML_def]]
    then show thesis
      by (cases "cx_yamlSite (sv_codec sv) text") (auto intro: that)
  qed
  have "s\<lparr>site_spec := site_spec p, site_meta := (case m_annotations (site_meta p) of
      None \<Rightarrow> site_meta s | Some a \<Rightarrow> (site_meta s)\<lparr>m_annotations := Some a\<rparr>)\<rparr> = s"
    by (auto simp: p(3,4) split: option.splits)
  then show ?thesis
    using assms(3-5) p(1-3) by (simp add: updateSiteYAML_def read_limited_def with_site_def)
qed

definition one_document :: codec where
  "one_document = (sv_codec edit_server)
     \<lparr>cx_yamlDoc := (\<lambda>d. if cr_name d = site_name sample_site \<and> cr_spec d = site_spec sample_site \<and>
         cr_annotations d = None then Inr ''kind: WordPressSite'' else Inl (GoErr ''other document'')),
      cx_yamlSite := (\<lambda>t. if t = ''kind: WordPressSite'' then Inr sample_site else Inl (GoErr ''other text''))\<rparr>"

theorem yaml_edit_round_trip_witness:
  "run_state (updateSiteYAML (edit_server\<lparr>sv_codec := one_document\<rparr>) ''blog-acme''
      (edit_request\<lparr>rq_body := \<lparr>bd_bytes = ''kind: WordPressSite'', bd_error = None\<rparr>\<rparr>)) mem_with_site =
   run_state (store_site (edit_server\<lparr>sv_codec := one_document\<rparr>) sample_site)
     (mem_with_site\<lparr>trace := [(CGetSite ''wordpress-sites'' ''blog-acme'', None)]\<rparr>)"
proof -
  let ?sv = "edit_server\<lparr>sv_codec := one_document\<rparr>"
  have s: "site_name sample_site = ''blog-acme''" "m_annotations (site_meta sample_site) = None"
    "sp_domain (site_spec sample_site) \<noteq> []"
    by (simp_all add: sample_site_def new_site_def new_meta_def empty_spec_def)
  have "yaml_faithful (sv_codec ?sv)"
    by (simp add: yaml_faithful_def one_document_def s)
  moreover have "crYAML ?sv sample_site = Inr ''kind: WordPressSite''"
    by (simp add: crYAML_def one_document_def s)
  moreover have "run_state (fetch ?sv (site_name sample_site)) mem_with_site =
      (Inr sample_site, mem_with_site\<lparr>trace := [(CGetSite ''wordpress-sites'' ''blog-acme'', None)]\<rparr>)"
    by (simp add: fetch_def run_simps s edit_server_def mem_kube_def mem_get_def mem_with_site_def mem_empty_def)
  ultimately show ?thesis
    using yaml_edit_round_trip [of ?sv sample_site "''kind: WordPressSite''" mem_with_site _ edit_request] s
    by simp
qed

end
