(* ===== verification/MysqlServer.thy ===== *)
theory MysqlServer
imports ProvisionerProps Triples Wiring
begin

text \<open>
  What the provisioner does to a MySQL server. The server is a reference machine with the documented
  effect of the statements the provisioner uses; the texts reach it through a reader of SQL. Both
  operations refine their intended effect on that machine, whichever statement fails, and the privileges
  that result are computed: they are wider than one database.
\<close>

section \<open>The server\<close>

type_synonym account_name = "string \<times> string"

record dbms =
  sr_databases :: "string set"
  sr_users :: "account_name \<rightharpoonup> string"
  sr_grants :: "(account_name \<times> string) set"

datatype sql =
    CreateDatabase string
  | CreateUser string string string
  | AlterUser string string string
  | GrantAll string string string
  | FlushPrivileges
  | DropDatabaseStmt string
  | DropUser string string

text \<open>One statement; \<open>None\<close> is an error, which leaves the server as it was.\<close>

fun sql_step :: "sql \<Rightarrow> dbms \<Rightarrow> dbms option" where
  "sql_step (CreateDatabase n) s = Some (s\<lparr>sr_databases := insert n (sr_databases s)\<rparr>)"
| "sql_step (CreateUser u h p) s =
     Some (if (u, h) \<in> dom (sr_users s) then s else s\<lparr>sr_users := (sr_users s)((u, h) \<mapsto> p)\<rparr>)"
| "sql_step (AlterUser u h p) s =
     (if (u, h) \<in> dom (sr_users s) then Some (s\<lparr>sr_users := (sr_users s)((u, h) \<mapsto> p)\<rparr>) else None)"
| "sql_step (GrantAll pattern u h) s =
     (if (u, h) \<in> dom (sr_users s) then Some (s\<lparr>sr_grants := insert ((u, h), pattern) (sr_grants s)\<rparr>) else None)"
| "sql_step FlushPrivileges s = Some s"
| "sql_step (DropDatabaseStmt n) s = Some (s\<lparr>sr_databases := sr_databases s - {n}\<rparr>)"
| "sql_step (DropUser u h) s = Some (s\<lparr>sr_users := (sr_users s)((u, h) := None),
     sr_grants := {g \<in> sr_grants s. fst g \<noteq> (u, h)}\<rparr>)"

fun sql_steps :: "sql list \<Rightarrow> dbms \<Rightarrow> dbms option" where
  "sql_steps [] s = Some s"
| "sql_steps (c # cs) s = (case sql_step c s of None \<Rightarrow> None | Some s' \<Rightarrow> sql_steps cs s')"

text \<open>
  How a text is read: identifiers between backquotes, accounts and passwords as string literals.
\<close>

definition reads_sql :: "(string \<Rightarrow> sql option) \<Rightarrow> bool" where
  "reads_sql rd \<longleftrightarrow> (\<exists>scan. reads_literals scan \<and>
     (\<forall>n. list_all ident_char n \<longrightarrow>
        rd (''CREATE DATABASE IF NOT EXISTS `'' @ n @ ''` CHARACTER SET utf8mb4 COLLATE utf8mb4_unicode_ci'') =
          Some (CreateDatabase n) \<and>
        rd (''DROP DATABASE IF EXISTS `'' @ n @ ''`'') = Some (DropDatabaseStmt n)) \<and>
     (\<forall>text u h rest p. reads_account scan text u h rest \<longrightarrow> reads_password scan rest p \<longrightarrow>
        rd (''CREATE USER IF NOT EXISTS '' @ text) = Some (CreateUser u h p) \<and>
        rd (''ALTER USER '' @ text) = Some (AlterUser u h p)) \<and>
     (\<forall>text u h n. reads_account scan text u h [] \<longrightarrow>
        rd (''DROP USER IF EXISTS '' @ text) = Some (DropUser u h) \<and>
        (list_all ident_char n \<longrightarrow>
          rd (''GRANT ALL PRIVILEGES ON `'' @ n @ ''`.* TO '' @ text) = Some (GrantAll n u h))) \<and>
     rd ''FLUSH PRIVILEGES'' = Some FlushPrivileges)"

text \<open>
  A driver connected to the server \<open>view e\<close>: a statement that succeeds has been read and executed; one
  that fails has had its effect or none (the answer may be what was lost); the rest has no effect.
\<close>

definition connected :: "'e sqldrv \<Rightarrow> (string \<Rightarrow> sql option) \<Rightarrow> ('e \<Rightarrow> dbms) \<Rightarrow> bool" where
  "connected q rd view \<longleftrightarrow>
     (\<forall>st args e r e'. q_exec q st args e = (r, e') \<longrightarrow>
        (r = Inr () \<or> view e' \<noteq> view e) \<longrightarrow> (\<exists>c. rd st = Some c \<and> sql_step c (view e) = Some (view e'))) \<and>
     (\<forall>d dsn e. view (snd (q_open q d dsn e)) = view e) \<and>
     (\<forall>e. view (snd (q_ping q e)) = view e) \<and>
     (\<forall>e. view (snd (q_close q e)) = view e)"

section \<open>A list of statements\<close>

text \<open>A program that runs a first part of \<open>cs\<close>, all of it when it succeeds.\<close>

definition steps_part :: "('e \<Rightarrow> dbms) \<Rightarrow> sql list \<Rightarrow> 'e state_of \<Rightarrow> unit result \<Rightarrow> 'e state_of \<Rightarrow> bool" where
  "steps_part view cs w r w' \<longleftrightarrow> (\<exists>k \<le> length cs.
     sql_steps (take k cs) (view (env w)) = Some (view (env w')) \<and> (r = Inr () \<longrightarrow> k = length cs))"

lemma steps_part_nil: "steps_part view [] w r w' \<longleftrightarrow> view (env w') = view (env w)"
  by (auto simp: steps_part_def)

lemma steps_part_none: "view (env w') = view (env w) \<Longrightarrow> r \<noteq> Inr () \<Longrightarrow> steps_part view cs w r w'"
  unfolding steps_part_def by (intro exI [of _ 0]) simp

lemma steps_part_one:
  assumes "sql_step c (view (env w)) = Some (view (env w'))" and "r \<noteq> Inr ()"
  shows "steps_part view (c # cs) w r w'"
  unfolding steps_part_def using assms by (intro exI [of _ 1]) simp

lemma steps_part_cons:
  assumes "sql_step c (view (env w)) = Some (view (env w1))" and "steps_part view cs w1 r w'"
  shows "steps_part view (c # cs) w r w'"
proof -
  obtain k where "k \<le> length cs" "sql_steps (take k cs) (view (env w1)) = Some (view (env w'))"
    "r = Inr () \<longrightarrow> k = length cs"
    using assms(2) by (auto simp: steps_part_def)
  then show ?thesis
    unfolding steps_part_def using assms(1) by (intro exI [of _ "Suc k"]) simp
qed

text \<open>One statement and then the rest, with any text for its error.\<close>

lemma steps_part_exec:
  assumes q: "connected q rd view" and c: "rd st = Some c"
    and run: "run_state (do { r \<leftarrow> sqlExec q st args; case r of Inl e \<Rightarrow> ret (Inl (f e)) | Inr _ \<Rightarrow> m }) w = (r, w')"
    and rest: "\<And>w1. run_state m w1 = (r, w') \<Longrightarrow> steps_part view cs w1 r w'"
  shows "steps_part view (c # cs) w r w'"
proof -
  obtain x e where x: "q_exec q st args (env w) = (x, e)"
    by fastforce
  have eff: "x = Inr () \<or> view e \<noteq> view (env w) \<Longrightarrow> sql_step c (view (env w)) = Some (view e)"
    using q x c unfolding connected_def by (metis option.inject)
  show ?thesis
  proof (cases x)
    case (Inl err)
    then have w': "env w' = e" "r \<noteq> Inr ()"
      using run x by (auto simp: run_simps)
    then show ?thesis
      using eff by (cases "view e = view (env w)") (auto intro: steps_part_none steps_part_one)
  next
    case (Inr u)
    then have "run_state m (w\<lparr>env := e, trace := trace w @ [(CSqlExec st args, None)]\<rparr>) = (r, w')"
      using run x by (simp add: run_simps)
    then show ?thesis
      using eff Inr by (intro steps_part_cons [OF _ rest]) simp_all
  qed
qed

lemma steps_part_labelled:
  assumes "connected q rd view" and "map (\<lambda>x. rd (fst x)) sts = map Some cs"
    and "run_state (exec_labelled q sts) w = (r, w')"
  shows "steps_part view cs w r w'"
  using assms(2,3)
proof (induction sts arbitrary: cs w)
  case (Cons x sts)
  then obtain c cs' where c: "cs = c # cs'" "rd (fst x) = Some c" "map (\<lambda>x. rd (fst x)) sts = map Some cs'"
    by (cases cs) auto
  obtain st label where x: "x = (st, label)"
    by fastforce
  show ?case
    unfolding c(1) using c(2) Cons.prems(2) unfolding x
    by (intro steps_part_exec [OF assms(1)] Cons.IH [OF c(3)]) (simp_all only: fst_conv exec_labelled.simps)
qed (simp add: steps_part_nil)

lemma steps_part_plain:
  assumes "connected q rd view" and "map rd sts = map Some cs" and "run_state (exec_plain q sts) w = (r, w')"
  shows "steps_part view cs w r w'"
  using assms(2,3)
proof (induction sts arbitrary: cs w)
  case (Cons st sts)
  then obtain c cs' where c: "cs = c # cs'" "rd st = Some c" "map rd sts = map Some cs'"
    by (cases cs) auto
  show ?case
    unfolding c(1) using c(2) Cons.prems(2)
    by (intro steps_part_exec [OF assms(1)] Cons.IH [OF c(3)]) (simp_all only: exec_plain.simps)
qed (simp add: steps_part_nil)

text \<open>A session around them.\<close>

lemma steps_part_session:
  assumes q: "connected q rd view"
    and run: "run_state (do {
      o1 \<leftarrow> mysql_open q cfg;
      case o1 of Inl e \<Rightarrow> ret (Inl e) | Inr _ \<Rightarrow> do { r \<leftarrow> m; _ \<leftarrow> sqlClose q; ret r } }) w = (r, w')"
    and body: "\<And>w1 w2. run_state m w1 = (r, w2) \<Longrightarrow> steps_part view cs w1 r w2"
  shows "steps_part view cs w r w'"
proof -
  have still: "view (snd (q_open q d dsn e)) = view e" "view (snd (q_ping q e)) = view e"
    "view (snd (q_close q e)) = view e" for d dsn e
    using q by (simp_all add: connected_def)
  obtain o1 w1 where o1: "run_state (mysql_open q cfg) w = (o1, w1)"
    by fastforce
  have w1: "view (env w1) = view (env w)"
    using o1 still by (auto simp: mysql_open_def run_simps split: prod.splits sum.splits) (metis snd_conv)+
  show ?thesis
  proof (cases o1)
    case (Inl e)
    then show ?thesis
      using run o1 w1 by (auto intro: steps_part_none)
  next
    case (Inr u)
    obtain x w2 where x: "run_state m w1 = (x, w2)"
      by fastforce
    obtain e where e: "q_close q (env w2) = ((), e)"
      by (cases "q_close q (env w2)") auto
    have r: "x = r" "env w' = e"
      using run o1 Inr x e by (auto simp: run_simps)
    have "view e = view (env w2)"
      using still(3) [of "env w2"] e by simp
    then show ?thesis
      using body [of w1 w2] x r w1 by (simp add: steps_part_def)
  qed
qed

section \<open>The intended effect\<close>

definition ensured :: "string \<Rightarrow> string \<Rightarrow> string \<Rightarrow> string \<Rightarrow> dbms \<Rightarrow> dbms" where
  "ensured name user host pw s =
     \<lparr>sr_databases = insert name (sr_databases s), sr_users = (sr_users s)((user, host) \<mapsto> pw),
      sr_grants = insert ((user, host), name) (sr_grants s)\<rparr>"

definition removed :: "string \<Rightarrow> string \<Rightarrow> string \<Rightarrow> dbms \<Rightarrow> dbms" where
  "removed name user host s =
     \<lparr>sr_databases = sr_databases s - {name}, sr_users = (sr_users s)((user, host) := None),
      sr_grants = {g \<in> sr_grants s. fst g \<noteq> (user, host)}\<rparr>"

text \<open>
  An operation refines its intended effect: it has it when it succeeds, and when it fails it has done
  nothing that a later run would not overwrite, so that repeating it gives the intended effect.
\<close>

definition refines_effect :: "(dbms \<Rightarrow> dbms) \<Rightarrow> ('e \<Rightarrow> dbms) \<Rightarrow> ('e, unit result) prog \<Rightarrow> 'e state_of \<Rightarrow> bool" where
  "refines_effect f view m w \<longleftrightarrow> (case run_state m w of (r, w') \<Rightarrow>
     f (view (env w')) = f (view (env w)) \<and> (r = Inr () \<longrightarrow> view (env w') = f (view (env w))))"

definition ensure_sql :: "string \<Rightarrow> string \<Rightarrow> string \<Rightarrow> string \<Rightarrow> sql list" where
  "ensure_sql name user host pw =
     [CreateDatabase name, CreateUser user host pw, AlterUser user host pw, GrantAll name user host, FlushPrivileges]"

definition drop_sql :: "string \<Rightarrow> string \<Rightarrow> string \<Rightarrow> sql list" where
  "drop_sql name user host = [DropDatabaseStmt name, DropUser user host, FlushPrivileges]"

lemma take_cases: "k \<le> Suc n \<Longrightarrow> k \<le> n \<or> k = Suc n" for k n :: nat
  by auto

lemma ensure_sql_part:
  assumes "sql_steps (take k (ensure_sql name user host pw)) s = Some s'"
  shows "ensured name user host pw s' = ensured name user host pw s \<and> (k = length (ensure_sql name user host pw) \<longrightarrow> s' = ensured name user host pw s)"
  using assms
  by (auto simp: ensure_sql_def ensured_def take_Cons' split: if_splits option.splits intro!: dbms.equality)

lemma drop_sql_part:
  assumes "sql_steps (take k (drop_sql name user host)) s = Some s'"
  shows "removed name user host s' = removed name user host s \<and> (k = length (drop_sql name user host) \<longrightarrow> s' = removed name user host s)"
  using assms by (auto simp: drop_sql_def removed_def take_Cons' split: if_splits option.splits)

text \<open>The texts of the provisioner are read as these statements.\<close>

lemma ensure_stmts_read:
  assumes rd: "reads_sql rd" and "valid_ident name" "valid_ident user" "list_all plain_char host"
  shows "map (\<lambda>x. rd (fst x)) (ensure_stmts name user host pw) = map Some (ensure_sql name user host pw)"
    and "map rd (drop_stmts name user host) = map Some (drop_sql name user host)"
proof -
  obtain scan where scan: "reads_literals scan" and
    n: "\<And>n. list_all ident_char n \<Longrightarrow>
        rd (''CREATE DATABASE IF NOT EXISTS `'' @ n @ ''` CHARACTER SET utf8mb4 COLLATE utf8mb4_unicode_ci'') =
          Some (CreateDatabase n) \<and> rd (''DROP DATABASE IF EXISTS `'' @ n @ ''`'') = Some (DropDatabaseStmt n)" and
    u: "\<And>text u h rest p. reads_account scan text u h rest \<Longrightarrow> reads_password scan rest p \<Longrightarrow>
        rd (''CREATE USER IF NOT EXISTS '' @ text) = Some (CreateUser u h p) \<and>
        rd (''ALTER USER '' @ text) = Some (AlterUser u h p)" and
    a: "\<And>text u h. reads_account scan text u h [] \<Longrightarrow>
        rd (''DROP USER IF EXISTS '' @ text) = Some (DropUser u h)" and
    g: "\<And>text u h n. reads_account scan text u h [] \<Longrightarrow> list_all ident_char n \<Longrightarrow>
          rd (''GRANT ALL PRIVILEGES ON `'' @ n @ ''`.* TO '' @ text) = Some (GrantAll n u h)" and
    f: "rd ''FLUSH PRIVILEGES'' = Some FlushPrivileges"
    using rd unfolding reads_sql_def by auto
  have name: "list_all ident_char name" and user: "list_all plain_char user"
    using assms(2,3) ident_char_plain by (auto simp: valid_ident_def elim!: list_all_imp)
  have acc: "not_quoted rest \<Longrightarrow> reads_account scan (account user host @ rest) user host rest" for rest
    using scan user assms(4) by (rule account_reads)
  have closed: "reads_account scan (account user host) user host []"
    using acc [of "[]"] by (simp add: not_quoted_def)
  have pw: "reads_account scan (account user host @ '' IDENTIFIED BY '' @ quoted (escapeString pw)) user host
      ('' IDENTIFIED BY '' @ quoted (escapeString pw))"
    by (rule acc) (simp add: not_quoted_def)
  show "map (\<lambda>x. rd (fst x)) (ensure_stmts name user host pw) = map Some (ensure_sql name user host pw)"
    using n [OF name] u [OF pw password_reads [OF scan]] g [OF closed name] f
    by (simp add: ensure_stmts_def ensure_sql_def create_user_stmt_def alter_user_stmt_def grant_stmt_def)
  show "map rd (drop_stmts name user host) = map Some (drop_sql name user host)"
    using n [OF name] a [OF closed] f by (simp add: drop_stmts_def drop_sql_def)
qed

lemma refines_part:
  assumes "\<And>r w'. run_state m w = (r, w') \<Longrightarrow> steps_part view cs w r w'"
    and "\<And>k s s'. sql_steps (take k cs) s = Some s' \<Longrightarrow> f s' = f s \<and> (k = length cs \<longrightarrow> s' = f s)"
  shows "refines_effect f view m w"
proof -
  obtain r w' where run: "run_state m w = (r, w')"
    by fastforce
  then obtain k where "sql_steps (take k cs) (view (env w)) = Some (view (env w'))" "r = Inr () \<longrightarrow> k = length cs"
    using assms(1) by (auto simp: steps_part_def)
  with assms(2) show ?thesis
    by (simp add: refines_effect_def run)
qed

lemma EnsureDatabase_refines:
  assumes "connected q rd view" and "reads_sql rd" and "list_all plain_char host"
  shows "refines_effect (ensured name user host pw) view (EnsureDatabase q cfg name user host pw) w"
proof (cases "valid_ident name \<and> valid_ident user")
  case True
  then have valid: "validateIdent q name = Inr ()" "validateIdent q user = Inr ()"
    by (simp_all add: validateIdent_ok_iff)
  have "steps_part view (ensure_sql name user host pw) w r w'" if run: "run_state (EnsureDatabase q cfg name user host pw) w = (r, w')" for r w'
    using run unfolding EnsureDatabase_def valid sum.case
    by (rule steps_part_session [OF assms(1)])
      (use True ensure_stmts_read(1) [OF assms(2) _ _ assms(3)] steps_part_labelled [OF assms(1)] in blast)
  then show ?thesis
    by (rule refines_part) (assumption | erule ensure_sql_part)+
next
  case False
  then obtain e where "EnsureDatabase q cfg name user host pw = ret (Inl e)"
    using EnsureDatabase_refuses by blast
  then show ?thesis
    by (simp add: refines_effect_def)
qed

lemma DropDatabase_refines:
  assumes "connected q rd view" and "reads_sql rd" and "list_all plain_char host"
  shows "refines_effect (removed name user host) view (DropDatabase q cfg name user host) w"
proof (cases "valid_ident name \<and> valid_ident user")
  case True
  then have valid: "validateIdent q name = Inr ()" "validateIdent q user = Inr ()"
    by (simp_all add: validateIdent_ok_iff)
  have "steps_part view (drop_sql name user host) w r w'" if run: "run_state (DropDatabase q cfg name user host) w = (r, w')" for r w'
    using run unfolding DropDatabase_def valid sum.case
    by (rule steps_part_session [OF assms(1)])
      (use True ensure_stmts_read(2) [OF assms(2) _ _ assms(3)] steps_part_plain [OF assms(1)] in blast)
  then show ?thesis
    by (rule refines_part) (assumption | erule drop_sql_part)+
next
  case False
  then obtain e where "DropDatabase q cfg name user host = ret (Inl e)"
    using DropDatabase_refuses by blast
  then show ?thesis
    by (simp add: refines_effect_def)
qed

text \<open>
  C6. The MySQL provisioner refines its specification on the server, for a host without quote, backslash
  or control byte (others break out of the statement): an \<open>EnsureDatabase\<close> that succeeds has created the database, set the user's password to exactly the given bytes and granted the user its
  database, and changed nothing else; a \<open>DropDatabase\<close> that succeeds has removed these. One that fails,
  at whichever statement and even when only its answer was lost, leaves a state from which repeating it
  has the same effect, and nothing of other databases and users changes.
\<close>

theorem provisioner_refines_server:
  assumes "connected q rd view" and "reads_sql rd" and "list_all plain_char host"
  shows "refines_effect (ensured name user host pw) view (EnsureDatabase q cfg name user host pw) w \<and>
    refines_effect (removed name user host) view (DropDatabase q cfg name user host) w"
  using EnsureDatabase_refines [OF assms] DropDatabase_refines [OF assms] by blast

section \<open>A server\<close>

text \<open>A reader of the statements, and a driver on a server that is its own environment.\<close>

definition after_prefix :: "string \<Rightarrow> string \<Rightarrow> string option" where
  "after_prefix p s = (if take (length p) s = p then Some (drop (length p) s) else None)"

definition read_ident :: "string \<Rightarrow> (string \<times> string) option" where
  "read_ident s = (case dropWhile ident_char s of
     [] \<Rightarrow> None | c # r \<Rightarrow> if c = CHR ''`'' then Some (takeWhile ident_char s, r) else None)"

definition read_account :: "string \<Rightarrow> ((string \<times> string) \<times> string) option" where
  "read_account s = (case mysql_scan (drop 1 s) of
     None \<Rightarrow> None
   | Some (u, r) \<Rightarrow> if take 1 s = squote \<and> take 2 r = ''@'' @ squote
       then map_option (map_prod (Pair u) id) (mysql_scan (drop 2 r)) else None)"

definition read_password :: "string \<Rightarrow> string option" where
  "read_password s = (if take 16 s = '' IDENTIFIED BY '' @ squote
     then (case mysql_scan (drop 16 s) of Some (p, []) \<Rightarrow> Some p | _ \<Rightarrow> None) else None)"

definition read_user :: "(string \<Rightarrow> string \<Rightarrow> string \<Rightarrow> sql) \<Rightarrow> string \<Rightarrow> sql option" where
  "read_user f s = (case read_account s of
     None \<Rightarrow> None | Some ((u, h), r) \<Rightarrow> map_option (f u h) (read_password r))"

definition read_name :: "(string \<Rightarrow> string \<Rightarrow> sql option) \<Rightarrow> string \<Rightarrow> sql option" where
  "read_name f s = (case read_ident s of None \<Rightarrow> None | Some (n, r) \<Rightarrow> f n r)"

definition read_bare :: "(string \<Rightarrow> string \<Rightarrow> sql) \<Rightarrow> string \<Rightarrow> sql option" where
  "read_bare f s = (case read_account s of Some ((u, h), []) \<Rightarrow> Some (f u h) | _ \<Rightarrow> None)"

definition mysql_read :: "string \<Rightarrow> sql option" where
  "mysql_read s =
     (case after_prefix ''CREATE DATABASE IF NOT EXISTS `'' s of Some r \<Rightarrow> read_name (\<lambda>n r.
        if r = '' CHARACTER SET utf8mb4 COLLATE utf8mb4_unicode_ci'' then Some (CreateDatabase n) else None) r
    | None \<Rightarrow> case after_prefix ''DROP DATABASE IF EXISTS `'' s of Some r \<Rightarrow> read_name (\<lambda>n r.
        if r = [] then Some (DropDatabaseStmt n) else None) r
    | None \<Rightarrow> case after_prefix ''CREATE USER IF NOT EXISTS '' s of Some r \<Rightarrow> read_user CreateUser r
    | None \<Rightarrow> case after_prefix ''ALTER USER '' s of Some r \<Rightarrow> read_user AlterUser r
    | None \<Rightarrow> case after_prefix ''DROP USER IF EXISTS '' s of Some r \<Rightarrow> read_bare DropUser r
    | None \<Rightarrow> case after_prefix ''GRANT ALL PRIVILEGES ON `'' s of Some r \<Rightarrow> read_name (\<lambda>n r.
        case after_prefix ''.* TO '' r of None \<Rightarrow> None | Some t \<Rightarrow> read_bare (GrantAll n) t) r
    | None \<Rightarrow> if s = ''FLUSH PRIVILEGES'' then Some FlushPrivileges else None)"

lemma read_ident_in: "list_all ident_char n \<Longrightarrow> read_ident (n @ CHR ''`'' # r) = Some (n, r)"
proof -
  have "\<not> ident_char CHR ''`''"
    by (simp add: ident_char_def ident_rune_def byte_of_def)
  moreover assume "list_all ident_char n"
  ultimately show ?thesis
    by (simp add: read_ident_def list_all_iff dropWhile_append2 takeWhile_append2)
qed

lemma read_account_in: "reads_account mysql_scan text u h rest \<Longrightarrow> read_account text = Some ((u, h), rest)"
  by (auto simp: reads_account_def read_account_def split: option.splits)

lemma read_password_in: "reads_password mysql_scan text p \<Longrightarrow> read_password text = Some p"
  by (simp add: reads_password_def read_password_def)

lemma mysql_read_reads: "reads_sql mysql_read"
  unfolding reads_sql_def
proof (intro exI [of _ mysql_scan] conjI allI impI)
  show "reads_literals mysql_scan"
    by (rule mysql_scan_reads)
qed (simp_all add: mysql_read_def after_prefix_def read_name_def read_user_def read_bare_def
  read_ident_in read_account_in read_password_in)

definition sql_drv :: "dbms sqldrv" where
  "sql_drv = \<lparr>q_open = (\<lambda>d s e. (Inr (), e)), q_ping = (\<lambda>e. (Inr (), e)),
     q_exec = (\<lambda>st a e. case mysql_read st of
        None \<Rightarrow> (Inl (GoErr ''syntax error''), e)
      | Some c \<Rightarrow> (case sql_step c e of None \<Rightarrow> (Inl (GoErr ''no such user''), e) | Some e' \<Rightarrow> (Inr (), e'))),
     q_close = (\<lambda>e. ((), e)), q_remove = (\<lambda>f e. (Inr (), e)),
     q_isNotExist = (\<lambda>e. False), q_makeDir = (\<lambda>d e. (Inr (), e)), q_mapOrder = (\<lambda>e. (True, e)),
     q_quote = (\<lambda>s. s)\<rparr>"

lemma sql_drv_connected: "connected sql_drv mysql_read id"
  by (auto simp: connected_def sql_drv_def split: option.splits)

definition bare_server :: dbms where
  "bare_server = \<lparr>sr_databases = {}, sr_users = Map.empty, sr_grants = {}\<rparr>"

theorem provisioner_refines_server_witness:
  "refines_effect (ensured ''wp_blog'' ''wpu_blog'' ''%'' [CHR 0x27]) id
     (EnsureDatabase sql_drv (operator_mysql (\<lambda>_. [])) ''wp_blog'' ''wpu_blog'' ''%'' [CHR 0x27]) \<lparr>env = bare_server, trace = []\<rparr> \<and>
   refines_effect (removed ''wp_blog'' ''wpu_blog'' ''%'') id
     (DropDatabase sql_drv (operator_mysql (\<lambda>_. [])) ''wp_blog'' ''wpu_blog'' ''%'') \<lparr>env = bare_server, trace = []\<rparr>"
  by (rule provisioner_refines_server [OF sql_drv_connected mysql_read_reads]) (simp add: plain_char_iff)

section \<open>What a grant reaches\<close>

text \<open>
  The manual on \<open>GRANT\<close>: at the database level the name is a pattern, in which an underscore stands for
  any character and a percent sign for any text, unless a backslash precedes it.
\<close>

fun like :: "string \<Rightarrow> string \<Rightarrow> bool" where
  "like [] s = (s = [])"
| "like (c # p) s =
     (if c = CHR ''%'' then like p s \<or> (case s of [] \<Rightarrow> False | _ # s' \<Rightarrow> like (c # p) s')
      else if c = CHR 0x5C \<and> p \<noteq> [] then (case s of [] \<Rightarrow> False | d # s' \<Rightarrow> d = hd p \<and> like (tl p) s')
      else (case s of [] \<Rightarrow> False | d # s' \<Rightarrow> (c = CHR ''_'' \<or> d = c) \<and> like p s'))"

definition reaches :: "dbms \<Rightarrow> account_name \<Rightarrow> string \<Rightarrow> bool" where
  "reaches sv acc db \<longleftrightarrow> (\<exists>p. (acc, p) \<in> sr_grants sv \<and> like p db)"

text \<open>Letters, digits and underscores: the pattern is matched character by character.\<close>

lemma like_ident: "list_all ident_char p \<Longrightarrow> like p s \<longleftrightarrow> list_all2 (\<lambda>a b. a = CHR ''_'' \<or> b = a) p s"
proof (induction p arbitrary: s)
  case (Cons c p)
  have "c \<noteq> CHR ''%''" "c \<noteq> CHR 0x5C"
    using Cons.prems by (auto simp: ident_char_def ident_rune_def byte_of_def)
  with Cons show ?case
    by (cases s) auto
qed simp

text \<open>A site's name covers another: it turns into it by replacing hyphens.\<close>

definition covers :: "string \<Rightarrow> string \<Rightarrow> bool" where
  "covers m n \<longleftrightarrow> list_all2 (\<lambda>a b. a = CHR ''-'' \<or> b = a) m n"

lemma slug_covers:
  assumes "label_char a" "label_char b"
  shows "slug_of_label_char a = CHR ''_'' \<or> slug_of_label_char b = slug_of_label_char a \<longleftrightarrow>
    a = CHR ''-'' \<or> b = a"
  using assms label_char_not_underscore [of a] label_char_not_underscore [of b]
  by (auto simp: slug_of_label_char_def)

lemma like_generated:
  assumes "dns_label m" "dns_label n" "length m \<le> 61" "length n \<le> 61"
  shows "like (truncate_str (''wp_'' @ sanitize m) 64) (truncate_str (''wp_'' @ sanitize n) 64) \<longleftrightarrow> covers m n"
proof -
  have "list_all ident_char (''wp_'' @ sanitize m)"
    using name_prefixes(1) sanitize_slug [of m] slug_char_ident by (auto elim!: list_all_imp)
  then have "like (''wp_'' @ sanitize m) (''wp_'' @ sanitize n) \<longleftrightarrow>
      list_all2 (\<lambda>a b. a = CHR ''_'' \<or> b = a) (sanitize m) (sanitize n)"
    by (subst like_ident) simp_all
  also have "\<dots> \<longleftrightarrow> covers m n"
    unfolding sanitize_label [OF assms(1)] sanitize_label [OF assms(2)] covers_def list.rel_map
    using assms(1,2) by (intro list.rel_cong slug_covers refl) (simp_all add: dns_label_def list_all_iff)
  finally show ?thesis
    using assms by (simp add: truncate_str_def length_sanitize_label)
qed

lemma plain_host: "no_override s \<Longrightarrow> list_all plain_char (DatabaseHost s)"
  by (simp add: DatabaseHost_def no_override_def plain_char_iff)

lemma ensured_state:
  assumes "connected q rd view" and "reads_sql rd" and "no_override s"
    and "run_state (EnsureDatabase q cfg (DatabaseName s) (DatabaseUser s) (DatabaseHost s) pw) w = (Inr (), w')"
  shows "view (env w') = ensured (DatabaseName s) (DatabaseUser s) (DatabaseHost s) pw (view (env w))"
  using EnsureDatabase_refines [OF assms(1,2) plain_host [OF assms(3)]] assms(4)
  by (simp add: refines_effect_def) (metis (mono_tags, lifting) case_prod_conv)

text \<open>
  C21. What an \<open>EnsureDatabase\<close> adds to what a site's database user reaches, for sites without overrides
  whose names are DNS labels of at most 61 characters: exactly the databases of those sites whose names
  come from its own by replacing hyphens; what the account reached before (through another site with the
  same user, say) it still reaches. The underscore in the granted name is a wildcard: without hyphens it
  is the site's own database, but the user of \<open>blog-acme\<close> has all privileges on the database of
  \<open>blogxacme\<close>.
\<close>

theorem grants_reach:
  assumes "connected q rd view" and "reads_sql rd"
    and "no_override s" "no_override t" "dns_label (site_name s)" "dns_label (site_name t)"
    and "length (site_name s) \<le> 61" "length (site_name t) \<le> 61"
    and "run_state (EnsureDatabase q cfg (DatabaseName s) (DatabaseUser s) (DatabaseHost s) pw) w = (Inr (), w')"
  shows "reaches (view (env w')) (DatabaseUser s, DatabaseHost s) (DatabaseName t) \<longleftrightarrow>
    reaches (view (env w)) (DatabaseUser s, DatabaseHost s) (DatabaseName t) \<or>
    covers (site_name s) (site_name t)"
proof -
  have "reaches (view (env w')) (DatabaseUser s, DatabaseHost s) (DatabaseName t) \<longleftrightarrow>
      reaches (view (env w)) (DatabaseUser s, DatabaseHost s) (DatabaseName t) \<or>
      like (DatabaseName s) (DatabaseName t)"
    unfolding ensured_state [OF assms(1-3,9)] by (auto simp: reaches_def ensured_def)
  then show ?thesis
    using assms(3,4) like_generated [OF assms(5-8)] by (simp add: DatabaseName_def no_override_def)
qed

definition neighbour_site :: site where
  "neighbour_site = new_site ''blogxacme'' ''wordpress-sites'' empty_spec"

lemma sql_drv_executes:
  "map (\<lambda>x. mysql_read (fst x)) sts = map Some cs \<Longrightarrow> sql_steps cs (env w) \<noteq> None \<Longrightarrow>
     fst (run_state (exec_labelled sql_drv sts) w) = Inr ()"
proof (induction sts arbitrary: cs w)
  case (Cons x sts)
  then obtain c cs' where "cs = c # cs'" "mysql_read (fst x) = Some c" "map (\<lambda>x. mysql_read (fst x)) sts = map Some cs'"
    by (cases cs) auto
  then show ?case
    using Cons by (cases x) (auto simp: run_simps sql_drv_def split: option.splits)
qed simp

lemma sql_drv_ensure_succeeds:
  assumes "no_override s"
  shows "\<exists>w'. run_state (EnsureDatabase sql_drv cfg (DatabaseName s) (DatabaseUser s) (DatabaseHost s) pw) w = (Inr (), w')"
proof -
  let ?name = "DatabaseName s" and ?user = "DatabaseUser s" and ?host = "DatabaseHost s"
  note idents = no_override_idents [OF assms]
  have "sql_steps (ensure_sql ?name ?user ?host pw) e \<noteq> None" for e
    by (simp add: ensure_sql_def)
  then have "fst (run_state (exec_labelled sql_drv (ensure_stmts ?name ?user ?host pw)) v) = Inr ()" for v
    by (intro sql_drv_executes [OF ensure_stmts_read(1) [OF mysql_read_reads idents plain_host [OF assms]]]) simp
  moreover have "q_open sql_drv d dsn e = (Inr (), e)" "q_ping sql_drv e = (Inr (), e)"
    "q_close sql_drv e = ((), e)" for d dsn e
    by (simp_all add: sql_drv_def)
  moreover have "validateIdent sql_drv ?name = Inr ()" "validateIdent sql_drv ?user = Inr ()"
    using idents by (simp_all add: validateIdent_ok_iff)
  ultimately show ?thesis
    by (auto simp: EnsureDatabase_def mysql_open_def run_simps split: prod.splits) (metis fst_conv)
qed

theorem grants_reach_witness:
  "\<exists>w'. run_state (EnsureDatabase sql_drv (operator_mysql (\<lambda>_. [])) (DatabaseName sample_site) (DatabaseUser sample_site)
      (DatabaseHost sample_site) ''passw0rd'') \<lparr>env = bare_server, trace = []\<rparr> = (Inr (), w') \<and>
    reaches (env w') (DatabaseUser sample_site, DatabaseHost sample_site) (DatabaseName neighbour_site)"
proof -
  have o: "no_override sample_site" "no_override neighbour_site"
    by (simp_all add: no_override_def sample_site_def neighbour_site_def new_site_def empty_spec_def)
  have n: "site_name sample_site = ''blog-acme''" "site_name neighbour_site = ''blogxacme''"
    by (simp_all add: sample_site_def neighbour_site_def new_site_def new_meta_def)
  obtain w' where run: "run_state (EnsureDatabase sql_drv (operator_mysql (\<lambda>_. [])) (DatabaseName sample_site) (DatabaseUser sample_site)
      (DatabaseHost sample_site) ''passw0rd'') \<lparr>env = bare_server, trace = []\<rparr> = (Inr (), w')"
    using sql_drv_ensure_succeeds [OF o(1)] by blast
  have "covers ''blog-acme'' ''blogxacme'' \<longrightarrow>
      reaches (id (env w')) (DatabaseUser sample_site, DatabaseHost sample_site) (DatabaseName neighbour_site)"
    using grants_reach [OF sql_drv_connected mysql_read_reads o _ _ _ _ run] unfolding n
    by (simp add: dns_label_def label_char_def byte_of_def)
  then show ?thesis
    using run by (auto simp: covers_def)
qed

section \<open>Sites that share their credentials\<close>

lemma like_self: "list_all ident_char p \<Longrightarrow> like p p"
  by (simp add: like_ident list.rel_refl)

text \<open>
  C37. Where names collide isolation fails. Two sites without overrides have the same user when their
  names are DNS labels that agree on the first 28 characters, and the same user and database when their
  names differ only in dots for hyphens (\<open>a.b\<close> and \<open>a-b\<close>, both legal for a custom resource; without
  capitals and in ASCII). After \<open>EnsureDatabase\<close> for the one and then for the other, with their own
  passwords, the account has the password of the second, so that the first can no longer connect with
  the one in its Secret, and it reaches both databases.
\<close>

theorem sites_share_credentials:
  assumes "connected q rd view" and "reads_sql rd" and "no_override s" "no_override t"
    and "same_label_start (site_name s) (site_name t) \<or> same_up_to_dots (site_name s) (site_name t)"
    and "run_state (EnsureDatabase q cfg (DatabaseName s) (DatabaseUser s) (DatabaseHost s) pw) w = (Inr (), w1)"
    and "run_state (EnsureDatabase q cfg (DatabaseName t) (DatabaseUser t) (DatabaseHost t) pw') w1 = (Inr (), w2)"
  shows "DatabaseUser s = DatabaseUser t \<and>
    (same_up_to_dots (site_name s) (site_name t) \<longrightarrow> DatabaseName s = DatabaseName t) \<and>
    sr_users (view (env w1)) (DatabaseUser s, DatabaseHost s) = Some pw \<and>
    sr_users (view (env w2)) (DatabaseUser s, DatabaseHost s) = Some pw' \<and>
    reaches (view (env w2)) (DatabaseUser s, DatabaseHost s) (DatabaseName s) \<and>
    reaches (view (env w2)) (DatabaseUser s, DatabaseHost s) (DatabaseName t)"
proof -
  have user: "DatabaseUser s = DatabaseUser t"
    using assms(5) shared_user [OF assms(3,4)] by blast
  have host: "DatabaseHost s = DatabaseHost t"
    using assms(3,4) by (simp add: DatabaseHost_def no_override_def)
  have name: "same_up_to_dots (site_name s) (site_name t) \<longrightarrow> DatabaseName s = DatabaseName t"
    using shared_user(2) [OF assms(3,4)] by blast
  have own: "like (DatabaseName s) (DatabaseName s)" "like (DatabaseName t) (DatabaseName t)"
    using no_override_idents(1) assms(3,4) by (simp_all add: like_self valid_ident_def)
  have 1: "view (env w1) = ensured (DatabaseName s) (DatabaseUser s) (DatabaseHost s) pw (view (env w))"
    by (rule ensured_state [OF assms(1,2,3,6)])
  have 2: "view (env w2) = ensured (DatabaseName t) (DatabaseUser t) (DatabaseHost t) pw' (view (env w1))"
    by (rule ensured_state [OF assms(1,2,4,7)])
  show ?thesis
    using user host name own by (auto simp: 1 2 ensured_def reaches_def)
qed

definition customer_site :: "string \<Rightarrow> site" where
  "customer_site n = new_site (''customer-wordpress-production-'' @ n) ''wordpress-sites'' empty_spec"

theorem sites_share_credentials_witness:
  "\<exists>w1 w2. let s = customer_site ''01''; t = customer_site ''02'' in
    run_state (EnsureDatabase sql_drv (operator_mysql (\<lambda>_. [])) (DatabaseName s) (DatabaseUser s) (DatabaseHost s) ''one'')
      \<lparr>env = bare_server, trace = []\<rparr> = (Inr (), w1) \<and>
    run_state (EnsureDatabase sql_drv (operator_mysql (\<lambda>_. [])) (DatabaseName t) (DatabaseUser t) (DatabaseHost t) ''two'')
      w1 = (Inr (), w2) \<and>
    DatabaseUser s = DatabaseUser t \<and> sr_users (env w2) (DatabaseUser s, DatabaseHost s) = Some ''two'' \<and>
    reaches (env w2) (DatabaseUser s, DatabaseHost s) (DatabaseName s) \<and>
    reaches (env w2) (DatabaseUser s, DatabaseHost s) (DatabaseName t)"
proof -
  let ?s = "customer_site ''01''" and ?t = "customer_site ''02''"
  have o: "no_override (customer_site n)" for n
    by (simp add: no_override_def customer_site_def new_site_def empty_spec_def)
  obtain w1 where w1: "run_state (EnsureDatabase sql_drv (operator_mysql (\<lambda>_. [])) (DatabaseName ?s) (DatabaseUser ?s)
      (DatabaseHost ?s) ''one'') \<lparr>env = bare_server, trace = []\<rparr> = (Inr (), w1)"
    using sql_drv_ensure_succeeds [OF o] by blast
  obtain w2 where w2: "run_state (EnsureDatabase sql_drv (operator_mysql (\<lambda>_. [])) (DatabaseName ?t) (DatabaseUser ?t)
      (DatabaseHost ?t) ''two'') w1 = (Inr (), w2)"
    using sql_drv_ensure_succeeds [OF o] by blast
  have "same_label_start (site_name ?s) (site_name ?t)"
    by (simp add: same_label_start_def customer_site_def new_site_def new_meta_def dns_label_def label_char_def byte_of_def)
  then show ?thesis
    using sites_share_credentials [OF sql_drv_connected mysql_read_reads o o _ w1 w2] w1 w2 by (auto simp: Let_def)
qed

end
