(* ===== verification/Access.thy ===== *)
theory Access
imports ApiProps StartupProps
begin

text \<open>
  What the two programs may do in the cluster. deploy/02-rbac.yaml grants each its roles, the
  controller carries markers from which such a role can be generated, and the scheme of each program
  lists the kinds its client can talk about. The calls of the programs are checked against all three.
\<close>

section \<open>Rules\<close>

record policy_rule =
  pr_groups :: "string list"
  pr_resources :: "string list"
  pr_verbs :: "string list"

record api_request =
  ar_verb :: string
  ar_group :: string
  ar_resource :: string
  ar_namespace :: string

definition rule_permits :: "policy_rule \<Rightarrow> api_request \<Rightarrow> bool" where
  "rule_permits p a \<longleftrightarrow> ar_group a \<in> set (pr_groups p) \<and> ar_resource a \<in> set (pr_resources p) \<and>
     ar_verb a \<in> set (pr_verbs p)"

definition permits :: "policy_rule list \<Rightarrow> api_request \<Rightarrow> bool" where
  "permits ps a \<longleftrightarrow> list_ex (\<lambda>p. rule_permits p a) ps"

definition all_verbs :: "string list" where
  "all_verbs = [''get'', ''list'', ''watch'', ''create'', ''update'', ''patch'', ''delete'']"

definition operator_role :: "policy_rule list" where
  "operator_role =
     [\<lparr>pr_groups = [''wp.benji.dev''],
       pr_resources = [''wordpresssites'', ''wordpresssites/status'', ''wordpresssites/finalizers''],
       pr_verbs = all_verbs\<rparr>,
      \<lparr>pr_groups = [''apps''], pr_resources = [''deployments''], pr_verbs = all_verbs\<rparr>,
      \<lparr>pr_groups = [''''], pr_resources = [''services'', ''secrets'', ''configmaps''], pr_verbs = all_verbs\<rparr>,
      \<lparr>pr_groups = [''networking.k8s.io''], pr_resources = [''ingresses''], pr_verbs = all_verbs\<rparr>,
      \<lparr>pr_groups = [''''], pr_resources = [''events''], pr_verbs = [''create'', ''patch'']\<rparr>,
      \<lparr>pr_groups = [''coordination.k8s.io''], pr_resources = [''leases''], pr_verbs = all_verbs\<rparr>]"

definition apiserver_role :: "policy_rule list" where
  "apiserver_role =
     [\<lparr>pr_groups = [''wp.benji.dev''], pr_resources = [''wordpresssites'', ''wordpresssites/status''],
       pr_verbs = all_verbs\<rparr>,
      \<lparr>pr_groups = [''''], pr_resources = [''pods'', ''events''], pr_verbs = [''get'', ''list'']\<rparr>,
      \<lparr>pr_groups = [''''], pr_resources = [''nodes''], pr_verbs = [''get'', ''list'']\<rparr>,
      \<lparr>pr_groups = [''metrics.k8s.io''], pr_resources = [''nodes'', ''pods''], pr_verbs = [''get'', ''list'']\<rparr>]"

text \<open>The role of the API server in the one namespace \<open>wordpress-system\<close>.\<close>

definition apiserver_2fa_role :: "policy_rule list" where
  "apiserver_2fa_role =
     [\<lparr>pr_groups = [''''], pr_resources = [''secrets''],
       pr_verbs = [''get'', ''list'', ''create'', ''update'', ''patch'']\<rparr>]"

definition apiserver_permits :: "api_request \<Rightarrow> bool" where
  "apiserver_permits a \<longleftrightarrow> permits apiserver_role a \<or>
     (ar_namespace a = ''wordpress-system'' \<and> permits apiserver_2fa_role a)"

text \<open>The \<open>+kubebuilder:rbac\<close> markers above \<open>Reconcile\<close>.\<close>

definition marker_rules :: "policy_rule list" where
  "marker_rules =
     [\<lparr>pr_groups = [''wp.benji.dev''], pr_resources = [''wordpresssites''], pr_verbs = all_verbs\<rparr>,
      \<lparr>pr_groups = [''wp.benji.dev''], pr_resources = [''wordpresssites/status''],
       pr_verbs = [''get'', ''update'', ''patch'']\<rparr>,
      \<lparr>pr_groups = [''wp.benji.dev''], pr_resources = [''wordpresssites/finalizers''], pr_verbs = [''update'']\<rparr>,
      \<lparr>pr_groups = [''apps''], pr_resources = [''deployments''], pr_verbs = all_verbs\<rparr>,
      \<lparr>pr_groups = [''''], pr_resources = [''services'', ''secrets''], pr_verbs = all_verbs\<rparr>,
      \<lparr>pr_groups = [''networking.k8s.io''], pr_resources = [''ingresses''], pr_verbs = all_verbs\<rparr>]"

section \<open>Requests\<close>

definition asks :: "string list \<Rightarrow> string \<Rightarrow> string \<Rightarrow> string \<Rightarrow> api_request list" where
  "asks verbs grp resource ns =
     map (\<lambda>v. \<lparr>ar_verb = v, ar_group = grp, ar_resource = resource, ar_namespace = ns\<rparr>) verbs"

fun kind_resource :: "string \<Rightarrow> string \<times> string" where
  "kind_resource k =
     (if k = ''Deployment'' then (''apps'', ''deployments'')
      else if k = ''Ingress'' then (''networking.k8s.io'', ''ingresses'')
      else if k = ''Service'' then ('''', ''services'')
      else if k = ''Secret'' then ('''', ''secrets'')
      else if k = ''ConfigMap'' then ('''', ''configmaps'')
      else (''wp.benji.dev'', ''wordpresssites''))"

definition of_kind :: "string list \<Rightarrow> string \<Rightarrow> string \<Rightarrow> api_request list" where
  "of_kind verbs k ns = (case kind_resource k of (grp, resource) \<Rightarrow> asks verbs grp resource ns)"

text \<open>
  The HTTP requests a call makes, as the documentation of client-go says. Server-Side Apply is a patch,
  and a create where there was no object; an object with a controller reference that blocks the deletion
  of its owner asks for the owner's finalizers, too.
\<close>

fun client_requests :: "ext_call \<Rightarrow> api_request list" where
  "client_requests (CGetSite ns n) = asks [''get''] ''wp.benji.dev'' ''wordpresssites'' ns"
| "client_requests (CListSites ns) = asks [''list''] ''wp.benji.dev'' ''wordpresssites'' ns"
| "client_requests (CCreateSite s) = asks [''create''] ''wp.benji.dev'' ''wordpresssites'' (site_ns s)"
| "client_requests (CUpdateSite s) = asks [''update''] ''wp.benji.dev'' ''wordpresssites'' (site_ns s)"
| "client_requests (CDeleteSite s) = asks [''delete''] ''wp.benji.dev'' ''wordpresssites'' (site_ns s)"
| "client_requests (CStatusUpdate s) = asks [''update''] ''wp.benji.dev'' ''wordpresssites/status'' (site_ns s)"
| "client_requests (CGetSecret ns n) = asks [''get''] [] ''secrets'' ns"
| "client_requests (CCreateSecret x) = asks [''create''] [] ''secrets'' (m_namespace (sec_meta x)) @
     (if m_owners (sec_meta x) = [] then []
      else asks [''update''] ''wp.benji.dev'' ''wordpresssites/finalizers'' (m_namespace (sec_meta x)))"
| "client_requests (CUpdateSecret x) = asks [''update''] [] ''secrets'' (m_namespace (sec_meta x))"
| "client_requests (CGetOwned b) = of_kind [''get''] (owned_kind b) (m_namespace (owned_meta b))"
| "client_requests (CCreateOwned b) = of_kind [''create''] (owned_kind b) (m_namespace (owned_meta b)) @
     asks [''update''] ''wp.benji.dev'' ''wordpresssites/finalizers'' (m_namespace (owned_meta b))"
| "client_requests (CUpdateOwned b) = of_kind [''update''] (owned_kind b) (m_namespace (owned_meta b))"
| "client_requests (CPatchOwned g b) = of_kind [''patch'', ''create''] (owned_kind b) (m_namespace (owned_meta b)) @
     asks [''update''] ''wp.benji.dev'' ''wordpresssites/finalizers'' (m_namespace (owned_meta b))"
| "client_requests (CListPods ns n) = asks [''list''] [] ''pods'' ns"
| "client_requests (CListEvents ns) = asks [''list''] [] ''events'' ns"
| "client_requests CListNodes = asks [''list''] [] ''nodes'' []"
| "client_requests CListNodeUsage = asks [''list''] ''metrics.k8s.io'' ''nodes'' []"
| "client_requests (CListPodUsage ns) = asks [''list''] ''metrics.k8s.io'' ''pods'' ns"
| "client_requests (CNewManager opts) =
     (if mo_leaderElection opts
      then asks [''get'', ''create'', ''update''] ''coordination.k8s.io'' ''leases'' [] @
        asks [''create'', ''patch''] [] ''events'' []
      else [])"
| "client_requests (CComplete k owns) = concat (map (\<lambda>k. of_kind [''list'', ''watch''] k []) (k # owns))"
| "client_requests _ = []"

text \<open>The manager's client reads from caches that list and watch the kind in all namespaces.\<close>

definition via_cache :: "api_request \<Rightarrow> api_request list" where
  "via_cache a = (if ar_verb a = ''get'' \<and> ar_group a \<noteq> ''coordination.k8s.io''
     then asks [''list'', ''watch''] (ar_group a) (ar_resource a) [] else [a])"

definition manager_requests :: "ext_call \<Rightarrow> api_request list" where
  "manager_requests c = concat (map via_cache (client_requests c))"

text \<open>What is known of the result of a program restricts the calls of the next.\<close>

lemma emits_bind_post:
  assumes "emits P m" and "\<And>w a w'. run_state m w = (a, w') \<Longrightarrow> R a" and "\<And>a. R a \<Longrightarrow> emits P (f a)"
  shows "emits P (State_Monad.bind m f)"
proof -
  have "runs m (\<lambda>a l. R a \<and> list_all P l)"
    using assms(1,2) by (rule runs_post)
  then have "runs (State_Monad.bind m f) (\<lambda>_ l. list_all P l)"
    by (intro wp, elim runs_mono) (auto intro: runs_emits [OF assms(3)])
  then show ?thesis
    by (rule emits_runs)
qed

section \<open>The calls of the operator\<close>

fun operator_call :: "ext_call \<Rightarrow> bool" where
  "operator_call (CGetSite _ _) = True"
| "operator_call (CUpdateSite _) = True"
| "operator_call (CStatusUpdate _) = True"
| "operator_call (CGetSecret _ _) = True"
| "operator_call (CCreateSecret _) = True"
| "operator_call (CUpdateSecret _) = True"
| "operator_call (CPatchOwned _ _) = True"
| "operator_call CNow = True"
| "operator_call (CRand _) = True"
| "operator_call (CEnsureDatabase _ _ _ _) = True"
| "operator_call (CDropDatabase _ _ _) = True"
| "operator_call (CSqlOpen _ _) = True"
| "operator_call CSqlPing = True"
| "operator_call (CSqlExec _ _) = True"
| "operator_call CSqlClose = True"
| "operator_call (CRemoveFile _) = True"
| "operator_call CMapOrder = True"
| "operator_call _ = False"

lemma operator_call_families:
  "secret_call c \<Longrightarrow> operator_call (fst c)" "db_driver_call c \<Longrightarrow> operator_call (fst c)"
  by (cases c rule: secret_call.cases; simp) (cases c rule: db_driver_call.cases; simp)

lemma emits_operator_Reconcile:
  "emits (\<lambda>c. operator_call (fst c)) (Reconcile (operator_reconciler g k q) ns n)"
proof -
  let ?r = "operator_reconciler g k q"
  have db: "r_db ?r = mysql_provisioner q (operator_mysql g)" and ssa: "\<not> r_noServerSideApply ?r"
    by (simp_all add: operator_reconciler_def)
  have each: "emits (\<lambda>c. operator_call (fst c)) (apply_each ?r s bs)" for s bs
    by (induction bs) (auto simp: apply_obj_def ssa intro!: emits_intros)
  show ?thesis
    unfolding Reconcile_def reconcileDelete_def reconcileBody_def reconcileSuspended_def reconcileActive_def
      reconcileWorkload_def
    by (intro emits_intros emits_phase each emits_mono [OF emits_ensureSecret] mysql_rec.emits_ensure_call [OF db]
        mysql_rec.emits_drop_call [OF db]) (simp_all add: operator_call_families)
qed

lemmas rule_simps = permits_def rule_permits_def operator_role_def apiserver_role_def apiserver_2fa_role_def
  marker_rules_def all_verbs_def asks_def of_kind_def

lemma operator_call_permitted:
  "operator_call c \<Longrightarrow> list_all (permits operator_role) (manager_requests c)"
  by (cases c rule: operator_call.cases)
    (auto simp: manager_requests_def via_cache_def rule_simps elim!: owned_kind.elims split: owned.splits)

text \<open>
  C15. The operator needs no right it does not have: every request behind a call of its start (leader
  election, the caches of the watched kinds) and of a reconcile, whatever the answers, is permitted by
  the role of deploy/02-rbac.yaml.
\<close>

theorem operator_is_permitted:
  "list_all (\<lambda>c. list_all (permits operator_role) (manager_requests (fst c))) (emitted (operator_main g b) w) \<and>
   list_all (\<lambda>c. list_all (permits operator_role) (manager_requests (fst c)))
     (emitted (Reconcile (operator_reconciler g k q) ns n) w)"
proof -
  have "emits (\<lambda>c. list_all (permits operator_role) (manager_requests (fst c))) (operator_main g b)"
    unfolding operator_main_def SetupWithManager_def Let_def
    by (intro emits_intros) (simp_all add: manager_requests_def via_cache_def rule_simps)
  moreover have "emits (\<lambda>c. list_all (permits operator_role) (manager_requests (fst c)))
      (Reconcile (operator_reconciler g k q) ns n)"
    using emits_operator_Reconcile by (rule emits_mono) (rule operator_call_permitted)
  ultimately show ?thesis
    by (blast dest: emitsD)
qed

section \<open>The markers\<close>

text \<open>A cluster that refuses an apply for which a right is missing.\<close>

definition enforces :: "policy_rule list \<Rightarrow> 'e kube \<Rightarrow> bool" where
  "enforces ps k \<longleftrightarrow> (\<forall>g b e. \<not> list_all (permits ps) (manager_requests (CPatchOwned g b)) \<longrightarrow>
     (\<exists>err e'. k_patchOwned k g b e = (Inl err, e')))"

lemma markers_refuse: "\<not> list_all (permits marker_rules) (manager_requests (CPatchOwned g (OwnedConfigMap c)))"
  by (simp add: manager_requests_def via_cache_def rule_simps)

lemma with_meta_config_map: "\<exists>c'. with_meta m (OwnedConfigMap c) = OwnedConfigMap c'"
  by simp

lemma workload_refused:
  assumes "enforces marker_rules k"
  shows "\<exists>e w'. run_state (reconcileWorkload (operator_reconciler g k q) s) w = (Inl e, w')"
proof -
  let ?r = "operator_reconciler g k q"
  have r: "\<not> r_noServerSideApply ?r" "r_kube ?r = k"
    by (simp_all add: operator_reconciler_def)
  have "\<exists>e w'. run_state (apply_obj ?r s (OwnedConfigMap (DesiredPHPConfigMap s))) w = (Inl e, w')"
  proof (cases "k_setControllerRef k s (owned_meta (OwnedConfigMap (DesiredPHPConfigMap s)))")
    case (Inr m)
    let ?b = "with_meta m (OwnedConfigMap (DesiredPHPConfigMap s))"
    show ?thesis
    proof (cases "k_gvk k ?b")
      case (Inr gvk)
      obtain c' where b: "?b = OwnedConfigMap c'"
        by simp
      obtain err e' where "k_patchOwned k gvk ?b (env w) = (Inl err, e')"
        using assms markers_refuse unfolding enforces_def b by blast
      then show ?thesis
        using \<open>k_setControllerRef k s _ = Inr m\<close> Inr r by (simp add: apply_obj_def run_simps)
    qed (use Inr r in \<open>simp add: apply_obj_def\<close>)
  qed (use r in \<open>simp add: apply_obj_def\<close>)
  then show ?thesis
    by (auto simp: reconcileWorkload_def desired_objects_def)
qed

definition not_ready :: "traced \<Rightarrow> bool" where
  "not_ready c \<longleftrightarrow> \<not> phase_update PhaseReady c"

lemma emits_not_ready_phase: "p \<noteq> PhaseReady \<Longrightarrow> emits not_ready (setPhase r s p msg)"
  unfolding setPhase_def by (intro emits_intros) (auto simp: not_ready_def phase_status_def)

lemma emits_not_ready_fail: "emits not_ready (fail r s stage e)"
  unfolding fail_def by (intro emits_intros emits_not_ready_phase) (simp add: PhaseError_def PhaseReady_def)

text \<open>
  The markers are not the role: they name no ConfigMaps. On a cluster that grants the operator the
  rules of the markers and no others, no site is ever reported \<open>Ready\<close>; the role of
  deploy/02-rbac.yaml was extended by hand.
\<close>

theorem markers_lack_config_maps:
  assumes "enforces marker_rules k"
  shows "list_all not_ready (emitted (Reconcile (operator_reconciler g k q) ns n) w)"
proof -
  let ?r = "operator_reconciler g k q"
  have db: "r_db ?r = mysql_provisioner q (operator_mysql g)"
    by (simp add: operator_reconciler_def)
  have each: "emits not_ready (apply_each ?r s bs)" for s bs
    by (induction bs) (auto simp: apply_obj_def not_ready_def intro!: emits_intros)
  have workload: "emits not_ready (do { x \<leftarrow> reconcileWorkload ?r s; case x of Inl e \<Rightarrow> f e | Inr u \<Rightarrow> h u })"
    if "\<And>e. emits not_ready (f e)" for s and f :: "go_error \<Rightarrow> ('a, reconcile_out) prog" and h
  proof (rule emits_bind_post [where R = "\<lambda>x. \<exists>e. x = Inl e"])
    show "\<exists>e. x = Inl e" if "run_state (reconcileWorkload ?r s) w = (x, w')" for w x w'
      using that workload_refused [OF assms, of g q s w] by auto
  qed (use that each in \<open>auto simp: reconcileWorkload_def\<close>)
  have "emits not_ready (Reconcile ?r ns n)"
    unfolding Reconcile_def reconcileDelete_def reconcileBody_def reconcileSuspended_def reconcileActive_def
    by (intro workload emits_intros emits_not_ready_fail emits_not_ready_phase emits_mono [OF emits_ensureSecret]
        mysql_rec.emits_ensure_call [OF db] mysql_rec.emits_drop_call [OF db])
      (simp_all add: secret_call_plain driver_call_plain not_ready_def PhaseProvisioning_def PhaseReady_def)
  then show ?thesis
    by (blast dest: emitsD)
qed

definition strict_kube :: "mem kube" where
  "strict_kube = mem_kube\<lparr>k_patchOwned := (\<lambda>g b e. (Inl (GoErr ''forbidden''), e))\<rparr>"

theorem markers_lack_config_maps_witness:
  "list_all not_ready (emitted (Reconcile (operator_reconciler (\<lambda>_. []) strict_kube mem_drv)
     (site_ns sample_site) (site_name sample_site)) mem_empty)"
  by (rule markers_lack_config_maps) (simp add: enforces_def strict_kube_def)

section \<open>The calls of the API server\<close>

fun api_call :: "string \<Rightarrow> ext_call \<Rightarrow> bool" where
  "api_call tns (CGetSite _ _) = True"
| "api_call tns (CListSites _) = True"
| "api_call tns (CCreateSite _) = True"
| "api_call tns (CUpdateSite _) = True"
| "api_call tns (CDeleteSite _) = True"
| "api_call tns (CGetSecret ns _) = (ns = tns)"
| "api_call tns (CCreateSecret x) = (m_namespace (sec_meta x) = tns \<and> m_owners (sec_meta x) = [])"
| "api_call tns (CUpdateSecret x) = (m_namespace (sec_meta x) = tns)"
| "api_call tns (CListPods _ _) = True"
| "api_call tns (CListEvents _) = True"
| "api_call tns CListNodes = True"
| "api_call tns CListNodeUsage = True"
| "api_call tns (CListPodUsage _) = True"
| "api_call tns CNow = True"
| "api_call tns (CTotpGenerate _ _) = True"
| "api_call tns (CTotpValidate _ _) = True"
| "api_call tns (CSignToken _) = True"
| "api_call tns _ = False"

text \<open>\<open>Get\<close> answers an object of the namespace it was asked for.\<close>

definition answers_named :: "'e kube \<Rightarrow> bool" where
  "answers_named k \<longleftrightarrow>
     (\<forall>ns n e x e'. k_getSecret k ns n e = (Inr x, e') \<longrightarrow> m_namespace (sec_meta x) = ns)"

definition found_named :: "string \<Rightarrow> secret option result \<Rightarrow> bool" where
  "found_named tns l \<longleftrightarrow> (\<forall>x. l = Inr (Some x) \<longrightarrow> m_namespace (sec_meta x) = tns)"

lemma load_named:
  "answers_named (kt_kube t) \<Longrightarrow> run_state (load t) w = (l, w') \<Longrightarrow> found_named (kt_namespace t) l"
  unfolding answers_named_def
  by (auto simp: load_def run_simps found_named_def split: prod.splits sum.splits if_splits) metis

definition api_traced :: "string \<Rightarrow> traced \<Rightarrow> bool" where
  "api_traced tns c \<longleftrightarrow> api_call tns (fst c)"

lemma emits_save_named:
  "found_named (kt_namespace t) (Inr x) \<Longrightarrow> emits (api_traced (kt_namespace t)) (save t x d)"
  unfolding save_def
  by (intro emits_intros) (auto simp: api_traced_def found_named_def new_meta_def)

lemma emits_2fa:
  assumes "answers_named (kt_kube t)"
  shows "emits (api_traced (kt_namespace t)) (Enabled t)"
    and "emits (api_traced (kt_namespace t)) (Validate t code)"
    and "emits (api_traced (kt_namespace t)) (Setup t)"
    and "emits (api_traced (kt_namespace t)) (Enable t code)"
    and "emits (api_traced (kt_namespace t)) (Disable t code)"
proof -
  have load: "emits (api_traced (kt_namespace t)) (do { l \<leftarrow> load t; f l })"
    if "\<And>l. found_named (kt_namespace t) l \<Longrightarrow> emits (api_traced (kt_namespace t)) (f l)" for f :: "_ \<Rightarrow> ('a, 'c) prog"
    using load_named [OF assms] by (intro emits_bind_post [OF _ _ that] emits_intros) (simp_all add: api_traced_def)
  show "emits (api_traced (kt_namespace t)) (Enabled t)" "emits (api_traced (kt_namespace t)) (Validate t code)"
    "emits (api_traced (kt_namespace t)) (Setup t)" "emits (api_traced (kt_namespace t)) (Enable t code)"
    "emits (api_traced (kt_namespace t)) (Disable t code)"
    by (unfold Enabled_def Validate_def Setup_def Enable_def Disable_def;
        intro load emits_intros emits_save_named; simp add: api_traced_def)+
qed

text \<open>Every endpoint of a server in production.\<close>

definition in_production :: "'e server \<Rightarrow> 'e kube_two_fa \<Rightarrow> bool" where
  "in_production sv t \<longleftrightarrow> sv_twoFA sv = Some (kube_two_factor t) \<and> sv_reconcile sv = None \<and>
     (\<exists>k order ns. sv_metrics sv = Some (kube_provider k order ns)) \<and> answers_named (kt_kube t)"

lemma emits_site_pages:
  assumes "sv_reconcile sv = None"
  shows "emits (api_traced tns) (createSite sv n rq)" "emits (api_traced tns) (updateSite sv n rq)"
    "emits (api_traced tns) (deleteSite sv n rq)" "emits (api_traced tns) (updateSiteYAML sv n rq)"
    "emits (api_traced tns) (setSuspend sv b n rq)" "emits (api_traced tns) (listSitesH sv n rq)"
    "emits (api_traced tns) (previewYAML sv n rq)" "emits (api_traced tns) (getSiteH sv n rq)"
    "emits (api_traced tns) (getSiteStatus sv n rq)" "emits (api_traced tns) (getSiteYAML sv n rq)"
proof -
  have m: "emits (api_traced tns) (maybeReconcile sv n)" "emits (api_traced tns) (reread sv s)" for n s
    by (simp_all add: maybeReconcile_def reread_def assms emits_return)
  have st: "emits (api_traced tns) (store_site sv s)" for s
    unfolding store_site_def by (intro emits_intros m) (simp add: api_traced_def)
  show "emits (api_traced tns) (createSite sv n rq)" "emits (api_traced tns) (updateSite sv n rq)"
    "emits (api_traced tns) (deleteSite sv n rq)" "emits (api_traced tns) (updateSiteYAML sv n rq)"
    "emits (api_traced tns) (setSuspend sv b n rq)" "emits (api_traced tns) (listSitesH sv n rq)"
    "emits (api_traced tns) (previewYAML sv n rq)" "emits (api_traced tns) (getSiteH sv n rq)"
    "emits (api_traced tns) (getSiteStatus sv n rq)" "emits (api_traced tns) (getSiteYAML sv n rq)"
    by (unfold createSite_def updateSite_def deleteSite_def updateSiteYAML_def setSuspend_def listSitesH_def
          previewYAML_def getSiteH_def getSiteStatus_def getSiteYAML_def Let_def;
        intro emits_intros emits_with_site st m; simp add: api_traced_def)+
qed

lemma emits_session_pages:
  assumes "in_production sv t"
  shows "emits (api_traced (kt_namespace t)) (login sv rq)" "emits (api_traced (kt_namespace t)) (getMetrics sv)"
    "emits (api_traced (kt_namespace t)) (twoFAStatus sv)" "emits (api_traced (kt_namespace t)) (twoFASetup sv)"
    "emits (api_traced (kt_namespace t)) (twoFAEnable sv rq)" "emits (api_traced (kt_namespace t)) (twoFADisable sv rq)"
proof -
  have tf: "sv_twoFA sv = Some (kube_two_factor t)" and tn: "answers_named (kt_kube t)"
    using assms by (simp_all add: in_production_def)
  obtain k order ns where m: "sv_metrics sv = Some (kube_provider k order ns)"
    using assms by (auto simp: in_production_def)
  have issue: "emits (api_traced tns) (issue_token sv user)" for user tns
    unfolding issue_token_def Issue_def by (intro emits_intros) (simp_all add: api_traced_def)
  show "emits (api_traced (kt_namespace t)) (login sv rq)"
    unfolding login_def tf option.case kube_two_factor_def two_fa.simps
    by (intro emits_intros issue emits_2fa [OF tn])
  show "emits (api_traced (kt_namespace t)) (getMetrics sv)"
    unfolding getMetrics_def m option.case kube_provider_def provider.simps KubeCluster_def KubeSites_def
    by (intro emits_intros) (simp_all add: api_traced_def)
  show "emits (api_traced (kt_namespace t)) (twoFAStatus sv)" "emits (api_traced (kt_namespace t)) (twoFASetup sv)"
    "emits (api_traced (kt_namespace t)) (twoFAEnable sv rq)" "emits (api_traced (kt_namespace t)) (twoFADisable sv rq)"
    by (unfold twoFAStatus_def twoFASetup_def twoFAEnable_def twoFADisable_def twoFAMutate_def tf option.case
          kube_two_factor_def two_fa.simps; intro emits_intros emits_2fa [OF tn])+
qed

lemma emits_production:
  assumes "in_production sv t"
  shows "emits (api_traced (kt_namespace t)) (run_endpoint sv ep user n rq)"
proof -
  have "sv_reconcile sv = None"
    using assms by (simp add: in_production_def)
  note pages = emits_site_pages [OF this] emits_session_pages [OF assms]
  show ?thesis
    by (cases ep) (simp_all add: pages emits_return)
qed

lemma api_server_in_production:
  "\<not> dev_mode g \<Longrightarrow> answers_named k \<Longrightarrow> in_production (api_server g k q pk cx order p auth) (admin_2fa g k pk)"
  by (auto simp: in_production_def api_server_def admin_2fa_def)

lemma api_call_permitted: "api_call ''wordpress-system'' c \<Longrightarrow> list_all apiserver_permits (client_requests c)"
  by (cases "(''wordpress-system'', c)" rule: api_call.cases) (auto simp: apiserver_permits_def rule_simps)

text \<open>
  C16. The API server needs no right it does not have: in production and with the 2FA Secret in the
  namespace of its role, every request of every endpoint is permitted by deploy/02-rbac.yaml, the
  access to Secrets only by the role of that one namespace.
\<close>

theorem api_server_is_permitted:
  assumes "\<not> dev_mode g" and "env_or g ''TWOFA_NAMESPACE'' ''wordpress-system'' = ''wordpress-system''"
    and "answers_named k"
  shows "list_all (\<lambda>c. list_all apiserver_permits (client_requests (fst c)))
    (emitted (run_endpoint (api_server g k q pk cx order p auth) ep user n rq) w)"
proof -
  have "emits (api_traced ''wordpress-system'') (run_endpoint (api_server g k q pk cx order p auth) ep user n rq)"
    using emits_production [OF api_server_in_production [OF assms(1,3)]] assms(2) by (simp add: admin_2fa_def)
  then have "list_all (api_traced ''wordpress-system'')
      (emitted (run_endpoint (api_server g k q pk cx order p auth) ep user n rq) w)"
    by (blast dest: emitsD)
  then show ?thesis
    by (rule list_all_imp) (simp add: api_traced_def api_call_permitted)
qed

definition named_kube :: "mem kube" where
  "named_kube = mem_kube\<lparr>k_getSecret := (\<lambda>ns n e.
     (case mem_get (mm_secrets e) (ns, n) of
        Inl err \<Rightarrow> Inl err
      | Inr x \<Rightarrow> Inr (x\<lparr>sec_meta := (sec_meta x)\<lparr>m_namespace := ns\<rparr>\<rparr>), e))\<rparr>"

text \<open>A server in production, every variable of its environment unset.\<close>

definition quiet_server :: "mem server" where
  "quiet_server = api_server (\<lambda>_. []) named_kube mem_drv (kt_otp mem_totp) mem_codec (\<lambda>us. us)
     \<lparr>lite_dir = []\<rparr> mem_auth"

theorem api_server_is_permitted_witness:
  "list_all (\<lambda>c. list_all apiserver_permits (client_requests (fst c)))
    (emitted (run_endpoint quiet_server ETwoFASetup ''admin'' [] login_request) mem_empty)"
  unfolding quiet_server_def by (rule api_server_is_permitted)
    (auto simp: dev_mode_def env_or_def answers_named_def named_kube_def split: sum.splits)

section \<open>The schemes\<close>

text \<open>
  A scheme is the set of kinds a client can encode, each with its apiVersion. \<open>builtin\<close> stands for what
  client-go's own \<open>AddToScheme\<close> registers, \<open>measured\<close> for that of the metrics package.
\<close>

type_synonym scheme = "(string \<times> string) set"

definition SchemeBuilder :: "(string \<times> string) list" where
  "SchemeBuilder = [(apiVersion, ''WordPressSite''), (apiVersion, ''WordPressSiteList'')]"

definition AddToScheme :: "scheme \<Rightarrow> scheme" where
  "AddToScheme sc = sc \<union> set SchemeBuilder"

definition operator_scheme :: "scheme \<Rightarrow> scheme" where
  "operator_scheme builtin = AddToScheme ({} \<union> builtin)"

definition apiserver_scheme :: "scheme \<Rightarrow> scheme \<Rightarrow> scheme" where
  "apiserver_scheme builtin measured = AddToScheme ({} \<union> builtin) \<union> measured"

definition owned_gvk :: "owned \<Rightarrow> string \<times> string" where
  "owned_gvk b = ((case b of OwnedDeployment _ \<Rightarrow> ''apps/v1'' | OwnedIngress _ \<Rightarrow> ''networking.k8s.io/v1''
     | OwnedConfigMap _ \<Rightarrow> ''v1'' | OwnedService _ \<Rightarrow> ''v1''), owned_kind b)"

text \<open>The kind of the object a call hands to the client.\<close>

fun call_kind :: "ext_call \<Rightarrow> (string \<times> string) option" where
  "call_kind (CGetSite _ _) = Some (apiVersion, ''WordPressSite'')"
| "call_kind (CListSites _) = Some (apiVersion, ''WordPressSiteList'')"
| "call_kind (CCreateSite _) = Some (apiVersion, ''WordPressSite'')"
| "call_kind (CUpdateSite _) = Some (apiVersion, ''WordPressSite'')"
| "call_kind (CDeleteSite _) = Some (apiVersion, ''WordPressSite'')"
| "call_kind (CStatusUpdate _) = Some (apiVersion, ''WordPressSite'')"
| "call_kind (CGetSecret _ _) = Some (''v1'', ''Secret'')"
| "call_kind (CCreateSecret _) = Some (''v1'', ''Secret'')"
| "call_kind (CUpdateSecret _) = Some (''v1'', ''Secret'')"
| "call_kind (CGetOwned b) = Some (owned_gvk b)"
| "call_kind (CCreateOwned b) = Some (owned_gvk b)"
| "call_kind (CUpdateOwned b) = Some (owned_gvk b)"
| "call_kind (CPatchOwned _ b) = Some (owned_gvk b)"
| "call_kind (CListPods _ _) = Some (''v1'', ''PodList'')"
| "call_kind (CListEvents _) = Some (''v1'', ''EventList'')"
| "call_kind CListNodes = Some (''v1'', ''NodeList'')"
| "call_kind CListNodeUsage = Some (''metrics.k8s.io/v1beta1'', ''NodeMetricsList'')"
| "call_kind (CListPodUsage _) = Some (''metrics.k8s.io/v1beta1'', ''PodMetricsList'')"
| "call_kind _ = None"

definition registered :: "scheme \<Rightarrow> traced \<Rightarrow> bool" where
  "registered sc c \<longleftrightarrow> (case call_kind (fst c) of None \<Rightarrow> True | Some k \<Rightarrow> k \<in> sc)"

definition core_kinds :: scheme where
  "core_kinds = {(''v1'', ''Secret''), (''v1'', ''ConfigMap''), (''v1'', ''Service''), (''apps/v1'', ''Deployment''),
     (''networking.k8s.io/v1'', ''Ingress''), (''v1'', ''PodList''), (''v1'', ''EventList''), (''v1'', ''NodeList'')}"

definition usage_kinds :: scheme where
  "usage_kinds = {(''metrics.k8s.io/v1beta1'', ''NodeMetricsList''), (''metrics.k8s.io/v1beta1'', ''PodMetricsList'')}"

lemma operator_call_registered: "core_kinds \<subseteq> builtin \<Longrightarrow> operator_call c \<Longrightarrow> registered (operator_scheme builtin) (c, r)"
  by (cases c rule: operator_call.cases)
    (auto simp: registered_def operator_scheme_def AddToScheme_def SchemeBuilder_def core_kinds_def owned_gvk_def
      split: owned.splits)

lemma api_call_registered:
  "core_kinds \<subseteq> builtin \<Longrightarrow> usage_kinds \<subseteq> measured \<Longrightarrow> api_call tns c \<Longrightarrow>
     registered (apiserver_scheme builtin measured) (c, r)"
  by (cases "(tns, c)" rule: api_call.cases)
    (auto simp: registered_def apiserver_scheme_def AddToScheme_def SchemeBuilder_def core_kinds_def usage_kinds_def)

text \<open>
  No client is handed an object of a kind its scheme does not know (it would refuse the call before
  sending it): what a reconcile of the operator and an endpoint of the API server in production read and
  write is registered by the program that runs them, the resource figures only by the API server.
\<close>

theorem kinds_are_registered:
  assumes "core_kinds \<subseteq> builtin" and "usage_kinds \<subseteq> measured" and "\<not> dev_mode g'" and "answers_named k'"
  shows "list_all (registered (operator_scheme builtin)) (emitted (Reconcile (operator_reconciler g k q) ns n) w) \<and>
    list_all (registered (apiserver_scheme builtin measured))
      (emitted (run_endpoint (api_server g' k' q' pk cx order p auth) ep user n' rq) w')"
proof
  have "emits (registered (operator_scheme builtin)) (Reconcile (operator_reconciler g k q) ns n)"
    using emits_operator_Reconcile
    by (rule emits_mono) (metis operator_call_registered [OF assms(1)] prod.collapse)
  then show "list_all (registered (operator_scheme builtin))
      (emitted (Reconcile (operator_reconciler g k q) ns n) w)"
    by (blast dest: emitsD)
  have "emits (registered (apiserver_scheme builtin measured))
      (run_endpoint (api_server g' k' q' pk cx order p auth) ep user n' rq)"
    using emits_production [OF api_server_in_production [OF assms(3,4)]]
    by (rule emits_mono) (metis api_call_registered [OF assms(1,2)] api_traced_def prod.collapse)
  then show "list_all (registered (apiserver_scheme builtin measured))
      (emitted (run_endpoint (api_server g' k' q' pk cx order p auth) ep user n' rq) w')"
    by (blast dest: emitsD)
qed

theorem kinds_are_registered_witness:
  "list_all (registered (operator_scheme core_kinds))
     (emitted (Reconcile (operator_reconciler (\<lambda>_. []) mem_kube mem_drv)
       (site_ns sample_site) (site_name sample_site)) mem_empty) \<and>
   list_all (registered (apiserver_scheme core_kinds usage_kinds))
     (emitted (run_endpoint quiet_server EMetrics ''admin'' [] login_request) mem_empty)"
  unfolding quiet_server_def by (rule kinds_are_registered)
    (auto simp: dev_mode_def env_or_def answers_named_def named_kube_def split: sum.splits)

end
