(* ===== verification/Convergence.thy ===== *)
theory Convergence
imports Sharing
begin

text \<open>
  The controller and its work queue as one system: controller-runtime calls \<open>Reconcile\<close> again while it
  answers an error or a delay. On a cluster nobody else writes to, with a MySQL server that comes up
  after some time, the loop ends, and it ends with the site ready.
\<close>

section \<open>The queue\<close>

text \<open>
  Reconciles of one request until one asks for no other, at most \<open>fuel\<close> of them: what they answered, or
  \<open>None\<close> when the last of them still asked for another.
\<close>

fun until_settled :: "nat \<Rightarrow> 'e reconciler \<Rightarrow> string \<Rightarrow> string \<Rightarrow> ('e, reconcile_out list option) prog" where
  "until_settled 0 r ns n = ret None"
| "until_settled (Suc fuel) r ns n = do {
     out \<leftarrow> Reconcile r ns n;
     if ro_err out = None \<and> ro_requeueAfter out = 0 then ret (Some [out])
     else do { rounds \<leftarrow> until_settled fuel r ns n; ret (map_option (Cons out) rounds) }
   }"

text \<open>The answers of \<open>d\<close> rounds that ask to be called again after 15 seconds, and of a last one that does not.\<close>

definition waits_then_done :: "nat \<Rightarrow> reconcile_out list" where
  "waits_then_done d = replicate d (retry_after 15) @ [done_with None]"

section \<open>A cluster of one's own\<close>

type_synonym sites = "string \<times> string \<Rightarrow> site option"

abbreviation version_of :: "site \<Rightarrow> string" where
  "version_of s \<equiv> m_resourceVersion (site_meta s)"

definition bumped :: "string \<Rightarrow> site \<Rightarrow> site" where
  "bumped rv s = s\<lparr>site_meta := (site_meta s)\<lparr>m_resourceVersion := rv\<rparr>\<rparr>"

definition edited :: "string \<Rightarrow> i64 \<Rightarrow> site \<Rightarrow> site" where
  "edited rv gen s = s\<lparr>site_meta := (site_meta s)\<lparr>m_resourceVersion := rv, m_generation := gen\<rparr>\<rparr>"

text \<open>The defaults of the schema (deploy/01-crd.yaml), which every object written through the API gets.\<close>

definition defaulted :: "site_spec \<Rightarrow> site_spec" where
  "defaulted sp = sp\<lparr>
     sp_replicas := (if sp_replicas sp = None then Some 1 else sp_replicas sp),
     sp_tablePrefix := (if sp_tablePrefix sp = [] then ''wp_'' else sp_tablePrefix sp),
     sp_database := (sp_database sp)\<lparr>db_host :=
       (if db_host (sp_database sp) = [] then ''%'' else db_host (sp_database sp))\<rparr>\<rparr>"

lemma defaulted_idem [simp]: "defaulted (defaulted sp) = defaulted sp"
  by (simp add: defaulted_def)

text \<open>
  What the cluster and the MySQL server at hand accept: which owned objects, when they are applied; the
  Secrets of which namespace and name; sites of which namespace, name and spec; databases, users and
  hosts of which names (MySQL refuses users of more than 32 characters, say). \<open>wr_accounts\<close> are the
  accounts there are.
\<close>

record 'e world_rules =
  wr_object :: "owned \<Rightarrow> bool"
  wr_secret :: "string \<times> string \<Rightarrow> bool"
  wr_site :: "string \<times> string \<Rightarrow> site_spec \<Rightarrow> bool"
  wr_names :: "string \<Rightarrow> string \<Rightarrow> string \<Rightarrow> bool"
  wr_accounts :: "'e \<Rightarrow> (string \<times> string) set"

text \<open>
  \<open>vs\<close> and \<open>vx\<close> are the stored sites and Secrets, \<open>down\<close> the number of pings MySQL will still
  refuse. \<open>Update\<close> of the current version with other finalizers alone stores these,
  \<open>Status().Update\<close> of the current version only the status; both answer the stored object, with a new
  version. (Of an \<open>Update\<close> that changes more, \<open>own_edits\<close> speaks below.)
\<close>

definition unchanged :: "('e \<Rightarrow> sites) \<Rightarrow> ('e \<Rightarrow> secrets) \<Rightarrow> ('e \<Rightarrow> nat) \<Rightarrow> 'e \<Rightarrow> 'e \<Rightarrow> bool" where
  "unchanged vs vx down e e' \<longleftrightarrow> vs e' = vs e \<and> vx e' = vx e \<and> down e' = down e"

definition site_stored ::
  "('e \<Rightarrow> sites) \<Rightarrow> ('e \<Rightarrow> secrets) \<Rightarrow> ('e \<Rightarrow> nat) \<Rightarrow> site \<Rightarrow> 'e \<Rightarrow> site result \<times> 'e \<Rightarrow> bool" where
  "site_stored vs vx down s e x \<longleftrightarrow> vx (snd x) = vx e \<and> down (snd x) = down e \<and>
     (\<exists>rv. fst x = Inr (bumped rv s) \<and> vs (snd x) = (vs e)(site_key s \<mapsto> bumped rv s))"

definition secret_stored ::
  "('e \<Rightarrow> sites) \<Rightarrow> ('e \<Rightarrow> secrets) \<Rightarrow> ('e \<Rightarrow> nat) \<Rightarrow> secret \<Rightarrow> 'e \<Rightarrow> secret result \<times> 'e \<Rightarrow> bool" where
  "secret_stored vs vx down s e x \<longleftrightarrow> vs (snd x) = vs e \<and> down (snd x) = down e \<and>
     (\<exists>s'. fst x = Inr s' \<and> sec_data s' = sec_data s \<and> secret_key s' = secret_key s \<and>
        vx (snd x) = (vx e)(secret_key s \<mapsto> s'))"

text \<open>An update that takes the last finalizer off a site that is being deleted removes the site.\<close>

definition finished :: "site \<Rightarrow> site \<Rightarrow> bool" where
  "finished cur s \<longleftrightarrow> m_deletion (site_meta cur) \<noteq> None \<and> m_finalizers (site_meta s) = []"

definition site_removed ::
  "('e \<Rightarrow> sites) \<Rightarrow> ('e \<Rightarrow> secrets) \<Rightarrow> ('e \<Rightarrow> nat) \<Rightarrow> site \<Rightarrow> 'e \<Rightarrow> site result \<times> 'e \<Rightarrow> bool" where
  "site_removed vs vx down s e x \<longleftrightarrow> vx (snd x) = vx e \<and> down (snd x) = down e \<and>
     (\<exists>s'. fst x = Inr s') \<and> vs (snd x) = (vs e)(site_key s := None)"

text \<open>Other finalizers, none of them new when the site is being deleted; nothing else.\<close>

definition other_finalizers :: "site \<Rightarrow> site \<Rightarrow> bool" where
  "other_finalizers cur s \<longleftrightarrow> site_spec s = site_spec cur \<and>
     site_meta s = (site_meta cur)\<lparr>m_finalizers := m_finalizers (site_meta s)\<rparr> \<and>
     (m_deletion (site_meta cur) \<noteq> None \<longrightarrow>
        set (m_finalizers (site_meta s)) \<subseteq> set (m_finalizers (site_meta cur)))"

definition own_sites :: "'e kube \<Rightarrow> ('e \<Rightarrow> sites) \<Rightarrow> ('e \<Rightarrow> secrets) \<Rightarrow> ('e \<Rightarrow> nat) \<Rightarrow> bool" where
  "own_sites k vs vx down \<longleftrightarrow>
     (\<forall>ns n e s. vs e (ns, n) = Some s \<longrightarrow> site_key s = (ns, n) \<longrightarrow>
        fst (k_getSite k ns n e) = Inr s \<and> unchanged vs vx down e (snd (k_getSite k ns n e))) \<and>
     (\<forall>s e cur. vs e (site_key s) = Some cur \<longrightarrow> other_finalizers cur s \<longrightarrow>
        defaulted (site_spec cur) = site_spec cur \<longrightarrow>
        (if finished cur s then site_removed vs vx down s e (k_updateSite k s e)
         else site_stored vs vx down (s\<lparr>site_status := site_status cur\<rparr>) e (k_updateSite k s e))) \<and>
     (\<forall>s e cur. vs e (site_key s) = Some cur \<longrightarrow> site_key cur = site_key s \<longrightarrow>
        version_of cur = version_of s \<longrightarrow>
        site_stored vs vx down (cur\<lparr>site_status := site_status s\<rparr>) e (k_statusUpdate k s e))"

text \<open>
  Secrets: \<open>Create\<close> stores a Secret where none is, \<open>Update\<close> one over the version it was given, if the
  Secret is accepted at all; on a Secret that is there, and on another version, they fail.
\<close>

definition secret_refused ::
  "('e \<Rightarrow> sites) \<Rightarrow> ('e \<Rightarrow> secrets) \<Rightarrow> ('e \<Rightarrow> nat) \<Rightarrow> 'e \<Rightarrow> secret result \<times> 'e \<Rightarrow> bool" where
  "secret_refused vs vx down e x \<longleftrightarrow> (\<exists>err. fst x = Inl err) \<and> unchanged vs vx down e (snd x)"

definition own_secrets ::
  "'e world_rules \<Rightarrow> 'e kube \<Rightarrow> ('e \<Rightarrow> sites) \<Rightarrow> ('e \<Rightarrow> secrets) \<Rightarrow> ('e \<Rightarrow> nat) \<Rightarrow> bool" where
  "own_secrets W k vs vx down \<longleftrightarrow>
     (\<forall>ns n e. unchanged vs vx down e (snd (k_getSecret k ns n e)) \<and>
        (case vx e (ns, n) of
           None \<Rightarrow> \<exists>err. fst (k_getSecret k ns n e) = Inl err \<and> is_not_found err
         | Some x \<Rightarrow> fst (k_getSecret k ns n e) = Inr x)) \<and>
     (\<forall>s e. if vx e (secret_key s) \<noteq> None then secret_refused vs vx down e (k_createSecret k s e)
        else wr_secret W (secret_key s) \<and> m_resourceVersion (sec_meta s) = [] \<longrightarrow>
          secret_stored vs vx down s e (k_createSecret k s e)) \<and>
     (\<forall>s e. case vx e (secret_key s) of
        None \<Rightarrow> secret_refused vs vx down e (k_updateSecret k s e)
      | Some x \<Rightarrow>
          if m_resourceVersion (sec_meta s) \<noteq> m_resourceVersion (sec_meta x)
          then m_resourceVersion (sec_meta s) = [] \<or> secret_refused vs vx down e (k_updateSecret k s e)
          else wr_secret W (secret_key s) \<longrightarrow> secret_stored vs vx down s e (k_updateSecret k s e))"

text \<open>
  The rest: a patch with an accepted object that carries its controller reference succeeds; an object
  without owners in the namespace of the site gets one; the kinds of the four objects are in the scheme.
  None of it changes sites, Secrets or MySQL.
\<close>

definition own_rest :: "'e world_rules \<Rightarrow> 'e kube \<Rightarrow> ('e \<Rightarrow> 'e \<Rightarrow> bool) \<Rightarrow> bool" where
  "own_rest W k R \<longleftrightarrow>
     (\<forall>s b m g e. wr_object W b \<longrightarrow> k_setControllerRef k s (owned_meta b) = Inr m \<longrightarrow>
        k_gvk k (with_meta m b) = Inr g \<longrightarrow>
        fst (k_patchOwned k g (with_meta m b) e) = Inr () \<and> R e (snd (k_patchOwned k g (with_meta m b) e))) \<and>
     (\<forall>e. R e (snd (k_now k e))) \<and> (\<forall>n e. R e (snd (k_rand k n e))) \<and>
     (\<forall>b. \<exists>g. k_gvk k b = Inr g) \<and>
     (\<forall>s m. m_namespace m = site_ns s \<longrightarrow> m_owners m = [] \<longrightarrow> (\<exists>m'. k_setControllerRef k s m = Inr m'))"

text \<open>
  MySQL, a server without password policy that knows the administrator of the configuration: it can be
  opened, refuses \<open>down e\<close> pings, and after that answers them; for names it accepts it carries out the
  statements of the provisioner, \<open>ALTER USER\<close> and \<open>GRANT\<close> only for an account that is there, which it
  is after \<open>CREATE USER IF NOT EXISTS\<close>.
\<close>

definition mysql_answers ::
  "'e world_rules \<Rightarrow> 'e sqldrv \<Rightarrow> ('e \<Rightarrow> 'e \<Rightarrow> bool) \<Rightarrow> string \<Rightarrow> string \<Rightarrow> string \<Rightarrow> bool" where
  "mysql_answers W q R name user host \<longleftrightarrow>
     (\<forall>e. case q_exec q (''CREATE DATABASE IF NOT EXISTS `'' @ name @
          ''` CHARACTER SET utf8mb4 COLLATE utf8mb4_unicode_ci'') [] e of (x, e') \<Rightarrow> x = Inr () \<and> R e e') \<and>
     (\<forall>pw e. case q_exec q (create_user_stmt user host pw) [] e of (x, e') \<Rightarrow>
          x = Inr () \<and> R e e' \<and> (user, host) \<in> wr_accounts W e') \<and>
     (\<forall>pw e. (user, host) \<in> wr_accounts W e \<longrightarrow> (case q_exec q (alter_user_stmt user host pw) [] e of (x, e') \<Rightarrow>
          x = Inr () \<and> R e e' \<and> (user, host) \<in> wr_accounts W e')) \<and>
     (\<forall>e. (user, host) \<in> wr_accounts W e \<longrightarrow> (case q_exec q (grant_stmt name user host) [] e of (x, e') \<Rightarrow>
          x = Inr () \<and> R e e')) \<and>
     (\<forall>e. case q_exec q ''FLUSH PRIVILEGES'' [] e of (x, e') \<Rightarrow> x = Inr () \<and> R e e') \<and>
     list_all (\<lambda>st. \<forall>e. case q_exec q st [] e of (x, e') \<Rightarrow> x = Inr () \<and> R e e') (drop_stmts name user host)"

definition mysql_comes_up ::
  "'e world_rules \<Rightarrow> 'e sqldrv \<Rightarrow> mysql_config \<Rightarrow> ('e \<Rightarrow> sites) \<Rightarrow> ('e \<Rightarrow> secrets) \<Rightarrow> ('e \<Rightarrow> nat) \<Rightarrow> bool" where
  "mysql_comes_up W q cfg vs vx down \<longleftrightarrow>
     (\<forall>e. fst (q_open q ''mysql'' (DSN cfg) e) = Inr () \<and>
        unchanged vs vx down e (snd (q_open q ''mysql'' (DSN cfg) e))) \<and>
     (\<forall>name user host. wr_names W name user host \<longrightarrow>
        mysql_answers W q (unchanged vs vx down) name user host) \<and>
     (\<forall>e. unchanged vs vx down e (snd (q_close q e))) \<and>
     (\<forall>e. vs (snd (q_ping q e)) = vs e \<and> vx (snd (q_ping q e)) = vx e \<and>
        (if down e = 0 then fst (q_ping q e) = Inr () \<and> down (snd (q_ping q e)) = 0
         else (\<exists>err. fst (q_ping q e) = Inl err) \<and> down (snd (q_ping q e)) = down e - 1))"

definition own_cluster ::
  "'e world_rules \<Rightarrow> 'e kube \<Rightarrow> 'e sqldrv \<Rightarrow> mysql_config \<Rightarrow> ('e \<Rightarrow> sites) \<Rightarrow> ('e \<Rightarrow> secrets) \<Rightarrow>
     ('e \<Rightarrow> nat) \<Rightarrow> bool" where
  "own_cluster W k q cfg vs vx down \<longleftrightarrow> own_sites k vs vx down \<and> own_secrets W k vs vx down \<and>
     own_rest W k (unchanged vs vx down) \<and> mysql_comes_up W q cfg vs vx down \<and> owner_only k \<and> finalizer_laws k"

section \<open>The state between two calls\<close>

text \<open>The site is stored, its Secret may be, and MySQL refuses \<open>d\<close> more pings.\<close>

definition standing ::
  "('e \<Rightarrow> sites) \<Rightarrow> ('e \<Rightarrow> secrets) \<Rightarrow> ('e \<Rightarrow> nat) \<Rightarrow> site \<Rightarrow> secret option \<Rightarrow> nat \<Rightarrow> 'e state_of \<Rightarrow> bool" where
  "standing vs vx down s x d w \<longleftrightarrow> vs (env w) (site_key s) = Some s \<and>
     vx (env w) (site_ns s, SecretName s) = x \<and> down (env w) = d"

lemma standing_unchanged:
  "standing vs vx down s x d w \<Longrightarrow> unchanged vs vx down (env w) e \<Longrightarrow>
   standing vs vx down s x d (w\<lparr>env := e, trace := l\<rparr>)"
  by (simp add: standing_def unchanged_def)

lemma standing_call:
  assumes "\<And>e. fst (f e) = r \<and> unchanged vs vx down e (snd (f e))"
  shows "holds (standing vs vx down s x d) (call c f) (\<lambda>a w. a = r \<and> standing vs vx down s x d w)"
  by (rule holds_call) (metis assms fst_conv snd_conv standing_unchanged)

lemma standing_query:
  assumes "\<And>e. unchanged vs vx down e (snd (f e))"
  shows "holds (standing vs vx down s x d) (query c f) (\<lambda>_. standing vs vx down s x d)"
  by (rule holds_query) (metis assms snd_conv standing_unchanged)

section \<open>The calls\<close>

lemma bumped_simps [simp]:
  "site_ns (bumped rv s) = site_ns s" "site_name (bumped rv s) = site_name s" "site_spec (bumped rv s) = site_spec s"
  "site_status (bumped rv s) = site_status s" "SecretName (bumped rv s) = SecretName s"
  "m_generation (site_meta (bumped rv s)) = m_generation (site_meta s)"
  "m_deletion (site_meta (bumped rv s)) = m_deletion (site_meta s)"
  "m_finalizers (site_meta (bumped rv s)) = m_finalizers (site_meta s)"
  by (simp_all add: bumped_def SecretName_def)

lemma SecretName_status [simp]: "SecretName (s\<lparr>site_status := st\<rparr>) = SecretName s"
  by (simp add: SecretName_def)

text \<open>A reconciler of the operator on such a cluster.\<close>

definition operates ::
  "'e world_rules \<Rightarrow> 'e reconciler \<Rightarrow> 'e sqldrv \<Rightarrow> mysql_config \<Rightarrow> ('e \<Rightarrow> sites) \<Rightarrow> ('e \<Rightarrow> secrets) \<Rightarrow>
     ('e \<Rightarrow> nat) \<Rightarrow> bool" where
  "operates W r q cfg vs vx down \<longleftrightarrow> own_cluster W (r_kube r) q cfg vs vx down \<and>
     \<not> r_noServerSideApply r \<and> r_db r = mysql_provisioner q cfg"

lemma operatesD:
  assumes "operates W r q cfg vs vx down"
  shows "own_sites (r_kube r) vs vx down" "own_secrets W (r_kube r) vs vx down"
    "own_rest W (r_kube r) (unchanged vs vx down)" "mysql_comes_up W q cfg vs vx down"
    "owner_only (r_kube r)" "finalizer_laws (r_kube r)" "\<not> r_noServerSideApply r"
    "r_db r = mysql_provisioner q cfg"
  using assms by (simp_all add: operates_def own_cluster_def)

lemma own_get:
  assumes "operates W r q cfg vs vx down"
  shows "holds (standing vs vx down s x d) (getSite (r_kube r) (site_ns s) (site_name s))
     (\<lambda>a w. a = Inr s \<and> standing vs vx down s x d w)"
  unfolding client_defs
proof (rule holds_call)
  fix w a e
  assume w: "standing vs vx down s x d w" and a: "k_getSite (r_kube r) (site_ns s) (site_name s) (env w) = (a, e)"
  have "fst (k_getSite (r_kube r) (site_ns s) (site_name s) (env w)) = Inr s \<and>
      unchanged vs vx down (env w) (snd (k_getSite (r_kube r) (site_ns s) (site_name s) (env w)))"
    using operatesD(1) [OF assms] w by (simp add: own_sites_def standing_def)
  with w a show "a = Inr s \<and> standing vs vx down s x d
      (w\<lparr>env := e, trace := trace w @ [(CGetSite (site_ns s) (site_name s), err_of a)]\<rparr>)"
    by (simp add: standing_unchanged)
qed

lemma standing_stored:
  assumes "standing vs vx down s x d w" and "site_stored vs vx down s1 (env w) (a, e)" and "site_key s1 = site_key s"
  shows "\<exists>rv. a = Inr (bumped rv s1) \<and> standing vs vx down (bumped rv s1) x d (w\<lparr>env := e, trace := l\<rparr>)"
proof -
  have "SecretName s1 = SecretName s"
    using assms(3) by (simp add: SecretName_def)
  then show ?thesis
    using assms by (auto simp: site_stored_def standing_def)
qed

lemma other_finalizersD:
  "other_finalizers s s1 \<Longrightarrow> site_key s1 = site_key s \<and> site_spec s1 = site_spec s"
  unfolding other_finalizers_def by (metis object_meta.ext_inject object_meta.surjective object_meta.update_convs(5))

lemma own_update:
  assumes "operates W r q cfg vs vx down" and "other_finalizers s s1" and "defaulted (site_spec s) = site_spec s"
    and "site_status s1 = site_status s" and "m_finalizers (site_meta s1) \<noteq> []"
  shows "holds (standing vs vx down s x d) (updateSiteObj (r_kube r) s1)
     (\<lambda>a w. \<exists>rv. a = Inr (bumped rv s1) \<and> standing vs vx down (bumped rv s1) x d w)"
  unfolding client_defs
proof (rule holds_call)
  fix w a e
  assume w: "standing vs vx down s x d w" and a: "k_updateSite (r_kube r) s1 (env w) = (a, e)"
  note key = other_finalizersD [OF assms(2)]
  have "vs (env w) (site_key s1) = Some s"
    using w key by (simp add: standing_def)
  with operatesD(1) [OF assms(1)] have
    "site_stored vs vx down (s1\<lparr>site_status := site_status s\<rparr>) (env w) (k_updateSite (r_kube r) s1 (env w))"
    using assms(2,3,5) unfolding own_sites_def finished_def by metis
  moreover have "s1\<lparr>site_status := site_status s\<rparr> = s1"
    using assms(4) by simp
  ultimately show "\<exists>rv. a = Inr (bumped rv s1) \<and> standing vs vx down (bumped rv s1) x d
      (w\<lparr>env := e, trace := trace w @ [(CUpdateSite s1, err_of a)]\<rparr>)"
    using standing_stored [OF w] key a by simp
qed

lemma own_status:
  assumes "operates W r q cfg vs vx down"
  shows "holds (standing vs vx down s x d) (statusUpdate (r_kube r) (s\<lparr>site_status := st\<rparr>))
     (\<lambda>a w. \<exists>rv. a = Inr (bumped rv (s\<lparr>site_status := st\<rparr>)) \<and>
        standing vs vx down (bumped rv (s\<lparr>site_status := st\<rparr>)) x d w)"
  unfolding client_defs
proof (rule holds_call)
  let ?s = "s\<lparr>site_status := st\<rparr>"
  fix w a e
  assume w: "standing vs vx down s x d w" and a: "k_statusUpdate (r_kube r) ?s (env w) = (a, e)"
  have "vs (env w) (site_key ?s) = Some s" "site_key s = site_key ?s" "version_of s = version_of ?s"
    using w by (simp_all add: standing_def)
  with operatesD(1) [OF assms(1)] have
    "site_stored vs vx down (s\<lparr>site_status := site_status ?s\<rparr>) (env w) (k_statusUpdate (r_kube r) ?s (env w))"
    unfolding own_sites_def by blast
  then show "\<exists>rv. a = Inr (bumped rv ?s) \<and> standing vs vx down (bumped rv ?s) x d
      (w\<lparr>env := e, trace := trace w @ [(CStatusUpdate ?s, err_of a)]\<rparr>)"
    using standing_stored [OF w] a by simp
qed

lemma own_setPhase:
  assumes "operates W r q cfg vs vx down"
  shows "holds (standing vs vx down s x d) (setPhase r (s\<lparr>site_status := st\<rparr>) phase msg)
     (\<lambda>a w. \<exists>rv now s'. a = Inr s' \<and> standing vs vx down s' x d w \<and>
        s' = bumped rv (s\<lparr>site_status := phase_status phase msg (m_generation (site_meta s)) now st\<rparr>))"
  unfolding setPhase_def
proof (rule holds_bind)
  show "holds (standing vs vx down s x d) (timeNow (r_kube r)) (\<lambda>_. standing vs vx down s x d)"
    using operatesD(3) [OF assms] unfolding client_defs own_rest_def by (intro standing_query) simp
  show "holds (standing vs vx down s x d) (statusUpdate (r_kube r)
      (s\<lparr>site_status := st, site_status := phase_status phase msg (m_generation (site_meta (s\<lparr>site_status := st\<rparr>)))
         now (site_status (s\<lparr>site_status := st\<rparr>))\<rparr>))
     (\<lambda>a w. \<exists>rv now s'. a = Inr s' \<and> standing vs vx down s' x d w \<and>
        s' = bumped rv (s\<lparr>site_status := phase_status phase msg (m_generation (site_meta s)) now st\<rparr>))" for now
    by simp (rule holds_post [OF own_status [OF assms]], blast)
qed

text \<open>The objects of the builders have no owner yet and stand in the namespace of the site.\<close>

definition fresh_in :: "site \<Rightarrow> owned \<Rightarrow> bool" where
  "fresh_in s b \<longleftrightarrow> m_namespace (owned_meta b) = site_ns s \<and> m_owners (owned_meta b) = []"

lemma desired_fresh: "list_all (fresh_in s) (desired_objects r s)"
  by (simp add: desired_objects_def fresh_in_def build_simps DesiredDeployment_def DesiredService_def
      DesiredIngress_def DesiredPHPConfigMap_def new_meta_def)

lemma own_apply:
  assumes "operates W r q cfg vs vx down" and "fresh_in s1 b" and "wr_object W b"
  shows "holds (standing vs vx down s x d) (apply_obj r s1 b) (\<lambda>a w. a = Inr () \<and> standing vs vx down s x d w)"
proof -
  obtain m where m: "k_setControllerRef (r_kube r) s1 (owned_meta b) = Inr m"
    using operatesD(3) [OF assms(1)] assms(2) unfolding own_rest_def fresh_in_def by blast
  obtain g where g: "k_gvk (r_kube r) (with_meta m b) = Inr g"
    using operatesD(3) [OF assms(1)] unfolding own_rest_def by blast
  have "fst (k_patchOwned (r_kube r) g (with_meta m b) e) = Inr () \<and>
      unchanged vs vx down e (snd (k_patchOwned (r_kube r) g (with_meta m b) e))" for e
    using operatesD(3) [OF assms(1)] assms(3) m g unfolding own_rest_def by blast
  then show ?thesis
    using operatesD(7) [OF assms(1)] by (simp add: apply_obj_def m g client_defs) (intro standing_call; simp)
qed

lemma own_workload:
  assumes "operates W r q cfg vs vx down" and "list_all (wr_object W) (desired_objects r s1)"
  shows "holds (standing vs vx down s x d) (reconcileWorkload r s1) (\<lambda>a w. a = Inr () \<and> standing vs vx down s x d w)"
proof -
  have each: "holds (standing vs vx down s x d) (apply_each r s1 bs) (\<lambda>a w. a = Inr () \<and> standing vs vx down s x d w)"
    if "list_all (fresh_in s1) bs" "list_all (wr_object W) bs" for bs
    using that
  proof (induction bs)
    case (Cons b bs)
    then have b: "fresh_in s1 b" "wr_object W b"
      by simp_all
    show ?case
      unfolding apply_each.simps
    proof (rule holds_bind [OF own_apply [OF assms(1) b]], rule holdsI)
      fix a w a' w'
      assume "a = Inr () \<and> standing vs vx down s x d w"
        and "run_state (case a of Inl e \<Rightarrow> ret (Inl e) | Inr _ \<Rightarrow> apply_each r s1 bs) w = (a', w')"
      then show "a' = Inr () \<and> standing vs vx down s x d w'"
        using holdsD [OF Cons.IH, of w a' w'] Cons.prems by simp
    qed
  qed (simp add: holds_def)
  show ?thesis
    unfolding reconcileWorkload_def by (rule each [OF desired_fresh assms(2)])
qed

lemma own_DesiredSecret:
  assumes "operates W r q cfg vs vx down"
  shows "holds (standing vs vx down s x d) (DesiredSecret (r_kube r) s ex) (\<lambda>b w. standing vs vx down s x d w \<and>
    secret_complete (sec_data b) \<and> secret_key b = (site_ns s, SecretName s) \<and>
    sec_meta b = new_meta (SecretName s) (site_ns s) (Labels s))"
proof (rule holdsI)
  fix w b w' assume w: "standing vs vx down s x d w" and run: "run_state (DesiredSecret (r_kube r) s ex) w = (b, w')"
  have rand: "keeps (standing vs vx down s x d) (randRead (r_kube r) n)" for n
    using operatesD(3) [OF assms] unfolding client_defs own_rest_def keeps_def by (intro standing_query) simp
  have "keeps (standing vs vx down s x d) (fill_salts (r_kube r) keys dat)" for keys dat
    by (induction keys arbitrary: dat) (auto simp: fill_key_def RandomPassword_def intro!: hoare rand)
  then have "keeps (standing vs vx down s x d) (DesiredSecret (r_kube r) s ex)"
    unfolding DesiredSecret_def fill_key_def RandomPassword_def by (intro hoare rand)
  with w run have "standing vs vx down s x d w'"
    unfolding keeps_def by (blast dest: holdsD)
  then show "standing vs vx down s x d w' \<and> secret_complete (sec_data b) \<and> secret_key b = (site_ns s, SecretName s) \<and>
      sec_meta b = new_meta (SecretName s) (site_ns s) (Labels s)"
    using DesiredSecret_complete [OF run] DesiredSecret_meta [OF run] by (simp add: secret_key_def new_meta_def)
qed

lemma standing_secret_stored:
  assumes "standing vs vx down s x d w" and "secret_stored vs vx down y (env w) (a, e)"
    and "secret_key y = (site_ns s, SecretName s)" and "secret_complete (sec_data y)"
    and "w' = w\<lparr>env := e, trace := l\<rparr>"
  shows "\<exists>y'. a = Inr y' \<and> secret_complete (sec_data y') \<and> standing vs vx down s (Some y') d w'"
  using assms by (auto simp: secret_stored_def standing_def)

lemma secretsD:
  assumes "own_secrets W k vs vx down"
  shows "unchanged vs vx down e (snd (k_getSecret k ns n e)) \<and>
      (case vx e (ns, n) of
         None \<Rightarrow> \<exists>err. fst (k_getSecret k ns n e) = Inl err \<and> is_not_found err
       | Some x \<Rightarrow> fst (k_getSecret k ns n e) = Inr x)"
    and "vx e (secret_key s) = None \<Longrightarrow> wr_secret W (secret_key s) \<Longrightarrow> m_resourceVersion (sec_meta s) = [] \<Longrightarrow>
      secret_stored vs vx down s e (k_createSecret k s e)"
    and "vx e (secret_key s) = Some x \<Longrightarrow> wr_secret W (secret_key s) \<Longrightarrow>
      m_resourceVersion (sec_meta s) = m_resourceVersion (sec_meta x) \<Longrightarrow>
      secret_stored vs vx down s e (k_updateSecret k s e)"
proof -
  note law = assms [unfolded own_secrets_def]
  show "unchanged vs vx down e (snd (k_getSecret k ns n e)) \<and>
      (case vx e (ns, n) of
         None \<Rightarrow> \<exists>err. fst (k_getSecret k ns n e) = Inl err \<and> is_not_found err
       | Some x \<Rightarrow> fst (k_getSecret k ns n e) = Inr x)"
    using law [THEN conjunct1, rule_format, of e ns n] .
  show "vx e (secret_key s) = None \<Longrightarrow> wr_secret W (secret_key s) \<Longrightarrow> m_resourceVersion (sec_meta s) = [] \<Longrightarrow>
      secret_stored vs vx down s e (k_createSecret k s e)"
    using law [THEN conjunct2, THEN conjunct1, THEN spec, THEN spec, of e s] by simp
  show "vx e (secret_key s) = Some x \<Longrightarrow> wr_secret W (secret_key s) \<Longrightarrow>
      m_resourceVersion (sec_meta s) = m_resourceVersion (sec_meta x) \<Longrightarrow>
      secret_stored vs vx down s e (k_updateSecret k s e)"
    using law [THEN conjunct2, THEN conjunct2, THEN spec, THEN spec, of e s] by simp
qed

lemma own_store_secret:
  assumes "operates W r q cfg vs vx down" and wr: "wr_secret W (site_ns s, SecretName s)"
  shows "holds (standing vs vx down s x d) (store_secret r s x) (\<lambda>a w. \<exists>y. a = Inr y \<and>
    secret_complete (sec_data y) \<and> standing vs vx down s (Some y) d w)"
proof (rule holdsI)
  let ?key = "(site_ns s, SecretName s)"
  fix w a w' assume w: "standing vs vx down s x d w" and run: "run_state (store_secret r s x) w = (a, w')"
  obtain b w1 where b: "run_state (DesiredSecret (r_kube r) s x) w = (b, w1)"
    by fastforce
  note 1 = holdsD [OF own_DesiredSecret [OF assms(1)] w b]
  have vx: "vx (env w1) ?key = x"
    using 1 by (simp add: standing_def)
  have "m_namespace (sec_meta b) = site_ns s" "m_owners (sec_meta b) = []"
    using 1 by (simp_all add: new_meta_def)
  then obtain m where m: "k_setControllerRef (r_kube r) s (sec_meta b) = Inr m"
    using operatesD(3) [OF assms(1)] unfolding own_rest_def by blast
  note meta = owner_onlyD [OF operatesD(5) [OF assms(1)] m]
  have key: "secret_key (b\<lparr>sec_meta := m'\<rparr>) = ?key"
    if "m' = m \<or> m' = m\<lparr>m_resourceVersion := v\<rparr>" for m' v
    using 1 meta that by (auto simp: secret_key_def)
  show "\<exists>y. a = Inr y \<and> secret_complete (sec_data y) \<and> standing vs vx down s (Some y) d w'"
  proof (cases x)
    case None
    let ?d = "b\<lparr>sec_meta := m\<rparr>"
    obtain e where e: "k_createSecret (r_kube r) ?d (env w1) = (a, e)"
      "w' = w1\<lparr>env := e, trace := trace w1 @ [(CCreateSecret ?d, err_of a)]\<rparr>"
      using run b m None by (auto simp: store_secret_def run_simps split: prod.splits)
    have "secret_key ?d = ?key" "m_resourceVersion (sec_meta ?d) = []"
      using key [of m] meta(3) 1 by (simp_all add: new_meta_def)
    then have "secret_stored vs vx down ?d (env w1) (a, e)"
      using secretsD(2) [OF operatesD(2) [OF assms(1)], of "env w1" ?d] wr vx None e(1) by simp
    then show ?thesis
      using 1 key [of m] e(2) by (intro standing_secret_stored) auto
  next
    case (Some y)
    show ?thesis
    proof (cases "sec_data y = sec_data b")
      case True
      then show ?thesis
        using run b m Some 1 by (auto simp: store_secret_def)
    next
      case False
      let ?d = "b\<lparr>sec_meta := m\<lparr>m_resourceVersion := m_resourceVersion (sec_meta y)\<rparr>\<rparr>"
      obtain e where e: "k_updateSecret (r_kube r) ?d (env w1) = (a, e)" "w' = w1\<lparr>env := e, trace := trace w1 @ [(CUpdateSecret ?d, err_of a)]\<rparr>"
        using run b m Some False by (auto simp: store_secret_def run_simps split: prod.splits)
      have d: "secret_key ?d = ?key"
        using key [of _ "m_resourceVersion (sec_meta y)"] by blast
      have "secret_stored vs vx down ?d (env w1) (a, e)"
        using secretsD(3) [OF operatesD(2) [OF assms(1)], of "env w1" ?d y] wr vx Some e(1) d by simp
      then show ?thesis
        using 1 d e(2) by (intro standing_secret_stored) auto
    qed
  qed
qed

lemma own_ensureSecret:
  assumes "operates W r q cfg vs vx down" and "wr_secret W (site_ns s, SecretName s)"
  shows "holds (standing vs vx down s x d) (ensureSecret r s) (\<lambda>a w. \<exists>y. a = Inr y \<and>
    secret_complete (sec_data y) \<and> standing vs vx down s (Some y) d w)"
proof (rule holdsI)
  fix w a w' assume w: "standing vs vx down s x d w" and run: "run_state (ensureSecret r s) w = (a, w')"
  obtain got e where g: "k_getSecret (r_kube r) (site_ns s) (SecretName s) (env w) = (got, e)"
    by fastforce
  let ?w1 = "w\<lparr>env := e, trace := trace w @ [(CGetSecret (site_ns s) (SecretName s), err_of got)]\<rparr>"
  have "unchanged vs vx down (env w) e" and
    res: "case x of None \<Rightarrow> \<exists>err. got = Inl err \<and> is_not_found err | Some y \<Rightarrow> got = Inr y"
    using secretsD(1) [OF operatesD(2) [OF assms(1)], of "env w" "site_ns s" "SecretName s"] w g
    by (simp_all add: standing_def split: option.splits)
  then have "standing vs vx down s x d ?w1"
    using w by (intro standing_unchanged)
  moreover have "run_state (store_secret r s x) ?w1 = (a, w')"
    using run g res by (auto simp: ensureSecret_def run_simps split: option.splits)
  ultimately show "\<exists>y. a = Inr y \<and> secret_complete (sec_data y) \<and> standing vs vx down s (Some y) d w'"
    using holdsD [OF own_store_secret [OF assms]] by blast
qed

text \<open>The provisioner: it fails at its ping while MySQL is down, and succeeds after that.\<close>

definition after_ping ::
  "('e \<Rightarrow> sites) \<Rightarrow> ('e \<Rightarrow> secrets) \<Rightarrow> ('e \<Rightarrow> nat) \<Rightarrow> site \<Rightarrow> secret option \<Rightarrow> nat \<Rightarrow> unit result \<Rightarrow>
     'e state_of \<Rightarrow> bool" where
  "after_ping vs vx down s x d a w \<longleftrightarrow> standing vs vx down s x (d - 1) w \<and>
     (if d = 0 then a = Inr () else \<exists>e. a = Inl e)"

lemma own_open:
  assumes "mysql_comes_up W q cfg vs vx down"
  shows "holds (standing vs vx down s x d) (mysql_open q cfg) (after_ping vs vx down s x d)"
proof -
  have opened: "holds (standing vs vx down s x d) (sqlOpen q ''mysql'' (DSN cfg)) (\<lambda>a w. a = Inr () \<and> standing vs vx down s x d w)"
    using assms unfolding driver_defs mysql_comes_up_def by (intro standing_call) simp
  have closed: "holds (standing vs vx down s x d') (sqlClose q) (\<lambda>_. standing vs vx down s x d')" for d'
    using assms unfolding driver_defs mysql_comes_up_def by (intro standing_query) simp
  have pinged: "holds (standing vs vx down s x d) (sqlPing q) (after_ping vs vx down s x d)"
    unfolding driver_defs
  proof (rule holds_call)
    fix w a e assume w: "standing vs vx down s x d w" and a: "q_ping q (env w) = (a, e)"
    have "vs e = vs (env w) \<and> vx e = vx (env w) \<and>
        (if d = 0 then a = Inr () \<and> down e = 0 else (\<exists>err. a = Inl err) \<and> down e = d - 1)"
      using assms w a unfolding mysql_comes_up_def standing_def by (metis fst_conv snd_conv)
    then show "after_ping vs vx down s x d a (w\<lparr>env := e, trace := trace w @ [(CSqlPing, err_of a)]\<rparr>)"
      using w by (auto simp: after_ping_def standing_def)
  qed
  show ?thesis
    unfolding mysql_open_def
  proof (rule holds_bind [OF opened], rule holdsI)
    fix b w a w'
    assume b: "b = Inr () \<and> standing vs vx down s x d w"
      and run: "run_state (case b of Inl e \<Rightarrow> ret (Inl e) | Inr _ \<Rightarrow> do {
         p \<leftarrow> sqlPing q;
         case p of
           Inl e \<Rightarrow> do { _ \<leftarrow> sqlClose q; ret (Inl (GoErr (''ping mysql: '' @ error_text e))) }
         | Inr _ \<Rightarrow> ret (Inr ()) }) w = (a, w')"
    obtain p w1 where p: "run_state (sqlPing q) w = (p, w1)"
      by fastforce
    have p1: "after_ping vs vx down s x d p w1"
      using holdsD [OF pinged _ p] b by blast
    show "after_ping vs vx down s x d a w'"
    proof (cases p)
      case (Inl e)
      obtain w2 where u: "run_state (sqlClose q) w1 = ((), w2)"
        by (cases "run_state (sqlClose q) w1") auto
      then have "standing vs vx down s x (d - 1) w2"
        using holdsD [OF closed _ u] p1 by (auto simp: after_ping_def)
      then show ?thesis
        using run b p p1 u Inl by (auto simp: after_ping_def split: if_splits)
    next
      case (Inr v)
      then have "a = p" "w' = w1"
        using run b p by simp_all
      with p1 show ?thesis
        by simp
    qed
  qed
qed

text \<open>The statements, one after the other; \<open>P\<close> is what holds between two of them.\<close>

lemma standing_exec:
  assumes "\<And>e. P e \<Longrightarrow> case q_exec q st [] e of (y, e') \<Rightarrow> y = Inr () \<and> unchanged vs vx down e e' \<and> Q e'"
    and "holds (\<lambda>w. standing vs vx down s x d w \<and> Q (env w)) m (\<lambda>a w. a = Inr () \<and> standing vs vx down s x d w)"
  shows "holds (\<lambda>w. standing vs vx down s x d w \<and> P (env w))
    (do { r \<leftarrow> sqlExec q st []; case r of Inl e \<Rightarrow> ret (f e) | Inr _ \<Rightarrow> m })
    (\<lambda>a w. a = Inr () \<and> standing vs vx down s x d w)"
proof (rule holdsI)
  fix w a w'
  assume w: "standing vs vx down s x d w \<and> P (env w)"
    and run: "run_state (do { r \<leftarrow> sqlExec q st []; case r of Inl e \<Rightarrow> ret (f e) | Inr _ \<Rightarrow> m }) w = (a, w')"
  obtain e where e: "q_exec q st [] (env w) = (Inr (), e)" "unchanged vs vx down (env w) e" "Q e"
    using assms(1) [of "env w"] w by (auto split: prod.splits)
  let ?w1 = "w\<lparr>env := e, trace := trace w @ [(CSqlExec st [], None)]\<rparr>"
  have "run_state m ?w1 = (a, w')"
    using run e(1) by (simp add: run_simps)
  moreover have "standing vs vx down s x d ?w1 \<and> Q (env ?w1)"
    using w e(2,3) by (simp add: standing_unchanged)
  ultimately show "a = Inr () \<and> standing vs vx down s x d w'"
    using holdsD [OF assms(2)] by blast
qed

lemma own_exec:
  assumes "mysql_answers W q (unchanged vs vx down) name user host"
  shows "holds (standing vs vx down s x d) (exec_labelled q (ensure_stmts name user host pw))
      (\<lambda>a w. a = Inr () \<and> standing vs vx down s x d w)"
    and "holds (standing vs vx down s x d) (exec_plain q (drop_stmts name user host))
      (\<lambda>a w. a = Inr () \<and> standing vs vx down s x d w)"
proof -
  let ?ok = "\<lambda>_ :: 'a. True" and ?acc = "\<lambda>e. (user, host) \<in> wr_accounts W e"
  let ?one = "\<lambda>P st Q. \<forall>e. P e \<longrightarrow> (case q_exec q st [] e of (y, e') \<Rightarrow> y = Inr () \<and> unchanged vs vx down e e' \<and> Q e')"
  have one: "?one ?ok (''CREATE DATABASE IF NOT EXISTS `'' @ name @
        ''` CHARACTER SET utf8mb4 COLLATE utf8mb4_unicode_ci'') ?ok"
    "?one ?ok (create_user_stmt user host pw) ?acc" "?one ?acc (alter_user_stmt user host pw) ?acc"
    "?one ?acc (grant_stmt name user host) ?ok" "?one ?ok ''FLUSH PRIVILEGES'' ?ok"
    using assms unfolding mysql_answers_def by simp_all
  note step = standing_exec [where vs = vs and vx = vx and down = down, OF one(1) [rule_format]]
    standing_exec [where vs = vs and vx = vx and down = down, OF one(2) [rule_format]]
    standing_exec [where vs = vs and vx = vx and down = down, OF one(3) [rule_format]]
    standing_exec [where vs = vs and vx = vx and down = down, OF one(4) [rule_format]]
    standing_exec [where vs = vs and vx = vx and down = down, OF one(5) [rule_format]]
  have "holds (\<lambda>w. standing vs vx down s x d w \<and> ?ok (env w)) (exec_labelled q (ensure_stmts name user host pw))
      (\<lambda>a w. a = Inr () \<and> standing vs vx down s x d w)"
    unfolding ensure_stmts_def exec_labelled.simps
    by (rule step(1), assumption?, rule step(2), assumption?, rule step(3), assumption?, rule step(4), assumption?,
        rule step(5), assumption?, simp add: holds_def)
  then show "holds (standing vs vx down s x d) (exec_labelled q (ensure_stmts name user host pw))
      (\<lambda>a w. a = Inr () \<and> standing vs vx down s x d w)"
    by simp
  have "holds (\<lambda>w. standing vs vx down s x d w \<and> ?ok (env w)) (exec_plain q sts) (\<lambda>a w. a = Inr () \<and> standing vs vx down s x d w)"
    if "list_all (\<lambda>st. ?one ?ok st ?ok) sts" for sts
    using that
  proof (induction sts)
    case (Cons st sts)
    then have "?one ?ok st ?ok" and rest: "holds (\<lambda>w. standing vs vx down s x d w \<and> ?ok (env w)) (exec_plain q sts)
        (\<lambda>a w. a = Inr () \<and> standing vs vx down s x d w)"
      by simp_all
    then show ?case
      unfolding exec_plain.simps by (intro standing_exec [OF _ rest]) simp
  qed (simp add: holds_def)
  moreover have "list_all (\<lambda>st. ?one ?ok st ?ok) (drop_stmts name user host)"
    using assms unfolding mysql_answers_def by simp
  ultimately show "holds (standing vs vx down s x d) (exec_plain q (drop_stmts name user host))
      (\<lambda>a w. a = Inr () \<and> standing vs vx down s x d w)"
    by simp
qed

lemma own_session:
  assumes "mysql_comes_up W q cfg vs vx down"
    and body: "\<And>x. holds (standing vs vx down s x 0) body (\<lambda>a w. a = Inr () \<and> standing vs vx down s x 0 w)"
  shows "holds (standing vs vx down s x d) (do {
      o1 \<leftarrow> mysql_open q cfg;
      case o1 of Inl e \<Rightarrow> ret (Inl e) | Inr _ \<Rightarrow> do { r \<leftarrow> body; _ \<leftarrow> sqlClose q; ret r } })
    (after_ping vs vx down s x d)"
proof (rule holds_bind [OF own_open [OF assms(1)]], rule holdsI)
  fix p w1 a w'
  assume p1: "after_ping vs vx down s x d p w1"
    and run: "run_state (case p of Inl e \<Rightarrow> ret (Inl e) | Inr _ \<Rightarrow> do { r \<leftarrow> body; _ \<leftarrow> sqlClose q; ret r }) w1 = (a, w')"
  show "after_ping vs vx down s x d a w'"
  proof (cases p)
    case (Inl e)
    then show ?thesis
      using run p1 by simp
  next
    case (Inr v)
    then have d: "d = 0" and s1: "standing vs vx down s x 0 w1"
      using p1 by (auto simp: after_ping_def split: if_splits)
    obtain b w2 where b: "run_state body w1 = (b, w2)"
      by fastforce
    note s2 = holdsD [OF body s1 b]
    obtain w3 where u: "run_state (sqlClose q) w2 = ((), w3)"
      by (cases "run_state (sqlClose q) w2") auto
    have closed: "holds (standing vs vx down s x 0) (sqlClose q) (\<lambda>_. standing vs vx down s x 0)"
      using assms(1) unfolding driver_defs mysql_comes_up_def by (intro standing_query) simp
    have "standing vs vx down s x 0 w3"
      using holdsD [OF closed _ u] s2 by blast
    then show ?thesis
      using run b u s2 d Inr by (auto simp: after_ping_def)
  qed
qed

lemma own_EnsureDatabase:
  assumes up: "mysql_comes_up W q cfg vs vx down" and "valid_ident name" "valid_ident user" and "wr_names W name user host"
  shows "holds (standing vs vx down s x d) (EnsureDatabase q cfg name user host pw) (after_ping vs vx down s x d)"
    and "holds (standing vs vx down s x d) (DropDatabase q cfg name user host) (after_ping vs vx down s x d)"
proof -
  have valid: "validateIdent q name = Inr ()" "validateIdent q user = Inr ()"
    using assms by (simp_all add: validateIdent_ok_iff)
  have answers: "mysql_answers W q (unchanged vs vx down) name user host"
    using up assms(4) by (simp add: mysql_comes_up_def)
  show "holds (standing vs vx down s x d) (EnsureDatabase q cfg name user host pw) (after_ping vs vx down s x d)"
    using own_session [OF up own_exec(1) [OF answers]] by (simp add: EnsureDatabase_def valid)
  show "holds (standing vs vx down s x d) (DropDatabase q cfg name user host) (after_ping vs vx down s x d)"
    using own_session [OF up own_exec(2) [OF answers]] by (simp add: DropDatabase_def valid)
qed

section \<open>One round\<close>

text \<open>The same site with other finalizers, status and version; a site that is ready.\<close>

definition same_site :: "site \<Rightarrow> site \<Rightarrow> bool" where
  "same_site s s' \<longleftrightarrow> site_key s' = site_key s \<and> site_spec s' = site_spec s \<and>
     m_generation (site_meta s') = m_generation (site_meta s) \<and>
     m_deletion (site_meta s') = m_deletion (site_meta s)"

definition ready_site :: "site \<Rightarrow> bool" where
  "ready_site s \<longleftrightarrow> ss_phase (site_status s) = PhaseReady \<and>
     ss_databaseName (site_status s) = DatabaseName s \<and> ss_databaseUser (site_status s) = DatabaseUser s \<and>
     ss_secretName (site_status s) = SecretName s \<and> ss_url (site_status s) = URL s \<and>
     ss_observedGeneration (site_status s) = m_generation (site_meta s) \<and>
     (\<exists>c. find_condition ''Ready'' (ss_conditions (site_status s)) = Some c \<and> c_status c = ''True'' \<and>
        c_observedGeneration c = m_generation (site_meta s))"

definition round_over ::
  "('e \<Rightarrow> sites) \<Rightarrow> ('e \<Rightarrow> secrets) \<Rightarrow> ('e \<Rightarrow> nat) \<Rightarrow> site \<Rightarrow> nat \<Rightarrow> reconcile_out \<Rightarrow> 'e state_of \<Rightarrow> bool" where
  "round_over vs vx down s d out w \<longleftrightarrow> (\<exists>s' y. same_site s s' \<and> standing vs vx down s' (Some y) (d - 1) w \<and>
     Finalizer \<in> set (m_finalizers (site_meta s')) \<and> secret_complete (sec_data y) \<and>
     (if d = 0 then out = done_with None \<and> ready_site s' else out = retry_after 15))"

lemma round_overI:
  "same_site s s' \<Longrightarrow> standing vs vx down s' (Some y) (d - 1) w \<Longrightarrow>
   Finalizer \<in> set (m_finalizers (site_meta s')) \<Longrightarrow> secret_complete (sec_data y) \<Longrightarrow>
   (if d = 0 then out = done_with None \<and> ready_site s' else out = retry_after 15) \<Longrightarrow>
   round_over vs vx down s d out w"
  unfolding round_over_def by blast

text \<open>
  What the controller takes on: a site that is not suspended and not being deleted, with identifiers
  that pass the provisioner's check, whose stored spec has the defaults of the schema; MySQL accepts its
  database, user and host, and the cluster its Secret and its four objects.
\<close>

definition takes_on :: "'e world_rules \<Rightarrow> 'e reconciler \<Rightarrow> site \<Rightarrow> bool" where
  "takes_on W r s \<longleftrightarrow> \<not> sp_suspend (site_spec s) \<and> m_deletion (site_meta s) = None \<and>
     valid_ident (DatabaseName s) \<and> valid_ident (DatabaseUser s) \<and> defaulted (site_spec s) = site_spec s \<and>
     wr_names W (DatabaseName s) (DatabaseUser s) (DatabaseHost s) \<and> wr_secret W (site_ns s, SecretName s) \<and>
     list_all (wr_object W) (desired_objects r s)"

lemma same_site_trans: "same_site s t \<Longrightarrow> same_site t u \<Longrightarrow> same_site s u"
  by (simp add: same_site_def)

lemma same_site_names:
  "same_site s t \<Longrightarrow> DatabaseName t = DatabaseName s \<and> DatabaseUser t = DatabaseUser s \<and>
     DatabaseHost t = DatabaseHost s \<and> SecretName t = SecretName s \<and> URL t = URL s"
  by (simp add: same_site_def DatabaseName_def DatabaseUser_def DatabaseHost_def SecretName_def URL_def)

lemma desired_objects_same:
  assumes "site_key t = site_key s" and "site_spec t = site_spec s"
  shows "desired_objects r t = desired_objects r s"
proof -
  have n: "site_ns t = site_ns s" "site_name t = site_name s"
    using assms(1) by simp_all
  have names: "Labels t = Labels s" "selector t = selector s" "Hosts t = Hosts s" "TLSSecretName t = TLSSecretName s"
    "SubPath t = SubPath s" "SecretName t = SecretName s" "DatabaseName t = DatabaseName s" "DatabaseUser t = DatabaseUser s"
    "PHPConfigMapName t = PHPConfigMapName s" "ForceHTTPSEnabled t = ForceHTTPSEnabled s"
    "dep_replica_count t = dep_replica_count s" "ingress_annotations t = ingress_annotations s"
    by (simp_all add: n assms(2) name_simps Labels_def selector_def Hosts_def TLSSecretName_def SubPath_def PHPConfigMapName_def
        ForceHTTPSEnabled_def dep_replica_count_def ingress_annotations_def)
  have ini: "EffectivePHPIni t = EffectivePHPIni s"
    by (simp add: EffectivePHPIni_def n assms(2) names)
  then have "DesiredPHPConfigMap t = DesiredPHPConfigMap s" "PHPIniHash t = PHPIniHash s"
    by (simp_all add: DesiredPHPConfigMap_def PHPIniHash_def n assms(2) names)
  moreover have "DesiredService t = DesiredService s" "DesiredIngress g t = DesiredIngress g s" for g
    by (simp_all add: DesiredService_def DesiredIngress_def ingress_rule_for_def n assms(2) names)
  moreover have "dep_env t h p = dep_env s h p" "dep_mounts t = dep_mounts s" "dep_volume_list g t = dep_volume_list g s" for h p g
    by (simp_all add: dep_env_def generated_env_def dep_mounts_def dep_volume_list_def SharedPVCName_def n assms(2) names)
  ultimately show ?thesis
    by (simp add: desired_objects_def DesiredDeployment_def n assms(2) names)
qed

lemma same_site_takes_on: "same_site s t \<Longrightarrow> takes_on W r t = takes_on W r s"
  using same_site_names [of s t] desired_objects_same [of t s r] by (simp add: takes_on_def same_site_def)

lemma same_site_stored: "same_site s (bumped rv (s\<lparr>site_status := st\<rparr>))"
  by (simp add: same_site_def)

lemma ready_stored:
  "ready_site (bumped rv (s\<lparr>site_status :=
     phase_status PhaseReady msg (m_generation (site_meta s)) now (observed_status s)\<rparr>))"
  by (simp add: ready_site_def phase_status_def observed_status_def setCondition_find ready_condition_def
      DatabaseName_def DatabaseUser_def SecretName_def URL_def bumped_def split: option.splits)

lemma own_ensureDatabase:
  assumes "operates W r q cfg vs vx down" and "takes_on W r s"
  shows "holds (standing vs vx down s x d) (ensureDatabase r s pw) (after_ping vs vx down s x d)"
proof (rule holdsI)
  fix w a w' assume w: "standing vs vx down s x d w" and run: "run_state (ensureDatabase r s pw) w = (a, w')"
  obtain w1 where w1: "run_state (EnsureDatabase q cfg (DatabaseName s) (DatabaseUser s) (DatabaseHost s) pw) w = (a, w1)"
    "env w' = env w1"
    using run operatesD(8) [OF assms(1)]
    by (auto simp: ensureDatabase_def run_simps mysql_provisioner_def split: prod.splits)
  have "valid_ident (DatabaseName s)" "valid_ident (DatabaseUser s)"
    "wr_names W (DatabaseName s) (DatabaseUser s) (DatabaseHost s)"
    using assms(2) by (simp_all add: takes_on_def)
  from holdsD [OF own_EnsureDatabase(1) [OF operatesD(4) [OF assms(1)] this] w w1(1)]
  show "after_ping vs vx down s x d a w'"
    by (simp add: after_ping_def standing_def w1(2))
qed

lemma own_active:
  assumes "operates W r q cfg vs vx down" and "takes_on W r s" and fin: "Finalizer \<in> set (m_finalizers (site_meta s))"
  shows "holds (standing vs vx down s x d) (reconcileActive r s) (round_over vs vx down s d)"
proof (rule holdsI)
  fix w out w' assume w: "standing vs vx down s x d w" and run: "run_state (reconcileActive r s) w = (out, w')"
  have accepted: "wr_secret W (site_ns s, SecretName s)" "list_all (wr_object W) (desired_objects r s)"
    using assms(2) by (simp_all add: takes_on_def)
  obtain a w1 where a: "run_state (ensureSecret r s) w = (a, w1)"
    by fastforce
  obtain y where y: "a = Inr y" "secret_complete (sec_data y)" "standing vs vx down s (Some y) d w1"
    using holdsD [OF own_ensureSecret [OF assms(1) accepted(1)] w a] by blast
  obtain b w2 where b: "run_state (ensureDatabase r s (password y)) w1 = (b, w2)"
    by fastforce
  have db: "after_ping vs vx down s (Some y) d b w2"
    using holdsD [OF own_ensureDatabase [OF assms(1,2)] y(3) b] .
  show "round_over vs vx down s d out w'"
  proof (cases b)
    case (Inl e)
    let ?st = "site_status s"
    obtain p w3 where p: "run_state (setPhase r (s\<lparr>site_status := ?st\<rparr>) PhaseProvisioning
        (''Waiting for MySQL: '' @ error_text e)) w2 = (p, w3)"
      by fastforce
    have d: "d \<noteq> 0" "standing vs vx down s (Some y) (d - 1) w2"
      using db Inl by (auto simp: after_ping_def split: if_splits)
    obtain rv st s' where s': "s' = bumped rv (s\<lparr>site_status := st\<rparr>)" "standing vs vx down s' (Some y) (d - 1) w3"
      using holdsD [OF own_setPhase [OF assms(1)] d(2) p] by blast
    have "out = retry_after 15" "w' = w3"
      using run a b p y(1) Inl by (simp_all add: reconcileActive_def)
    then show ?thesis
      using d(1) s' y(2) fin by (intro round_overI [of s s']) (simp_all add: same_site_stored)
  next
    case (Inr u)
    have d: "d = 0" "standing vs vx down s (Some y) 0 w2"
      using db Inr by (auto simp: after_ping_def split: if_splits)
    obtain c w3 where c: "run_state (reconcileWorkload r s) w2 = (c, w3)"
      by fastforce
    have c1: "c = Inr ()" "standing vs vx down s (Some y) 0 w3"
      using holdsD [OF own_workload [OF assms(1) accepted(2)] d(2) c] by simp_all
    obtain p w4 where p: "run_state (setPhase r (s\<lparr>site_status := observed_status s\<rparr>) PhaseReady ''Site reconciled'') w3 = (p, w4)"
      by fastforce
    obtain rv now s' where s': "p = Inr s'" "standing vs vx down s' (Some y) 0 w4"
      "s' = bumped rv (s\<lparr>site_status := phase_status PhaseReady ''Site reconciled'' (m_generation (site_meta s)) now
         (observed_status s)\<rparr>)"
      using holdsD [OF own_setPhase [OF assms(1)] c1(2) p] by blast
    have "out = done_with None" "w' = w4"
      using run a b c p y(1) Inr c1(1) s'(1) by (simp_all add: reconcileActive_def)
    then show ?thesis
      using d(1) s' y(2) fin by (intro round_overI [of s s']) (simp_all add: same_site_stored ready_stored)
  qed
qed

lemma finalizer_added:
  "m_deletion (site_meta s) = None \<Longrightarrow> other_finalizers s
     (s\<lparr>site_meta := (site_meta s)\<lparr>m_finalizers := m_finalizers (site_meta s) @ [f]\<rparr>\<rparr>)"
  by (simp add: other_finalizers_def)

lemma own_round:
  assumes "operates W r q cfg vs vx down" and "takes_on W r s"
  shows "holds (standing vs vx down s x d) (Reconcile r (site_ns s) (site_name s)) (round_over vs vx down s d)"
proof (rule holdsI)
  fix w out w' assume w: "standing vs vx down s x d w"
    and run: "run_state (Reconcile r (site_ns s) (site_name s)) w = (out, w')"
  obtain a w1 where a: "run_state (getSite (r_kube r) (site_ns s) (site_name s)) w = (a, w1)"
    by fastforce
  have a1: "a = Inr s" "standing vs vx down s x d w1"
    using holdsD [OF own_get [OF assms(1)] w a] by simp_all
  have alive: "m_deletion (site_meta s) = None" "\<not> sp_suspend (site_spec s)"
    "defaulted (site_spec s) = site_spec s"
    using assms(2) by (simp_all add: takes_on_def)
  let ?s1 = "s\<lparr>site_meta := (site_meta s)\<lparr>m_finalizers := m_finalizers (site_meta s) @ [Finalizer]\<rparr>\<rparr>"
  show "round_over vs vx down s d out w'"
  proof (cases "Finalizer \<in> set (m_finalizers (site_meta s))")
    case True
    then have "run_state (reconcileActive r s) w1 = (out, w')"
      using run a a1(1) alive operatesD(6) [OF assms(1)]
      by (simp add: Reconcile_def reconcileBody_def finalizer_laws_def)
    then show ?thesis
      using holdsD [OF own_active [OF assms True] a1(2)] by blast
  next
    case False
    obtain b w2 where b: "run_state (updateSiteObj (r_kube r) ?s1) w1 = (b, w2)"
      by fastforce
    obtain rv where b1: "b = Inr (bumped rv ?s1)" "standing vs vx down (bumped rv ?s1) x d w2"
      using holdsD [OF own_update [OF assms(1) finalizer_added alive(3)] a1(2) b] alive(1) by auto
    have "run_state (reconcileActive r (bumped rv ?s1)) w2 = (out, w')"
      using run a a1(1) alive operatesD(6) [OF assms(1)] b b1(1) False
      by (simp add: Reconcile_def reconcileBody_def finalizer_laws_def)
    moreover have same: "same_site s (bumped rv ?s1)"
      by (simp add: same_site_def)
    then have "takes_on W r (bumped rv ?s1)"
      using assms(2) same_site_takes_on by blast
    ultimately have "round_over vs vx down (bumped rv ?s1) d out w'"
      using holdsD [OF own_active [OF assms(1)] b1(2)] by simp
    then show ?thesis
      using same_site_trans [OF same] unfolding round_over_def by blast
  qed
qed

section \<open>Until the site is ready\<close>

lemma waits_Suc: "waits_then_done (Suc d) = retry_after 15 # waits_then_done d"
  by (simp add: waits_then_done_def)

lemma settles_ready:
  assumes "operates W r q cfg vs vx down" and "takes_on W r s" and "standing vs vx down s x d w" and "d < fuel"
  shows "case run_state (until_settled fuel r (site_ns s) (site_name s)) w of (rounds, w') \<Rightarrow>
    rounds = Some (waits_then_done d) \<and> (\<exists>s' y. same_site s s' \<and> standing vs vx down s' (Some y) 0 w' \<and>
      Finalizer \<in> set (m_finalizers (site_meta s')) \<and> secret_complete (sec_data y) \<and> ready_site s')"
  using assms(2-)
proof (induction fuel arbitrary: s x d w)
  case (Suc fuel)
  obtain out w1 where out: "run_state (Reconcile r (site_ns s) (site_name s)) w = (out, w1)"
    by fastforce
  obtain s' y where s': "same_site s s'" "standing vs vx down s' (Some y) (d - 1) w1"
    "Finalizer \<in> set (m_finalizers (site_meta s'))" "secret_complete (sec_data y)"
    "if d = 0 then out = done_with None \<and> ready_site s' else out = retry_after 15"
    using holdsD [OF own_round [OF assms(1) Suc.prems(1)] Suc.prems(2) out] unfolding round_over_def by blast
  show ?case
  proof (cases d)
    case 0
    then show ?thesis
      using out s' by (auto simp: waits_then_done_def split: prod.splits)
  next
    case (Suc d')
    have key: "site_ns s' = site_ns s" "site_name s' = site_name s"
      using s'(1) by (simp_all add: same_site_def)
    obtain rounds w2 where r: "run_state (until_settled fuel r (site_ns s) (site_name s)) w1 = (rounds, w2)"
      by fastforce
    have "takes_on W r s'"
      using s'(1) Suc.prems(1) same_site_takes_on by blast
    from Suc.IH [OF this s'(2)] Suc Suc.prems(3) r key
    have IH: "rounds = Some (waits_then_done d')" "\<exists>t y. same_site s' t \<and> standing vs vx down t (Some y) 0 w2 \<and>
      Finalizer \<in> set (m_finalizers (site_meta t)) \<and> secret_complete (sec_data y) \<and> ready_site t"
      by simp_all
    have "run_state (until_settled (Suc fuel) r (site_ns s) (site_name s)) w = (Some (waits_then_done d), w2)"
      using out s'(5) Suc r IH(1) by (simp add: waits_Suc)
    then show ?thesis
      using IH(2) same_site_trans [OF s'(1)] by auto
  qed
qed simp

text \<open>
  C3. Convergence: on a cluster nobody else writes to, with the documented answers (creating what is
  there and updating an old version fail), and with a MySQL server that refuses the first \<open>d\<close> pings and
  then carries out the statements for names it accepts: for a stored site that is neither suspended nor
  being deleted, with identifiers that pass the check and a spec with the defaults of the schema, whose
  database, user and host MySQL accepts and whose Secret and objects the cluster accepts, the operator is
  called exactly \<open>d + 1\<close> times. All calls but the last answer the 15 second delay, without error, and the
  last asks for nothing more. Then the stored site has the spec it had and is ready for its generation,
  with its finalizer, and its Secret is complete. Any larger number of rounds allowed makes no
  difference.
\<close>

theorem sites_become_ready:
  assumes "operates W r q cfg vs vx down" and "takes_on W r s" and "standing vs vx down s x d w" and "d < fuel"
  shows "case run_state (until_settled fuel r (site_ns s) (site_name s)) w of (rounds, w') \<Rightarrow>
    rounds = Some (replicate d (retry_after 15) @ [done_with None]) \<and>
    (\<exists>s' y. same_site s s' \<and> standing vs vx down s' (Some y) 0 w' \<and>
      Finalizer \<in> set (m_finalizers (site_meta s')) \<and> secret_complete (sec_data y) \<and> ready_site s')"
  using settles_ready [OF assms] unfolding waits_then_done_def .

section \<open>A cluster and a server\<close>

text \<open>
  Stored sites, stored Secrets, and the pings still refused. The schema's defaults are applied to every
  site that is written; versions grow with each write; MySQL takes users of up to 32 characters.
\<close>

type_synonym home = "sites \<times> secrets \<times> nat"

definition home_store :: "site \<Rightarrow> site \<Rightarrow> home \<Rightarrow> site result \<times> home" where
  "home_store cur s e =
     (if version_of cur = version_of s
      then (if finished cur s then (Inr s, ((fst e)(site_key s := None), snd e))
        else let s2 = bumped (version_of cur @ ''v'') (s\<lparr>site_spec := defaulted (site_spec s), site_status := site_status cur\<rparr>)
          in (Inr s2, ((fst e)(site_key s \<mapsto> s2), snd e)))
      else (Inl conflict, e))"

definition home_keep :: "secret \<Rightarrow> string \<Rightarrow> home \<Rightarrow> secret result \<times> home" where
  "home_keep s rv e = (let s' = s\<lparr>sec_meta := (sec_meta s)\<lparr>m_resourceVersion := rv @ ''v''\<rparr>\<rparr>
     in (Inr s', (fst e, (fst (snd e))(secret_key s \<mapsto> s'), snd (snd e))))"

definition home_kube :: "home kube" where
  "home_kube = calm_kube\<lparr>
     k_getSite := (\<lambda>ns n e. (mem_get (fst e) (ns, n), e)),
     k_updateSite := (\<lambda>s e. case fst e (site_key s) of
         None \<Rightarrow> (Inl not_found, e) | Some cur \<Rightarrow> home_store cur s e),
     k_statusUpdate := (\<lambda>s e. case fst e (site_key s) of
         None \<Rightarrow> (Inl not_found, e)
       | Some cur \<Rightarrow> if version_of cur = version_of s
           then (let s2 = bumped (version_of cur @ ''v'') (cur\<lparr>site_status := site_status s\<rparr>)
             in (Inr s2, ((fst e)(site_key s \<mapsto> s2), snd e)))
           else (Inl conflict, e)),
     k_getSecret := (\<lambda>ns n e. (mem_get (fst (snd e)) (ns, n), e)),
     k_createSecret := (\<lambda>s e. if fst (snd e) (secret_key s) = None then home_keep s [] e
       else (Inl (KubeErr AlreadyExists ''already exists''), e)),
     k_updateSecret := (\<lambda>s e. case fst (snd e) (secret_key s) of
         None \<Rightarrow> (Inl not_found, e)
       | Some x \<Rightarrow> if m_resourceVersion (sec_meta x) = m_resourceVersion (sec_meta s)
           then home_keep s (m_resourceVersion (sec_meta x)) e else (Inl conflict, e))\<rparr>"

definition home_drv :: "home sqldrv" where
  "home_drv = calm_drv\<lparr>q_ping := (\<lambda>e. if snd (snd e) = 0 then (Inr (), e)
     else (Inl (GoErr ''connection refused''), (fst e, fst (snd e), snd (snd e) - 1)))\<rparr>"

definition home_rules :: "home world_rules" where
  "home_rules = \<lparr>wr_object = (\<lambda>_. True), wr_secret = (\<lambda>_. True), wr_site = (\<lambda>_ sp. sp_domain sp \<noteq> []),
     wr_names = (\<lambda>name user host. length name \<le> 64 \<and> length user \<le> 32 \<and> length host \<le> 255),
     wr_accounts = (\<lambda>_. UNIV)\<rparr>"

lemma site_spec_same: "site_spec s = sp \<Longrightarrow> s\<lparr>site_spec := sp, site_status := st\<rparr> = s\<lparr>site_status := st\<rparr>"
  by (cases s) simp

lemma home_own_sites: "own_sites home_kube fst (\<lambda>e. fst (snd e)) (\<lambda>e. snd (snd e))"
proof -
  have "if finished cur s then site_removed fst (\<lambda>e. fst (snd e)) (\<lambda>e. snd (snd e)) s e (k_updateSite home_kube s e)
      else site_stored fst (\<lambda>e. fst (snd e)) (\<lambda>e. snd (snd e)) (s\<lparr>site_status := site_status cur\<rparr>) e (k_updateSite home_kube s e)"
    if cur: "fst e (site_key s) = Some cur" "other_finalizers cur s" "defaulted (site_spec cur) = site_spec cur" for s cur e
  proof -
    have "site_spec s = site_spec cur"
      using other_finalizersD [OF cur(2)] by simp
    moreover have "version_of cur = version_of s"
      using cur(2) unfolding other_finalizers_def by (metis object_meta.select_convs(7) object_meta.surjective object_meta.update_convs(5))
    ultimately show ?thesis
      using cur(1,3) by (auto simp: home_kube_def home_store_def site_removed_def site_stored_def Let_def site_spec_same)
  qed
  moreover have "fst (k_getSite home_kube ns n e) = Inr s \<and>
      unchanged fst (\<lambda>e. fst (snd e)) (\<lambda>e. snd (snd e)) e (snd (k_getSite home_kube ns n e))"
    if "fst e (ns, n) = Some s" for ns n e s
    using that by (simp add: home_kube_def mem_get_def unchanged_def)
  moreover have "site_stored fst (\<lambda>e. fst (snd e)) (\<lambda>e. snd (snd e)) (cur\<lparr>site_status := site_status s\<rparr>) e
      (k_statusUpdate home_kube s e)"
    if "fst e (site_key s) = Some cur" "site_key cur = site_key s" "version_of cur = version_of s" for s cur e
    using that by (auto simp: home_kube_def site_stored_def Let_def)
  ultimately show ?thesis
    unfolding own_sites_def by blast
qed

lemma home_own_secrets: "own_secrets home_rules home_kube fst (\<lambda>e. fst (snd e)) (\<lambda>e. snd (snd e))"
  by (auto simp: own_secrets_def home_kube_def mem_get_def unchanged_def secret_stored_def secret_refused_def
      home_keep_def Let_def secret_key_def not_found_def split: option.splits)

lemma home_mysql: "mysql_comes_up home_rules home_drv cfg fst (\<lambda>e. fst (snd e)) (\<lambda>e. snd (snd e))"
  by (auto simp: mysql_comes_up_def mysql_answers_def home_drv_def calm_drv_def unchanged_def home_rules_def drop_stmts_def)

lemma home_operates:
  "operates home_rules (operator_reconciler g home_kube home_drv) home_drv (operator_mysql g)
     fst (\<lambda>e. fst (snd e)) (\<lambda>e. snd (snd e))"
proof -
  have "own_rest home_rules home_kube (unchanged fst (\<lambda>e. fst (snd e)) (\<lambda>e. snd (snd e)))"
    by (auto simp: own_rest_def home_kube_def calm_kube_def mem_kube_def unchanged_def)
  moreover have "owner_only home_kube"
    by (simp add: owner_only_def home_kube_def calm_kube_def mem_kube_def)
  moreover have "finalizer_laws home_kube"
    using mem_finalizer_laws by (simp add: finalizer_laws_def home_kube_def calm_kube_def)
  ultimately show ?thesis
    using home_own_sites home_own_secrets home_mysql
    by (simp add: operates_def own_cluster_def operator_reconciler_def)
qed

text \<open>The sample site as it is stored.\<close>

definition home_site :: site where
  "home_site = sample_site\<lparr>site_spec := defaulted (site_spec sample_site)\<rparr>"

lemma home_site_simps [simp]:
  "site_ns home_site = ''wordpress-sites''" "site_name home_site = ''blog-acme''"
  "m_deletion (site_meta home_site) = None" "\<not> sp_suspend (site_spec home_site)"
  "defaulted (site_spec home_site) = site_spec home_site"
  by (simp_all add: home_site_def sample_site_def new_site_def new_meta_def empty_spec_def defaulted_def)

text \<open>The generated names do not depend on the defaults.\<close>

lemma defaulted_names:
  "DatabaseName (s\<lparr>site_spec := defaulted sp\<rparr>) = DatabaseName (s\<lparr>site_spec := sp\<rparr>)"
  "DatabaseUser (s\<lparr>site_spec := defaulted sp\<rparr>) = DatabaseUser (s\<lparr>site_spec := sp\<rparr>)"
  "DatabaseHost (s\<lparr>site_spec := defaulted sp\<rparr>) = DatabaseHost (s\<lparr>site_spec := sp\<rparr>)"
  by (simp_all add: DatabaseName_def DatabaseUser_def DatabaseHost_def defaulted_def)

lemma home_names:
  assumes "no_override s"
  shows "wr_names home_rules (DatabaseName s) (DatabaseUser s) (DatabaseHost s)"
  using assms length_truncate [of _ 64] length_truncate [of _ 32]
  by (simp add: home_rules_def no_override_def DatabaseName_def DatabaseUser_def DatabaseHost_def)

lemma home_takes_on: "takes_on home_rules r home_site"
proof -
  have "no_override sample_site"
    by (simp add: no_override_def sample_site_def new_site_def empty_spec_def)
  moreover have "sample_site\<lparr>site_spec := site_spec sample_site\<rparr> = sample_site"
    by simp
  then have "DatabaseName home_site = DatabaseName sample_site" "DatabaseUser home_site = DatabaseUser sample_site"
    "DatabaseHost home_site = DatabaseHost sample_site"
    unfolding home_site_def defaulted_names by simp_all
  moreover have "wr_secret home_rules key" "list_all (wr_object home_rules) bs" for key bs
    by (simp_all add: home_rules_def list_all_iff)
  ultimately show ?thesis
    using no_override_idents home_names by (simp add: takes_on_def)
qed

abbreviation home_world :: "sites \<Rightarrow> nat \<Rightarrow> home state_of" where
  "home_world v d \<equiv> \<lparr>env = (v, Map.empty, d), trace = []\<rparr>"

theorem sites_become_ready_witness:
  "case run_state (until_settled 9 (operator_reconciler (\<lambda>_. []) home_kube home_drv)
       ''wordpress-sites'' ''blog-acme'') (home_world [(''wordpress-sites'', ''blog-acme'') \<mapsto> home_site] 3) of
     (rounds, w') \<Rightarrow> rounds = Some (replicate 3 (retry_after 15) @ [done_with None]) \<and>
       (\<exists>s' y. same_site home_site s' \<and>
       standing fst (\<lambda>e. fst (snd e)) (\<lambda>e. snd (snd e)) s' (Some y) 0 w' \<and>
       Finalizer \<in> set (m_finalizers (site_meta s')) \<and> secret_complete (sec_data y) \<and> ready_site s')"
  using sites_become_ready [OF home_operates home_takes_on,
      of None 3 "home_world [(''wordpress-sites'', ''blog-acme'') \<mapsto> home_site] 3" 9]
  by (simp add: standing_def)

end
