(* ===== verification/Deletion.thy ===== *)
theory Deletion
imports Convergence
begin

text \<open>
  Deletions on a cluster of one's own: the counterpart of \<open>sites_become_ready\<close> for a site that is
  being deleted, with \<open>DropDataOnDelete\<close>.
\<close>

section \<open>One round\<close>

text \<open>
  A site that is being deleted and holds only the operator's finalizer, with the defaults of the schema
  in its stored spec, identifiers that pass the check, and a database, user and host MySQL accepts.
\<close>

definition going :: "'e world_rules \<Rightarrow> site \<Rightarrow> bool" where
  "going W s \<longleftrightarrow> \<not> time_ptr_is_zero (m_deletion (site_meta s)) \<and> m_finalizers (site_meta s) = [Finalizer] \<and>
     valid_ident (DatabaseName s) \<and> valid_ident (DatabaseUser s) \<and> defaulted (site_spec s) = site_spec s \<and>
     wr_names W (DatabaseName s) (DatabaseUser s) (DatabaseHost s)"

definition dropped :: "site \<Rightarrow> 'e state_of \<Rightarrow> bool" where
  "dropped s w \<longleftrightarrow> (CDropDatabase (DatabaseName s) (DatabaseUser s) (DatabaseHost s), None) \<in> set (trace w)"

text \<open>
  After a round: nothing has changed but the ping, and no \<open>DropDatabase\<close> more has succeeded (\<open>was\<close>: one
  had before), or the database and the site are gone.
\<close>

definition drop_round ::
  "('e \<Rightarrow> sites) \<Rightarrow> ('e \<Rightarrow> secrets) \<Rightarrow> ('e \<Rightarrow> nat) \<Rightarrow> site \<Rightarrow> secret option \<Rightarrow> nat \<Rightarrow> bool \<Rightarrow>
     reconcile_out \<Rightarrow> 'e state_of \<Rightarrow> bool" where
  "drop_round vs vx down s x d was out w \<longleftrightarrow>
     (if d = 0 then out = done_with None \<and> vs (env w) (site_key s) = None \<and> dropped s w
      else out = retry_after 15 \<and> standing vs vx down s x (d - 1) w \<and> (dropped s w \<longleftrightarrow> was))"

lemma dropped_by_drop:
  assumes "r_db r = mysql_provisioner q cfg" and "run_state (dropDatabase r s) w = (a, w')"
  shows "dropped s w' \<longleftrightarrow> dropped s w \<or> a = Inr ()"
proof -
  obtain w1 where w1: "run_state (DropDatabase q cfg (DatabaseName s) (DatabaseUser s) (DatabaseHost s)) w = (a, w1)"
    "trace w' = trace w1 @ [(CDropDatabase (DatabaseName s) (DatabaseUser s) (DatabaseHost s), err_of a)]"
    using assms by (auto simp: dropDatabase_def mysql_provisioner_def run_simps split: prod.splits)
  obtain l where l: "trace w1 = trace w @ l" "list_all db_driver_call l"
    using emits_DropDatabase w1(1) by (rule emitsE)
  have "c \<notin> set l" if "\<not> db_driver_call c" for c
    using l(2) that by (auto simp: list_all_iff)
  then show ?thesis
    using w1(2) l(1) by (cases a) (auto simp: dropped_def)
qed

lemma own_remove:
  assumes "operates W r q cfg vs vx down" and "going W s"
  shows "holds (\<lambda>w. standing vs vx down s x d w \<and> dropped s w)
     (updateSiteObj (r_kube r) (k_removeFinalizer (r_kube r) s Finalizer))
     (\<lambda>a w. (\<exists>s'. a = Inr s') \<and> vs (env w) (site_key s) = None \<and> dropped s w)"
  unfolding client_defs
proof (rule holds_call)
  let ?s = "k_removeFinalizer (r_kube r) s Finalizer"
  fix w a e
  assume w: "standing vs vx down s x d w \<and> dropped s w" and a: "k_updateSite (r_kube r) ?s (env w) = (a, e)"
  have s: "?s = s\<lparr>site_meta := (site_meta s)\<lparr>m_finalizers := []\<rparr>\<rparr>"
    using operatesD(6) [OF assms(1)] assms(2) by (simp add: finalizer_laws_def going_def)
  have "finished s ?s"
    using assms(2) by (cases "m_deletion (site_meta s)") (auto simp: finished_def s going_def)
  moreover have "vs (env w) (site_key ?s) = Some s" "other_finalizers s ?s" "defaulted (site_spec s) = site_spec s"
    using w assms(2) by (simp_all add: s standing_def other_finalizers_def going_def)
  ultimately have "site_removed vs vx down ?s (env w) (k_updateSite (r_kube r) ?s (env w))"
    using operatesD(1) [OF assms(1), unfolded own_sites_def, THEN conjunct2, THEN conjunct1, rule_format, of "env w" ?s s]
    by simp
  then show "(\<exists>s'. a = Inr s') \<and>
      vs (env (w\<lparr>env := e, trace := trace w @ [(CUpdateSite ?s, err_of a)]\<rparr>)) (site_key s) = None \<and>
      dropped s (w\<lparr>env := e, trace := trace w @ [(CUpdateSite ?s, err_of a)]\<rparr>)"
    using a w by (auto simp: site_removed_def s dropped_def)
qed

lemma own_drop:
  assumes "operates W r q cfg vs vx down" and "going W s"
  shows "holds (standing vs vx down s x d) (dropDatabase r s) (after_ping vs vx down s x d)"
proof -
  have "holds (standing vs vx down s x d) (DropDatabase q cfg (DatabaseName s) (DatabaseUser s) (DatabaseHost s))
      (after_ping vs vx down s x d)"
    using assms(2) by (intro own_EnsureDatabase(2) [OF operatesD(4) [OF assms(1)]]) (simp_all add: going_def)
  moreover have eq: "d_drop (r_db r) = DropDatabase q cfg"
    using operatesD(8) [OF assms(1)] by (simp add: mysql_provisioner_def)
  ultimately show ?thesis
    unfolding dropDatabase_def eq
    by (intro holds_noted, elim holds_post) (simp add: after_ping_def standing_def)
qed

lemma own_drop_round:
  assumes "operates W r q cfg vs vx down" and "going W s" and "r_dropDataOnDelete r"
    and w: "standing vs vx down s x d w"
    and run: "run_state (Reconcile r (site_ns s) (site_name s)) w = (out, w')"
  shows "drop_round vs vx down s x d (dropped s w) out w'"
proof -
  obtain a w1 where a: "run_state (getSite (r_kube r) (site_ns s) (site_name s)) w = (a, w1)"
    by fastforce
  have a1: "a = Inr s" "standing vs vx down s x d w1"
    using holdsD [OF own_get [OF assms(1)] w a] by simp_all
  have tr: "dropped s w1 \<longleftrightarrow> dropped s w"
    using a by (auto simp: run_simps dropped_def split: prod.splits)
  have del: "run_state (reconcileDelete r s) w1 = (out, w')"
    using run a a1(1) assms(2) by (simp add: Reconcile_def going_def)
  obtain b w2 where b: "run_state (dropDatabase r s) w1 = (b, w2)"
    by fastforce
  note b1 = holdsD [OF own_drop [OF assms(1,2)] a1(2) b]
  note b2 = dropped_by_drop [OF operatesD(8) [OF assms(1)] b]
  have fin: "k_containsFinalizer (r_kube r) s Finalizer"
    using operatesD(6) [OF assms(1)] assms(2) by (simp add: finalizer_laws_def going_def)
  show "drop_round vs vx down s x d (dropped s w) out w'"
  proof (cases b)
    case (Inl e)
    then show ?thesis
      using del b b1 b2 tr fin assms(3)
      by (auto simp: reconcileDelete_def drop_round_def after_ping_def split: if_splits)
  next
    case (Inr u)
    obtain c w3 where c: "run_state (updateSiteObj (r_kube r) (k_removeFinalizer (r_kube r) s Finalizer)) w2 = (c, w3)"
      by fastforce
    have d: "d = 0" "standing vs vx down s x 0 w2 \<and> dropped s w2"
      using b1 b2 Inr by (auto simp: after_ping_def split: if_splits)
    then have "(\<exists>s'. c = Inr s') \<and> vs (env w3) (site_key s) = None \<and> dropped s w3"
      using holdsD [OF own_remove [OF assms(1,2)] _ c] by blast
    then show ?thesis
      using del b c fin assms(3) Inr d(1) by (auto simp: reconcileDelete_def drop_round_def)
  qed
qed

section \<open>Until the site is gone\<close>

text \<open>
  C27. Deletions complete: on the cluster and with the server of C3, with \<open>DropDataOnDelete\<close>, take a site
  that is being deleted and holds only the operator's finalizer, with identifiers that pass the check
  (others are never deleted, C38), a spec with the defaults of the schema and a database, user and host
  that MySQL accepts. When MySQL refuses the first \<open>d\<close> pings, the operator is called \<open>d + 1\<close> times; all
  calls but the last ask for another in 15 seconds, without error. After up to \<open>d\<close> rounds the site is
  still stored as it was and no call of \<open>DropDatabase\<close> for it has succeeded since the start; the last
  round drops the database and then the site is gone.
\<close>

theorem deletions_complete:
  assumes "operates W r q cfg vs vx down" and "going W s" and "r_dropDataOnDelete r"
    and "standing vs vx down s x d w"
  shows "case run_state (until_settled fuel r (site_ns s) (site_name s)) w of (rounds, w') \<Rightarrow>
    if d < fuel
    then rounds = Some (replicate d (retry_after 15) @ [done_with None]) \<and>
      vs (env w') (site_key s) = None \<and> dropped s w'
    else rounds = None \<and> vs (env w') (site_key s) = Some s \<and> (dropped s w' \<longleftrightarrow> dropped s w)"
  using assms(4-)
proof (induction fuel arbitrary: d w)
  case 0
  then show ?case
    by (simp add: standing_def)
next
  case (Suc fuel)
  obtain out w1 where out: "run_state (Reconcile r (site_ns s) (site_name s)) w = (out, w1)"
    by fastforce
  note round = own_drop_round [OF assms(1-3) Suc.prems(1) out]
  show ?case
  proof (cases d)
    case 0
    then show ?thesis
      using out round by (simp add: drop_round_def)
  next
    case (Suc d')
    then have o: "out = retry_after 15" "standing vs vx down s x d' w1" "dropped s w1 \<longleftrightarrow> dropped s w"
      using round by (simp_all add: drop_round_def)
    obtain rounds w2 where r: "run_state (until_settled fuel r (site_ns s) (site_name s)) w1 = (rounds, w2)"
      by fastforce
    then show ?thesis
      using Suc.IH [OF o(2)] out o(1,3) Suc by (auto split: if_splits)
  qed
qed

definition going_site :: site where
  "going_site = home_site\<lparr>site_meta := (site_meta home_site)
     \<lparr>m_finalizers := [Finalizer], m_deletion := Some (At 5)\<rparr>\<rparr>"

definition dropping_env :: getenv where
  "dropping_env key = (if key = ''DROP_DATA_ON_DELETE'' then ''true'' else [])"

theorem deletions_complete_witness:
  "case run_state (until_settled 9 (operator_reconciler dropping_env home_kube home_drv)
       ''wordpress-sites'' ''blog-acme'') (home_world [(''wordpress-sites'', ''blog-acme'') \<mapsto> going_site] 2) of
     (rounds, w') \<Rightarrow> rounds = Some (replicate 2 (retry_after 15) @ [done_with None]) \<and>
       fst (env w') (''wordpress-sites'', ''blog-acme'') = None \<and> dropped going_site w'"
proof -
  have names: "DatabaseName going_site = DatabaseName home_site" "DatabaseUser going_site = DatabaseUser home_site"
    "DatabaseHost going_site = DatabaseHost home_site" "site_ns going_site = ''wordpress-sites''"
    "site_name going_site = ''blog-acme''" "site_spec going_site = site_spec home_site"
    by (simp_all add: going_site_def DatabaseName_def DatabaseUser_def DatabaseHost_def)
  have "going home_rules going_site"
    using home_takes_on [unfolded takes_on_def] by (simp add: going_def names) (simp add: going_site_def)
  moreover have "r_dropDataOnDelete (operator_reconciler dropping_env home_kube home_drv)"
    by (simp add: operator_reconciler_def env_or_def dropping_env_def)
  ultimately show ?thesis
    using deletions_complete [OF home_operates, of going_site dropping_env None 2
        "home_world [(''wordpress-sites'', ''blog-acme'') \<mapsto> going_site] 2" 9]
    by (simp add: standing_def names)
qed

end
