(* ===== verification/Editing.thy ===== *)
theory Editing
imports Convergence DtoProps
begin

text \<open>
  Several administrators, and the operator, on one site. Every edit of the API server reads the site
  and writes it back whole, so an edit that was computed from an old object could undo what another
  wrote in between. It does not: the object written carries the version of the object read, and the
  cluster refuses it when that is no longer the current one. A successful edit is an atomic one.
\<close>

section \<open>The cluster\<close>

text \<open>
  The documented behaviour of the API server on one kind of object, with steps of the others in every
  call. \<open>known e\<close> are the objects stored so far, two different ones of a site never with the same
  version; \<open>log e\<close> are the replacements of stored objects so far, old and new; \<open>ok\<close> is an invariant
  of the environment.
\<close>

definition grows ::
  "('e \<Rightarrow> site set) \<Rightarrow> ('e \<Rightarrow> (site \<times> site) list) \<Rightarrow> ('e \<Rightarrow> bool) \<Rightarrow> 'e \<Rightarrow> 'e \<Rightarrow> bool" where
  "grows known log ok e e' \<longleftrightarrow> (ok e \<longrightarrow> ok e' \<and> known e \<subseteq> known e' \<and> (\<exists>more. log e' = log e @ more))"

definition versions_unique :: "('e \<Rightarrow> site set) \<Rightarrow> ('e \<Rightarrow> bool) \<Rightarrow> bool" where
  "versions_unique known ok \<longleftrightarrow> (\<forall>e. ok e \<longrightarrow> (\<forall>x \<in> known e. \<forall>y \<in> known e.
     site_key x = site_key y \<longrightarrow> version_of x = version_of y \<longrightarrow> x = y))"

text \<open>
  \<open>Update\<close> of a version replaces the object that has it: what is stored has the defaults of the schema in
  its spec, a new version and a generation of the server's choice (a new one when the spec changed), and
  keeps status, creation and deletion time. This is said of requests that carry a version and, when the
  object is being deleted, some finalizer (the update that takes the last one off removes the object).
\<close>

definition stored_as :: "string \<Rightarrow> i64 \<Rightarrow> site \<Rightarrow> site" where
  "stored_as rv gen s = edited rv gen (s\<lparr>site_spec := defaulted (site_spec s)\<rparr>)"

definition server_kept :: "site \<Rightarrow> site \<Rightarrow> site" where
  "server_kept cur s = s\<lparr>site_status := site_status cur, site_meta := (site_meta s)
     \<lparr>m_deletion := m_deletion (site_meta cur), m_creation := m_creation (site_meta cur)\<rparr>\<rparr>"

definition replaced :: "site \<Rightarrow> site \<Rightarrow> site \<Rightarrow> bool" where
  "replaced s cur s' \<longleftrightarrow> site_key cur = site_key s \<and> version_of cur = version_of s \<and>
     (\<exists>rv gen. s' = stored_as rv gen (server_kept cur s))"

definition as_stored :: "site \<Rightarrow> bool" where
  "as_stored s \<longleftrightarrow> version_of s \<noteq> [] \<and> (m_deletion (site_meta s) \<noteq> None \<longrightarrow> m_finalizers (site_meta s) \<noteq> [])"

definition versioned ::
  "'e kube \<Rightarrow> ('e \<Rightarrow> site set) \<Rightarrow> ('e \<Rightarrow> (site \<times> site) list) \<Rightarrow> ('e \<Rightarrow> bool) \<Rightarrow> bool" where
  "versioned k known log ok \<longleftrightarrow> versions_unique known ok \<and>
     (\<forall>ns n e r e'. k_getSite k ns n e = (r, e') \<longrightarrow> grows known log ok e e' \<and>
        (\<forall>s. r = Inr s \<longrightarrow> ok e \<longrightarrow> site_key s = (ns, n) \<and> as_stored s \<and> s \<in> known e')) \<and>
     (\<forall>s e r e'. k_updateSite k s e = (r, e') \<longrightarrow> grows known log ok e e' \<and>
        (\<forall>s'. r = Inr s' \<longrightarrow> ok e \<longrightarrow> as_stored s \<longrightarrow>
           (\<exists>cur more. log e' = log e @ more \<and> (cur, s') \<in> set more \<and> cur \<in> known e' \<and> replaced s cur s')))"

lemma versioned_get:
  assumes "versioned k known log ok" and "k_getSite k ns n e = (r, e')" and "ok e"
  shows "ok e'" and "\<exists>more. log e' = log e @ more"
    and "r = Inr s \<Longrightarrow> site_key s = (ns, n) \<and> as_stored s \<and> s \<in> known e'"
  using assms unfolding versioned_def grows_def by blast+

lemma versioned_update:
  assumes "versioned k known log ok" and "k_updateSite k s e = (r, e')" and "ok e"
  shows "ok e'" and "known e \<subseteq> known e'"
    and "r = Inr s' \<Longrightarrow> as_stored s \<Longrightarrow> \<exists>cur more. log e' = log e @ more \<and> (cur, s') \<in> set more \<and> cur \<in> known e' \<and>
      replaced s cur s'"
  using assms unfolding versioned_def grows_def by blast+

lemma versioned_unique:
  assumes "versioned k known log ok" and "ok e" and "x \<in> known e" "y \<in> known e"
    and "site_key x = site_key y" "version_of x = version_of y"
  shows "x = y"
  using assms unfolding versioned_def versions_unique_def by blast

section \<open>An edit\<close>

text \<open>
  The edit \<open>f\<close> was applied: somewhere between \<open>e\<close> and \<open>e'\<close> the site that was stored at that moment
  was replaced by its image under \<open>f\<close>, with the defaults, a version and a generation from the server,
  and that is what the answer shows.
\<close>

definition applied ::
  "('e \<Rightarrow> (site \<times> site) list) \<Rightarrow> string \<times> string \<Rightarrow> (site \<Rightarrow> site) \<Rightarrow> 'e \<Rightarrow> 'e \<Rightarrow> response \<Rightarrow> bool" where
  "applied log key f e e' rs \<longleftrightarrow> (\<exists>more cur rv gen. log e' = log e @ more \<and> site_key cur = key \<and>
     (cur, stored_as rv gen (f cur)) \<in> set more \<and>
     rs = writeJSON 200 (SiteBody (toDTO (stored_as rv gen (f cur)))))"

text \<open>Edits touch neither the identity, nor the version, the finalizers or the times, nor the status.\<close>

definition proper_edit :: "(site \<Rightarrow> site) \<Rightarrow> bool" where
  "proper_edit f \<longleftrightarrow> (\<forall>s. site_key (f s) = site_key s \<and> version_of (f s) = version_of s \<and>
     site_status (f s) = site_status s \<and> m_finalizers (site_meta (f s)) = m_finalizers (site_meta s) \<and>
     m_deletion (site_meta (f s)) = m_deletion (site_meta s) \<and> m_creation (site_meta (f s)) = m_creation (site_meta s))"

lemma site_status_same: "site_status s = st \<Longrightarrow> s\<lparr>site_status := st\<rparr> = s"
  by auto

lemma server_kept_same:
  "site_status s = site_status cur \<Longrightarrow> m_deletion (site_meta s) = m_deletion (site_meta cur) \<Longrightarrow>
   m_creation (site_meta s) = m_creation (site_meta cur) \<Longrightarrow> server_kept cur s = s"
  by (cases s, cases "site_meta s") (simp add: server_kept_def)

lemma proper_editD:
  assumes "proper_edit f"
  shows "site_key (f s) = site_key s" "version_of (f s) = version_of s" "server_kept s (f s) = f s"
    "as_stored (f s) = as_stored s"
  using assms by (simp_all add: proper_edit_def server_kept_same as_stored_def)

lemma status_200: "rs_code (writeError c m) = 200 \<longleftrightarrow> c = 200" "rs_code (notFoundOr500 e) \<noteq> 200"
  by (simp_all add: notFoundOr500_def writeError_def writeJSON_def)

lemma edit_atomic:
  assumes v: "versioned (sv_kube sv) known log ok" and f: "proper_edit f" and r: "sv_reconcile sv = None"
    and w: "ok (env w)" and run: "run_state (with_site sv n (\<lambda>s. store_site sv (f s))) w = (rs, w')"
    and 200: "rs_code rs = 200"
  shows "applied log (sv_namespace sv, n) f (env w) (env w') rs"
proof -
  obtain g e where g: "k_getSite (sv_kube sv) (sv_namespace sv) n (env w) = (g, e)"
    by fastforce
  with run 200 obtain s where s: "g = Inr s"
    by (cases g) (auto simp: with_site_def fetch_def run_simps status_200)
  obtain u e' where u: "k_updateSite (sv_kube sv) (f s) e = (u, e')"
    by fastforce
  with run 200 g s obtain s' where s': "u = Inr s'"
    by (cases u) (auto simp: with_site_def fetch_def store_site_def run_simps status_200)
  have out: "env w' = e'" "rs = writeJSON 200 (SiteBody (toDTO s'))"
    using run g s u s' r by (auto simp: with_site_def fetch_def store_site_def run_simps maybeReconcile_def reread_def)
  have ok: "ok e" "site_key s = (sv_namespace sv, n)" "s \<in> known e" "as_stored s"
    and m: "\<exists>more. log e = log (env w) @ more"
    using versioned_get [OF v g w] s by blast+
  obtain cur more where cur: "log e' = log e @ more" "(cur, s') \<in> set more" "cur \<in> known e'" "replaced (f s) cur s'"
    using versioned_update(3) [OF v u ok(1) s'] ok(4) proper_editD(4) [OF f, of s] by blast
  have "cur = s"
    using cur(4) ok(3) versioned_update(1,2) [OF v u ok(1)] proper_editD [OF f, of s]
    by (intro versioned_unique [OF v _ cur(3)]) (auto simp: replaced_def)
  then obtain rv gen where "s' = stored_as rv gen (f s)"
    using cur(4) proper_editD(3) [OF f, of s] by (auto simp: replaced_def)
  then show ?thesis
    using m cur(1,2) ok(2) \<open>cur = s\<close> out unfolding applied_def by fastforce
qed

section \<open>The three editing endpoints\<close>

definition form_edit :: "site_dto \<Rightarrow> site \<Rightarrow> site" where
  "form_edit dto s = s\<lparr>site_spec := patched_spec dto (site_spec s)\<rparr>"

definition suspend_edit :: "bool \<Rightarrow> site \<Rightarrow> site" where
  "suspend_edit suspend s = s\<lparr>site_spec := (site_spec s)\<lparr>sp_suspend := suspend\<rparr>\<rparr>"

definition document_edit :: "site \<Rightarrow> site \<Rightarrow> site" where
  "document_edit d s = s\<lparr>site_spec := site_spec d,
     site_meta := (case m_annotations (site_meta d) of
       None \<Rightarrow> site_meta s | Some a \<Rightarrow> (site_meta s)\<lparr>m_annotations := Some a\<rparr>)\<rparr>"

lemma edits_proper: "proper_edit (form_edit dto)" "proper_edit (suspend_edit b)" "proper_edit (document_edit d)"
  by (auto simp: proper_edit_def form_edit_def suspend_edit_def document_edit_def split: option.splits)

text \<open>
  C7. No lost updates: in production (no in-process reconciler, which reads the site again), however
  others write between the read and the write of an edit, a form edit, a suspension and a YAML edit that
  answer 200 have replaced the site that was stored at that moment by the edit of that very site, and
  answer with the result. What the API server of Kubernetes adds to the edit is the defaults of the
  schema, a new version and the generation.
\<close>

theorem edits_are_atomic:
  assumes "versioned (sv_kube sv) known log ok" and "ok (env w)" and "sv_reconcile sv = None"
  shows "(case run_state (updateSite sv n rq) w of (rs, w') \<Rightarrow> rs_code rs = 200 \<longrightarrow>
      (\<exists>dto. cx_site (sv_codec sv) (rq_body rq) = Inr dto \<and>
        applied log (sv_namespace sv, n) (form_edit dto) (env w) (env w') rs)) \<and>
    (case run_state (setSuspend sv b n rq) w of (rs, w') \<Rightarrow> rs_code rs = 200 \<longrightarrow>
      applied log (sv_namespace sv, n) (suspend_edit b) (env w) (env w') rs) \<and>
    (case run_state (updateSiteYAML sv n rq) w of (rs, w') \<Rightarrow> rs_code rs = 200 \<longrightarrow>
      (\<exists>t d. read_limited 1048576 (rq_body rq) = Inr t \<and> cx_yamlSite (sv_codec sv) t = Inr d \<and>
        applied log (sv_namespace sv, n) (document_edit d) (env w) (env w') rs))"
proof -
  note atomic = edit_atomic [OF assms(1) _ assms(3,2)]
  have "\<exists>dto. cx_site (sv_codec sv) (rq_body rq) = Inr dto \<and>
        applied log (sv_namespace sv, n) (form_edit dto) (env w) (env w') rs"
    if "run_state (updateSite sv n rq) w = (rs, w')" and "rs_code rs = 200" for rs w'
    using that atomic [OF edits_proper(1) _ that(2)] unfolding updateSite_def form_edit_def
    by (auto simp: status_200 run_simps split: sum.splits if_splits)
  moreover have "applied log (sv_namespace sv, n) (suspend_edit b) (env w) (env w') rs"
    if "run_state (setSuspend sv b n rq) w = (rs, w')" and "rs_code rs = 200" for rs w'
    using that atomic [OF edits_proper(2) _ that(2)] unfolding setSuspend_def suspend_edit_def by simp
  moreover have "\<exists>t d. read_limited 1048576 (rq_body rq) = Inr t \<and> cx_yamlSite (sv_codec sv) t = Inr d \<and>
        applied log (sv_namespace sv, n) (document_edit d) (env w) (env w') rs"
    if "run_state (updateSiteYAML sv n rq) w = (rs, w')" and "rs_code rs = 200" for rs w'
    using that atomic [OF edits_proper(3) _ that(2)] unfolding updateSiteYAML_def document_edit_def
    by (auto simp: status_200 run_simps split: sum.splits if_splits)
  ultimately show ?thesis
    by (simp split: prod.split)
qed

text \<open>
  A cluster that keeps all versions of one site and its log. At every read another administrator
  suspends the site first.
\<close>

type_synonym desk = "site list \<times> (site \<times> site) list"

definition desk_store :: "site \<Rightarrow> desk \<Rightarrow> site \<times> desk" where
  "desk_store s e =
     (let s' = stored_as (replicate (Suc (length (fst e))) CHR ''v'') (m_generation (site_meta (last (fst e))) + 1) s
      in (s', (fst e @ [s'], snd e @ [(last (fst e), s')])))"

definition desk_kube :: "desk kube" where
  "desk_kube = calm_kube\<lparr>
     k_getSite := (\<lambda>ns n e. if fst e \<noteq> [] \<and> site_key (last (fst e)) = (ns, n)
       then (case desk_store (suspend_edit True (last (fst e))) e of (s, e') \<Rightarrow> (Inr s, e'))
       else (Inl not_found, e)),
     k_updateSite := (\<lambda>s e. if fst e \<noteq> [] \<and> site_key (last (fst e)) = site_key s
       then if version_of (last (fst e)) = version_of s
         then (case desk_store (server_kept (last (fst e)) s) e of (s', e') \<Rightarrow> (Inr s', e'))
         else (Inl conflict, e)
       else (Inl not_found, e))\<rparr>"

definition desk_ok :: "desk \<Rightarrow> bool" where
  "desk_ok e \<longleftrightarrow> (\<forall>i < length (fst e). version_of (fst e ! i) = replicate (Suc i) CHR ''v'' \<and>
     site_key (fst e ! i) = (''wordpress-sites'', ''blog-acme'') \<and> m_deletion (site_meta (fst e ! i)) = None)"

definition desk_server :: "desk server" where
  "desk_server = \<lparr>sv_kube = desk_kube,
     sv_auth = \<lparr>au_pkg = \<lparr>a_bcryptGenerate = \<lambda>p e. (Inr p, e), a_bcryptCompare = \<lambda>h p. h = p,
       a_sign = \<lambda>c key e. (Inr ''token'', e), a_parse = \<lambda>t f e. (Inl (GoErr ''expired''), e)\<rparr>,
       au_kube = desk_kube, au_username = ''admin'', au_passwordHash = ''secret'',
       au_jwtSecret = ''key'', au_ttl = 86400\<rparr>,
     sv_namespace = ''wordpress-sites'', sv_dbHost = ''mysql'', sv_dbPort = ''3306'', sv_metrics = None,
     sv_twoFA = None, sv_reconcile = None, sv_globals = default_globals, sv_codec = sv_codec edit_server\<rparr>"

lemma stored_as_simps [simp]:
  "site_ns (stored_as rv gen s) = site_ns s" "site_name (stored_as rv gen s) = site_name s"
  "version_of (stored_as rv gen s) = rv" "m_deletion (site_meta (stored_as rv gen s)) = m_deletion (site_meta s)"
  by (simp_all add: stored_as_def edited_def)

lemma desk_ok_last:
  assumes "desk_ok e" and "fst e \<noteq> []"
  shows "m_deletion (site_meta (last (fst e))) = None"
  using assms by (simp add: desk_ok_def last_conv_nth)

lemma desk_store_ok:
  assumes "desk_store s e = (s', e')" and "fst e \<noteq> []"
  shows "\<exists>rv gen. rv \<noteq> [] \<and> s' = stored_as rv gen s" "s' \<in> set (fst e')"
    and "set (fst e) \<subseteq> set (fst e')" "last (fst e) \<in> set (fst e')" "snd e' = snd e @ [(last (fst e), s')]"
    and "desk_ok e \<Longrightarrow> site_key s = site_key (last (fst e)) \<Longrightarrow> m_deletion (site_meta s) = None \<Longrightarrow> desk_ok e'"
  using assms
  by (force simp: desk_store_def Let_def, auto simp: desk_store_def Let_def desk_ok_def nth_append less_Suc_eq last_conv_nth)

lemma desk_get:
  assumes "k_getSite desk_kube ns n e = (r, e')"
  shows "(\<exists>x. r = Inl x) \<and> e' = e \<or> (\<exists>s. r = Inr s \<and> fst e \<noteq> [] \<and> site_key (last (fst e)) = (ns, n) \<and>
    desk_store (suspend_edit True (last (fst e))) e = (s, e'))"
  using assms by (auto simp: desk_kube_def split: if_splits prod.splits)

lemma desk_update:
  assumes "k_updateSite desk_kube s e = (r, e')"
  shows "(\<exists>x. r = Inl x) \<and> e' = e \<or> (\<exists>s'. r = Inr s' \<and> fst e \<noteq> [] \<and> site_key (last (fst e)) = site_key s \<and>
    version_of (last (fst e)) = version_of s \<and> desk_store (server_kept (last (fst e)) s) e = (s', e'))"
  using assms by (auto simp: desk_kube_def split: if_splits prod.splits)

lemma desk_get_law:
  assumes "k_getSite desk_kube ns n e = (r, e')"
  shows "grows (\<lambda>e. set (fst e)) snd desk_ok e e' \<and>
      (\<forall>s. r = Inr s \<longrightarrow> desk_ok e \<longrightarrow> site_key s = (ns, n) \<and> as_stored s \<and> s \<in> set (fst e'))"
  using desk_get [OF assms]
proof (elim disjE exE conjE)
  fix s assume s: "r = Inr s" "fst e \<noteq> []" "site_key (last (fst e)) = (ns, n)"
    and st: "desk_store (suspend_edit True (last (fst e))) e = (s, e')"
  obtain rv gen where "rv \<noteq> []" "s = stored_as rv gen (suspend_edit True (last (fst e)))"
    using desk_store_ok(1) [OF st s(2)] by blast
  then have "desk_ok e \<Longrightarrow> as_stored s" "site_key s = (ns, n)"
    using s(3) desk_ok_last [OF _ s(2)] by (auto simp: as_stored_def suspend_edit_def)
  then show ?thesis
    using desk_store_ok(2-6) [OF st s(2)] s(1) desk_ok_last [OF _ s(2)] by (auto simp: grows_def suspend_edit_def)
qed (simp add: grows_def)

lemma desk_update_law:
  assumes "k_updateSite desk_kube s e = (r, e')"
  shows "grows (\<lambda>e. set (fst e)) snd desk_ok e e' \<and> (\<forall>s'. r = Inr s' \<longrightarrow> desk_ok e \<longrightarrow> as_stored s \<longrightarrow>
      (\<exists>cur more. snd e' = snd e @ more \<and> (cur, s') \<in> set more \<and> cur \<in> set (fst e') \<and> replaced s cur s'))"
  using desk_update [OF assms]
proof (elim disjE exE conjE)
  fix s' assume s: "r = Inr s'" "fst e \<noteq> []" "site_key (last (fst e)) = site_key s"
      "version_of (last (fst e)) = version_of s"
    and st: "desk_store (server_kept (last (fst e)) s) e = (s', e')"
  have "replaced s (last (fst e)) s'"
    using desk_store_ok(1) [OF st s(2)] s(3,4) by (auto simp: replaced_def)
  moreover have "desk_ok e \<Longrightarrow> desk_ok e'"
    using desk_store_ok(6) [OF st s(2)] s(3) desk_ok_last [OF _ s(2)] by (simp add: server_kept_def)
  ultimately show ?thesis
    using desk_store_ok(2-5) [OF st s(2)] s(1) by (auto simp: grows_def)
qed (simp add: grows_def)

lemma desk_versioned: "versioned desk_kube (\<lambda>e. set (fst e)) snd desk_ok"
proof -
  have "versions_unique (\<lambda>e :: desk. set (fst e)) desk_ok"
    by (auto simp: versions_unique_def desk_ok_def in_set_conv_nth)
  then show ?thesis
    unfolding versioned_def using desk_get_law desk_update_law by blast
qed

definition desk_world :: "desk state_of" where
  "desk_world = \<lparr>env = ([bumped ''v'' home_site], []), trace = []\<rparr>"

lemma desk_server_simps [simp]:
  "sv_kube desk_server = desk_kube" "sv_reconcile desk_server = None"
  "sv_namespace desk_server = ''wordpress-sites''" "cx_site (sv_codec desk_server) b = Inr edit_form"
  by (simp_all add: desk_server_def edit_server_def)

lemma desk_form_edit_succeeds:
  "rs_code (fst (run_state (updateSite desk_server ''blog-acme'' edit_request) desk_world)) = 200"
proof -
  have "sd_domain edit_form \<noteq> []"
    by (simp add: edit_form_def toDTO_def sample_site_def new_site_def empty_spec_def)
  then show ?thesis
    by (simp add: updateSite_def with_site_def fetch_def store_site_def run_simps maybeReconcile_def reread_def
        desk_world_def desk_kube_def desk_store_def Let_def suspend_edit_def writeJSON_def stored_as_def edited_def)
qed

theorem edits_are_atomic_witness:
  "case run_state (updateSite desk_server ''blog-acme'' edit_request) desk_world of (rs, w') \<Rightarrow>
     rs_code rs = 200 \<and>
     applied snd (''wordpress-sites'', ''blog-acme'') (form_edit edit_form) ([bumped ''v'' home_site], []) (env w') rs"
proof -
  have "desk_ok (env desk_world)"
    by (simp add: desk_ok_def desk_world_def bumped_def)
  then show ?thesis
    using edits_are_atomic [where sv = desk_server and known = "\<lambda>e. set (fst e)" and log = snd and ok = desk_ok
        and w = desk_world and n = "''blog-acme''" and rq = edit_request] desk_versioned desk_form_edit_succeeds
    by (auto simp: desk_world_def split: prod.splits)
qed

end
