(* ===== verification/EndToEnd.thy ===== *)
theory EndToEnd
imports Deletion Editing
begin

text \<open>
  The two programs together: a request to the API server changes the stored resource, and the
  operator, called for it until it asks for nothing more, makes the change effective.
\<close>

section \<open>Creating and editing\<close>

text \<open>
  What the API server of Kubernetes stores. \<open>Create\<close> of a site that it admits, under a name that is free,
  stores it with the defaults of the schema, not being deleted; an \<open>Update\<close> of the current version that
  changes nothing but the spec, to one it admits, stores the new spec with the defaults, a new version and
  a generation of its choice.
\<close>

definition admitted :: "site \<Rightarrow> site \<Rightarrow> bool" where
  "admitted s s' \<longleftrightarrow> site_key s' = site_key s \<and> m_deletion (site_meta s') = None \<and>
     site_spec s' = defaulted (site_spec s)"

definition own_edits :: "'e world_rules \<Rightarrow> 'e kube \<Rightarrow> ('e \<Rightarrow> sites) \<Rightarrow> ('e \<Rightarrow> secrets) \<Rightarrow> ('e \<Rightarrow> nat) \<Rightarrow> bool" where
  "own_edits W k vs vx down \<longleftrightarrow>
     (\<forall>s e r e'. vs e (site_key s) = None \<longrightarrow> version_of s = [] \<longrightarrow> wr_site W (site_key s) (site_spec s) \<longrightarrow>
        k_createSite k s e = (r, e') \<longrightarrow> vx e' = vx e \<and> down e' = down e \<and>
        (\<exists>s'. r = Inr s' \<and> admitted s s' \<and> vs e' = (vs e)(site_key s \<mapsto> s'))) \<and>
     (\<forall>s e cur r e'. vs e (site_key s) = Some cur \<longrightarrow> site_meta s = site_meta cur \<longrightarrow>
        m_deletion (site_meta cur) = None \<longrightarrow> defaulted (site_spec cur) = site_spec cur \<longrightarrow>
        wr_site W (site_key s) (site_spec s) \<longrightarrow> k_updateSite k s e = (r, e') \<longrightarrow>
        vx e' = vx e \<and> down e' = down e \<and>
        (\<exists>rv gen. r = Inr (stored_as rv gen (s\<lparr>site_status := site_status cur\<rparr>)) \<and>
           vs e' = (vs e)(site_key s \<mapsto> stored_as rv gen (s\<lparr>site_status := site_status cur\<rparr>))))"

text \<open>The API server on the cluster of the operator, in production.\<close>

definition shares_cluster ::
  "'e world_rules \<Rightarrow> 'e server \<Rightarrow> 'e reconciler \<Rightarrow> ('e \<Rightarrow> sites) \<Rightarrow> ('e \<Rightarrow> secrets) \<Rightarrow> ('e \<Rightarrow> nat) \<Rightarrow> bool" where
  "shares_cluster W sv r vs vx down \<longleftrightarrow>
     sv_kube sv = r_kube r \<and> sv_reconcile sv = None \<and> own_edits W (r_kube r) vs vx down"

lemma own_editsD:
  assumes "own_edits W k vs vx down"
  shows "vs e (site_key s) = None \<Longrightarrow> version_of s = [] \<Longrightarrow> wr_site W (site_key s) (site_spec s) \<Longrightarrow>
      k_createSite k s e = (r, e') \<Longrightarrow> vx e' = vx e \<and> down e' = down e \<and>
      (\<exists>s'. r = Inr s' \<and> admitted s s' \<and> vs e' = (vs e)(site_key s \<mapsto> s'))"
    and "vs e (site_key s) = Some cur \<Longrightarrow> site_meta s = site_meta cur \<Longrightarrow> m_deletion (site_meta cur) = None \<Longrightarrow>
      defaulted (site_spec cur) = site_spec cur \<Longrightarrow> wr_site W (site_key s) (site_spec s) \<Longrightarrow>
      k_updateSite k s e = (r, e') \<Longrightarrow> vx e' = vx e \<and> down e' = down e \<and>
      (\<exists>rv gen. r = Inr (stored_as rv gen (s\<lparr>site_status := site_status cur\<rparr>)) \<and>
        vs e' = (vs e)(site_key s \<mapsto> stored_as rv gen (s\<lparr>site_status := site_status cur\<rparr>)))"
  using assms unfolding own_edits_def by blast+

lemma shares_clusterD:
  assumes "shares_cluster W sv r vs vx down"
  shows "sv_kube sv = r_kube r" "sv_reconcile sv = None" "own_edits W (r_kube r) vs vx down"
  using assms by (simp_all add: shares_cluster_def)

lemma SecretName_key: "site_key s' = site_key s \<Longrightarrow> SecretName s' = SecretName s"
  by (simp add: SecretName_def)

section \<open>A site is created\<close>

text \<open>
  The site of a form as it will be stored, and what must be said of it: the cluster admits it, its Secret
  and its objects, and MySQL its database, user and host.
\<close>

definition stored_form :: "site_dto \<Rightarrow> string \<Rightarrow> site" where
  "stored_form dto ns = (toSite dto ns)\<lparr>site_spec := defaulted (site_spec (toSite dto ns))\<rparr>"

definition form_accepted :: "'e world_rules \<Rightarrow> 'e reconciler \<Rightarrow> string \<Rightarrow> site_dto \<Rightarrow> bool" where
  "form_accepted W r ns dto \<longleftrightarrow> (let s = stored_form dto ns in
     wr_site W (site_key s) (site_spec (toSite dto ns)) \<and>
     wr_names W (DatabaseName s) (DatabaseUser s) (DatabaseHost s) \<and> wr_secret W (site_ns s, SecretName s) \<and>
     list_all (wr_object W) (desired_objects r s))"

lemma stored_form_simps [simp]:
  "site_ns (stored_form dto ns) = ns" "site_name (stored_form dto ns) = sd_name dto"
  by (simp_all add: stored_form_def toSite_def new_site_def new_meta_def)

lemma admitted_takes_on:
  assumes "admitted (toSite dto ns) s'" and "form_accepted W r ns dto"
  shows "takes_on W r s'" and "site_key s' = (ns, sd_name dto)" and "sp_domain (site_spec s') = sd_domain dto"
proof -
  let ?t = "toSite dto ns" and ?s = "stored_form dto ns"
  have "no_override ?t"
    by (simp add: no_override_def toSite_def new_site_def empty_spec_def)
  note idents = no_override_idents [OF this]
  have names: "DatabaseName ?s = DatabaseName ?t" "DatabaseUser ?s = DatabaseUser ?t"
    using defaulted_names [of "site_spec ?t" ?t] by (simp_all add: stored_form_def)
  have same: "site_key s' = site_key ?s" "site_spec s' = site_spec ?s"
    using assms(1) by (simp_all add: admitted_def stored_form_def)
  then have as_form: "DatabaseName s' = DatabaseName ?s" "DatabaseUser s' = DatabaseUser ?s"
    "DatabaseHost s' = DatabaseHost ?s" "SecretName s' = SecretName ?s"
    by (simp_all add: DatabaseName_def DatabaseUser_def DatabaseHost_def SecretName_def)
  have "m_deletion (site_meta s') = None" "\<not> sp_suspend (site_spec s')"
    using assms by (auto simp: admitted_def toSite_def new_site_def new_meta_def empty_spec_def defaulted_def)
  moreover have "defaulted (site_spec s') = site_spec s'"
    using assms(1) by (simp add: admitted_def)
  ultimately show "takes_on W r s'"
    using assms(2) idents names as_form same desired_objects_same [OF same, of r]
    by (simp add: takes_on_def form_accepted_def Let_def)
  show "site_key s' = (ns, sd_name dto)" "sp_domain (site_spec s') = sd_domain dto"
    using assms by (auto simp: admitted_def toSite_def new_site_def new_meta_def empty_spec_def defaulted_def)
qed

text \<open>
  C5. From the form to a running site: on a shared cluster as in C3, in production, take a form with a
  name that is free and a domain, whose site the cluster admits, with its Secret and its objects, and
  whose generated database and user MySQL accepts. It is answered with 201, and the operator is called
  \<open>d + 1\<close> times when MySQL refuses the first \<open>d\<close> pings, all but the last answering the 15 second delay;
  then the stored site has the domain of the form and is \<open>Ready\<close> for its generation, its Secret is
  complete, and its finalizer is in place.
\<close>

theorem created_sites_become_ready:
  assumes "operates W r q cfg vs vx down" and "shares_cluster W sv r vs vx down"
    and "cx_site (sv_codec sv) (rq_body rq) = Inr dto" and "sd_name dto \<noteq> []" and "sd_domain dto \<noteq> []"
    and "vs (env w) (sv_namespace sv, sd_name dto) = None" and "down (env w) < fuel"
    and "form_accepted W r (sv_namespace sv) dto"
  shows "case run_state (createSite sv n rq) w of (rs, w1) \<Rightarrow> rs_code rs = 201 \<and>
    (case run_state (until_settled fuel r (sv_namespace sv) (sd_name dto)) w1 of (rounds, w2) \<Rightarrow>
      rounds = Some (replicate (down (env w)) (retry_after 15) @ [done_with None]) \<and>
      (\<exists>s y. vs (env w2) (sv_namespace sv, sd_name dto) = Some s \<and> ready_site s \<and>
        sp_domain (site_spec s) = sd_domain dto \<and> Finalizer \<in> set (m_finalizers (site_meta s)) \<and>
        vx (env w2) (sv_namespace sv, SecretName s) = Some y \<and> secret_complete (sec_data y)))"
proof -
  let ?s = "toSite dto (sv_namespace sv)"
  obtain x e where x: "k_createSite (r_kube r) ?s (env w) = (x, e)"
    by fastforce
  have key: "site_key ?s = (sv_namespace sv, sd_name dto)" and new: "version_of ?s = []"
    by (simp_all add: toSite_def new_site_def new_meta_def)
  have "wr_site W (site_key ?s) (site_spec ?s)"
    using assms(8) by (simp add: form_accepted_def stored_form_def Let_def)
  then obtain s' where s': "x = Inr s'" "admitted ?s s'" "vs e = (vs (env w))(site_key ?s \<mapsto> s')" "down e = down (env w)"
    using own_editsD(1) [OF shares_clusterD(3) [OF assms(2)] _ new _ x] key assms(6) by auto
  note a = admitted_takes_on [OF s'(2) assms(8)]
  let ?w = "w\<lparr>env := e, trace := trace w @ [(CCreateSite ?s, None)]\<rparr>"
  have create: "run_state (createSite sv n rq) w = (writeJSON 201 (SiteBody (toDTO s')), ?w)"
    using assms(2-5) x s'(1)
    by (simp add: createSite_def run_simps shares_cluster_def maybeReconcile_def reread_def)
  have st: "standing vs vx down s' (vx e (site_ns s', SecretName s')) (down (env w)) ?w"
    using s' a(2) key by (simp add: standing_def)
  obtain rounds w2 where run: "run_state (until_settled fuel r (sv_namespace sv) (sd_name dto)) ?w = (rounds, w2)"
    by fastforce
  have "rounds = Some (waits_then_done (down (env w))) \<and> (\<exists>t y. same_site s' t \<and> standing vs vx down t (Some y) 0 w2 \<and>
      Finalizer \<in> set (m_finalizers (site_meta t)) \<and> secret_complete (sec_data y) \<and> ready_site t)"
    using settles_ready [OF assms(1) a(1) st assms(7)] a(2) run by simp
  moreover have "vs (env w2) (sv_namespace sv, sd_name dto) = Some t \<and> ready_site t \<and>
      sp_domain (site_spec t) = sd_domain dto \<and> vx (env w2) (sv_namespace sv, SecretName t) = Some y"
    if "same_site s' t" "standing vs vx down t (Some y) 0 w2" "ready_site t" for t y
    using that a(2,3) by (auto simp: same_site_def standing_def)
  ultimately show ?thesis
    unfolding create using run by (auto simp: writeJSON_def waits_then_done_def)
qed

section \<open>A site is suspended and resumed\<close>

text \<open>
  A site that can be suspended and resumed: it is not being deleted, its identifiers pass the check, its
  spec has the defaults, and the cluster and MySQL accept it with its Secret and its objects both ways.
\<close>

definition switchable :: "'e world_rules \<Rightarrow> 'e reconciler \<Rightarrow> site \<Rightarrow> bool" where
  "switchable W r s \<longleftrightarrow> m_deletion (site_meta s) = None \<and>
     valid_ident (DatabaseName s) \<and> valid_ident (DatabaseUser s) \<and> defaulted (site_spec s) = site_spec s \<and>
     wr_names W (DatabaseName s) (DatabaseUser s) (DatabaseHost s) \<and> wr_secret W (site_ns s, SecretName s) \<and>
     list_all (\<lambda>b. wr_site W (site_key s) (site_spec (suspend_edit b s)) \<and>
       list_all (wr_object W) (desired_objects r (suspend_edit b s))) [True, False]"

lemma edited_simps [simp]:
  "site_ns (edited rv gen s) = site_ns s" "site_name (edited rv gen s) = site_name s" "site_spec (edited rv gen s) = site_spec s"
  "m_deletion (site_meta (edited rv gen s)) = m_deletion (site_meta s)"
  by (simp_all add: edited_def)

lemma suspend_edit_simps [simp]:
  "site_ns (suspend_edit b s) = site_ns s" "site_name (suspend_edit b s) = site_name s"
  "site_meta (suspend_edit b s) = site_meta s" "site_status (suspend_edit b s) = site_status s"
  "site_spec (suspend_edit b s) = (site_spec s)\<lparr>sp_suspend := b\<rparr>"
  by (simp_all add: suspend_edit_def)

lemma defaulted_suspend [simp]: "defaulted (sp\<lparr>sp_suspend := b\<rparr>) = (defaulted sp)\<lparr>sp_suspend := b\<rparr>"
  by (simp add: defaulted_def)

lemma stored_suspend_edit:
  assumes "defaulted (site_spec s) = site_spec s"
  shows "stored_as rv gen (suspend_edit b s) = edited rv gen (suspend_edit b s)"
  using assms by (simp add: stored_as_def suspend_edit_def)

lemma switchableD:
  assumes "switchable W r s"
  shows "m_deletion (site_meta s) = None" "defaulted (site_spec s) = site_spec s"
    "wr_site W (site_key s) (site_spec (suspend_edit b s))" "list_all (wr_object W) (desired_objects r (suspend_edit b s))"
  using assms by (cases b; simp add: switchable_def)+

lemma switchable_cong:
  assumes "switchable W r s" and "site_key t = site_key s" and "site_spec t = (site_spec s)\<lparr>sp_suspend := b\<rparr>"
    and "m_deletion (site_meta t) = None"
  shows "switchable W r t"
proof -
  have names: "DatabaseName t = DatabaseName s" "DatabaseUser t = DatabaseUser s" "DatabaseHost t = DatabaseHost s"
    "SecretName t = SecretName s"
    using assms(2,3) by (simp_all add: DatabaseName_def DatabaseUser_def DatabaseHost_def SecretName_def)
  have "desired_objects r (suspend_edit b' t) = desired_objects r (suspend_edit b' s)" for b'
    using assms(2,3) by (intro desired_objects_same) simp_all
  then show ?thesis
    using assms names by (simp add: switchable_def)
qed

lemma switchable_takes_on:
  assumes "switchable W r s" and "site_key t = site_key s" and "site_spec t = (site_spec s)\<lparr>sp_suspend := False\<rparr>"
    and "m_deletion (site_meta t) = None"
  shows "takes_on W r t"
proof -
  have "desired_objects r t = desired_objects r (suspend_edit False s)"
    using assms(2,3) by (intro desired_objects_same) simp_all
  moreover have "\<not> sp_suspend (site_spec t)"
    using assms(3) by simp
  ultimately show ?thesis
    using switchable_cong [OF assms] switchableD(4) [OF assms(1), of False] by (simp add: switchable_def takes_on_def)
qed

lemma stored_edit:
  assumes "shares_cluster W sv r vs vx down" and st: "standing vs vx down s x d w"
    and r: "operates W r q cfg vs vx down" and ok: "switchable W r s" and ns: "sv_namespace sv = site_ns s"
  shows "\<exists>rv gen w1. run_state (setSuspend sv b (site_name s) rq) w =
      (writeJSON 200 (SiteBody (toDTO (edited rv gen (suspend_edit b s)))), w1) \<and>
    standing vs vx down (edited rv gen (suspend_edit b s)) x d w1"
proof -
  let ?f = "suspend_edit b s"
  obtain g w0 where g: "run_state (getSite (r_kube r) (site_ns s) (site_name s)) w = (g, w0)"
    by fastforce
  have g0: "g = Inr s" "standing vs vx down s x d w0"
    using holdsD [OF own_get [OF r] st g] by simp_all
  obtain u e where u: "k_updateSite (r_kube r) ?f (env w0) = (u, e)"
    by fastforce
  have "vs (env w0) (site_key ?f) = Some s" "wr_site W (site_key ?f) (site_spec ?f)"
    using g0(2) switchableD(3) [OF ok, of b] by (simp_all add: standing_def)
  from own_editsD(2) [OF shares_clusterD(3) [OF assms(1)] this(1) _ switchableD(1,2) [OF ok] this(2) u]
  obtain rv gen where "u = Inr (stored_as rv gen (?f\<lparr>site_status := site_status s\<rparr>))"
    "vs e = (vs (env w0))(site_key ?f \<mapsto> stored_as rv gen (?f\<lparr>site_status := site_status s\<rparr>))"
    "vx e = vx (env w0)" "down e = down (env w0)"
    by auto
  moreover have "?f\<lparr>site_status := site_status s\<rparr> = ?f"
    by (simp add: site_status_same)
  ultimately have e: "u = Inr (edited rv gen ?f)" "vs e = (vs (env w0))(site_key ?f \<mapsto> edited rv gen ?f)"
    "vx e = vx (env w0)" "down e = down (env w0)"
    using stored_suspend_edit [OF switchableD(2) [OF ok]] by simp_all
  have "run_state (setSuspend sv b (site_name s) rq) w =
      (writeJSON 200 (SiteBody (toDTO (edited rv gen ?f))), w0\<lparr>env := e, trace := trace w0 @ [(CUpdateSite ?f, None)]\<rparr>)"
    using shares_clusterD(1,2) [OF assms(1)] ns g g0(1) u e(1)
    by (simp add: setSuspend_def with_site_def fetch_def store_site_def run_simps
        maybeReconcile_def reread_def suspend_edit_def)
  moreover have "standing vs vx down (edited rv gen ?f) x d (w0\<lparr>env := e, trace := trace w0 @ [(CUpdateSite ?f, None)]\<rparr>)"
    using e g0(2) SecretName_key [of "edited rv gen ?f" s] by (simp add: standing_def)
  ultimately show ?thesis
    by blast
qed

text \<open>Among the calls, a Deployment with zero replicas was written with success.\<close>

definition scaled_down :: "traced list \<Rightarrow> bool" where
  "scaled_down l \<longleftrightarrow> list_ex (\<lambda>c. snd c = None \<and>
     (case written_object (fst c) of Some (OwnedDeployment dep) \<Rightarrow> dep_replicas dep = 0 | _ \<Rightarrow> False)) l"

text \<open>Among the calls, none went to MySQL.\<close>

definition leaves_mysql :: "traced list \<Rightarrow> bool" where
  "leaves_mysql = list_all (\<lambda>c. \<not> db_driver_call c)"

lemma emits_suspended: "emits (\<lambda>c. \<not> db_driver_call c) (reconcileSuspended r s)"
proof -
  have "emits (\<lambda>c. \<not> db_driver_call c) (apply_obj r s b)" for b
    unfolding apply_obj_def by (intro emits_intros) auto
  then have "emits (\<lambda>c. \<not> db_driver_call c) (apply_each r s bs)" for bs
    by (induction bs) (auto intro!: emits_intros)
  then show ?thesis
    unfolding reconcileSuspended_def reconcileWorkload_def setPhase_def by (auto intro!: emits_intros)
qed

lemma workload_scaled_down:
  assumes "sp_suspend (site_spec s)" and "workload_calls (desired_objects r s) (Inr u) l"
  shows "scaled_down l"
proof -
  obtain c where c: "c \<in> set l" "ReconcileOrder.wrote 1 c"
    using assms(2) by (auto simp: workload_calls_def list_ex_iff)
  then obtain b where b: "written_object (fst c) = Some b" "owned_rank b = 1" "snd c = None"
    by (auto simp: ReconcileOrder.wrote_def writes_def split: option.splits)
  obtain d where d: "d \<in> set (desired_objects r s)" "same_object d b"
    using assms(2) c(1) b(1) by (fastforce simp: workload_calls_def list_all_iff list_ex_iff)
  then have "\<exists>dep. b = OwnedDeployment dep \<and> dep_replicas dep = 0"
    using b(2) assms(1) by (auto simp: desired_objects_def same_object_def DesiredDeployment_def dep_replica_count_def)
  then show ?thesis
    using b c(1) by (auto simp: scaled_down_def list_ex_iff)
qed

definition put_to_sleep ::
  "('e \<Rightarrow> sites) \<Rightarrow> ('e \<Rightarrow> secrets) \<Rightarrow> ('e \<Rightarrow> nat) \<Rightarrow> site \<Rightarrow> secret option \<Rightarrow> nat \<Rightarrow> traced list \<Rightarrow>
     reconcile_out \<Rightarrow> 'e state_of \<Rightarrow> bool" where
  "put_to_sleep vs vx down s x d tr out w \<longleftrightarrow> out = done_with None \<and>
     (\<exists>l. trace w = tr @ l \<and> scaled_down l \<and> leaves_mysql l) \<and>
     (\<exists>s'. same_site s s' \<and> standing vs vx down s' x d w \<and> ss_phase (site_status s') = PhaseSuspended)"

lemma own_suspended:
  assumes "operates W r q cfg vs vx down" and "sp_suspend (site_spec s)" and w: "standing vs vx down s x d w"
    and ok: "list_all (wr_object W) (desired_objects r s)" and run: "run_state (reconcileSuspended r s) w = (out, w')"
  shows "put_to_sleep vs vx down s x d (trace w) out w'"
proof -
  obtain a w1 where a: "run_state (reconcileWorkload r s) w = (a, w1)"
    by fastforce
  have a1: "a = Inr ()" "standing vs vx down s x d w1"
    using holdsD [OF own_workload [OF assms(1) ok] w a] by simp_all
  obtain l where l: "trace w1 = trace w @ l" "scaled_down l"
    using runs_reconcileWorkload [of r s] workload_scaled_down [OF assms(2)] a a1(1) unfolding runs_def
    by (metis fst_conv snd_conv)
  obtain p w2 where p: "run_state (setPhase r (s\<lparr>site_status := site_status s\<rparr>) PhaseSuspended ''Site suspended'') w1 = (p, w2)"
    by fastforce
  obtain rv now s' where s': "p = Inr s'" "standing vs vx down s' x d w2"
    "s' = bumped rv (s\<lparr>site_status := phase_status PhaseSuspended ''Site suspended'' (m_generation (site_meta s)) now (site_status s)\<rparr>)"
    using holdsD [OF own_setPhase [OF assms(1)] a1(2) p] by blast
  have out: "out = done_with None" "w' = w2"
    using run a a1(1) p s'(1) by (simp_all add: reconcileSuspended_def)
  obtain l' where "trace w2 = trace w1 @ l'"
    using runs_setPhase [of r s PhaseSuspended "''Site suspended''"] p unfolding runs_def
    by (metis site_status_same snd_conv)
  then have tr: "trace w' = trace w @ (l @ l')" and "scaled_down (l @ l')"
    using l out(2) by (simp_all add: scaled_down_def)
  moreover have "leaves_mysql (l @ l')"
    using emitsE [OF emits_suspended run] tr unfolding leaves_mysql_def by (metis same_append_eq)
  moreover have "same_site s s'" "ss_phase (site_status s') = PhaseSuspended"
    by (simp_all add: s'(3) same_site_stored phase_status_def)
  ultimately show ?thesis
    using out s'(2) unfolding put_to_sleep_def by blast
qed

lemma own_suspended_round:
  assumes "operates W r q cfg vs vx down" and "sp_suspend (site_spec s)" and "m_deletion (site_meta s) = None"
    and w: "standing vs vx down s x d w"
    and ok: "list_all (wr_object W) (desired_objects r s)" and dft: "defaulted (site_spec s) = site_spec s"
    and run: "run_state (Reconcile r (site_ns s) (site_name s)) w = (out, w')"
  shows "put_to_sleep vs vx down s x d (trace w) out w'"
proof -
  obtain a w1 where a: "run_state (getSite (r_kube r) (site_ns s) (site_name s)) w = (a, w1)"
    by fastforce
  have a1: "a = Inr s" "standing vs vx down s x d w1"
    using holdsD [OF own_get [OF assms(1)] w a] by simp_all
  have tr: "\<exists>l. trace w1 = trace w @ l \<and> leaves_mysql l"
    using a by (auto simp: run_simps leaves_mysql_def split: prod.splits)
  let ?s1 = "s\<lparr>site_meta := (site_meta s)\<lparr>m_finalizers := m_finalizers (site_meta s) @ [Finalizer]\<rparr>\<rparr>"
  have later: "put_to_sleep vs vx down s x d (trace w) out w'"
    if "put_to_sleep vs vx down t x d (trace w2) out w'" "same_site s t" "\<exists>l. trace w2 = trace w @ l \<and> leaves_mysql l" for t w2
    using that same_site_trans [OF that(2)] unfolding put_to_sleep_def
    by (fastforce simp: scaled_down_def leaves_mysql_def)
  show ?thesis
  proof (cases "Finalizer \<in> set (m_finalizers (site_meta s))")
    case True
    then have "run_state (reconcileSuspended r s) w1 = (out, w')"
      using run a a1(1) assms(2,3) operatesD(6) [OF assms(1)]
      by (simp add: Reconcile_def reconcileBody_def finalizer_laws_def)
    then show ?thesis
      using own_suspended [OF assms(1,2) a1(2) ok] tr by (intro later [of s w1]) (simp_all add: same_site_def)
  next
    case False
    obtain b w2 where b: "run_state (updateSiteObj (r_kube r) ?s1) w1 = (b, w2)"
      by fastforce
    obtain rv where b1: "b = Inr (bumped rv ?s1)" "standing vs vx down (bumped rv ?s1) x d w2"
      using holdsD [OF own_update [OF assms(1) finalizer_added [OF assms(3)] dft] a1(2) b] by auto
    have "run_state (reconcileSuspended r (bumped rv ?s1)) w2 = (out, w')"
      using run a a1(1) assms(2,3) operatesD(6) [OF assms(1)] b b1(1) False
      by (simp add: Reconcile_def reconcileBody_def finalizer_laws_def)
    then have "put_to_sleep vs vx down (bumped rv ?s1) x d (trace w2) out w'"
      using own_suspended [OF assms(1) _ b1(2)] assms(2) ok desired_objects_same [of "bumped rv ?s1" s r] by simp
    moreover have "\<exists>l. trace w2 = trace w @ l \<and> leaves_mysql l"
      using tr b by (auto simp: run_simps leaves_mysql_def split: prod.splits)
    ultimately show ?thesis
      by (intro later [of "bumped rv ?s1" w2]) (simp_all add: same_site_def)
  qed
qed

lemma settles_suspended:
  assumes "operates W r q cfg vs vx down" and "sp_suspend (site_spec s)" and "m_deletion (site_meta s) = None"
    and "standing vs vx down s x d w" and "list_all (wr_object W) (desired_objects r s)"
    and "defaulted (site_spec s) = site_spec s" and "0 < fuel"
    and "run_state (until_settled fuel r (site_ns s) (site_name s)) w = (rounds, w')"
  shows "rounds = Some [done_with None]" and "put_to_sleep vs vx down s x d (trace w) (done_with None) w'"
proof -
  obtain f where f: "fuel = Suc f"
    using assms(7) by (cases fuel) auto
  obtain out w1 where out: "run_state (Reconcile r (site_ns s) (site_name s)) w = (out, w1)"
    by fastforce
  have z: "put_to_sleep vs vx down s x d (trace w) out w1"
    using own_suspended_round [OF assms(1-6) out] .
  then have "out = done_with None"
    by (simp add: put_to_sleep_def)
  then have "rounds = Some [done_with None]" "w' = w1"
    using assms(8) out by (auto simp: f)
  with z \<open>out = done_with None\<close> show "rounds = Some [done_with None]" "put_to_sleep vs vx down s x d (trace w) (done_with None) w'"
    by simp_all
qed

text \<open>
  C8. Suspend and resume, through both programs: on a cluster and a MySQL server as in C3, with the API
  server in production, for a stored site that is not being deleted, with identifiers that pass the check
  and a spec with the defaults, which the cluster accepts suspended and not, with its Secret and its
  objects, and MySQL its database, user and host. After a suspension, which is answered with 200, the
  operator settles in one round, in which it has written a Deployment with zero replicas and made no
  call to MySQL, and the site is reported \<open>Suspended\<close>; after the resumption, answered with 200, it settles in
  \<open>d + 1\<close> rounds when MySQL refuses \<open>d\<close> pings, all but the last with the 15 second delay, and the site is
  \<open>Ready\<close> again, with the spec it had, not suspended.
\<close>

theorem suspend_and_resume:
  assumes "operates W r q cfg vs vx down" and "shares_cluster W sv r vs vx down"
    and "standing vs vx down s x d w" and "switchable W r s" and "sv_namespace sv = site_ns s" and "d < fuel"
  shows "case run_state (setSuspend sv True (site_name s) rq) w of (rs1, w1) \<Rightarrow> rs_code rs1 = 200 \<and>
    (case run_state (until_settled fuel r (site_ns s) (site_name s)) w1 of (n1, w2) \<Rightarrow>
      n1 = Some [done_with None] \<and> (\<exists>l. trace w2 = trace w1 @ l \<and> scaled_down l \<and> leaves_mysql l) \<and> down (env w2) = d \<and>
      (\<exists>s2. vs (env w2) (site_key s) = Some s2 \<and> ss_phase (site_status s2) = PhaseSuspended) \<and>
      (case run_state (setSuspend sv False (site_name s) rq') w2 of (rs2, w3) \<Rightarrow> rs_code rs2 = 200 \<and>
        (case run_state (until_settled fuel r (site_ns s) (site_name s)) w3 of (n2, w4) \<Rightarrow>
          n2 = Some (replicate d (retry_after 15) @ [done_with None]) \<and>
          (\<exists>s4. vs (env w4) (site_key s) = Some s4 \<and> ready_site s4 \<and>
            site_spec s4 = (site_spec s)\<lparr>sp_suspend := False\<rparr>))))"
proof -
  note ok = switchableD [OF assms(4)]
  obtain rv gen w1 where w1: "run_state (setSuspend sv True (site_name s) rq) w =
      (writeJSON 200 (SiteBody (toDTO (edited rv gen (suspend_edit True s)))), w1)"
    "standing vs vx down (edited rv gen (suspend_edit True s)) x d w1"
    using stored_edit [OF assms(2,3,1,4,5)] by blast
  let ?t = "edited rv gen (suspend_edit True s)"
  have t: "site_ns ?t = site_ns s" "site_name ?t = site_name s" "site_spec ?t = (site_spec s)\<lparr>sp_suspend := True\<rparr>"
    "m_deletion (site_meta ?t) = None" "defaulted (site_spec ?t) = site_spec ?t"
    "list_all (wr_object W) (desired_objects r ?t)"
    using ok(1,2) ok(4) [of True] desired_objects_same [of ?t "suspend_edit True s" r] by simp_all
  obtain n1 w2 where w2: "run_state (until_settled fuel r (site_ns s) (site_name s)) w1 = (n1, w2)"
    by fastforce
  have n1: "n1 = Some [done_with None]" "put_to_sleep vs vx down ?t x d (trace w1) (done_with None) w2"
    using settles_suspended [OF assms(1) _ t(4) w1(2) t(6,5), of fuel n1 w2] t(1-3) assms(6) w2 by simp_all
  obtain s2 where s2: "same_site ?t s2" "standing vs vx down s2 x d w2" "ss_phase (site_status s2) = PhaseSuspended"
    using n1(2) unfolding put_to_sleep_def by blast
  have k2: "site_key s2 = site_key s" "site_spec s2 = (site_spec s)\<lparr>sp_suspend := True\<rparr>" "m_deletion (site_meta s2) = None"
    using s2(1) t(1-4) by (simp_all add: same_site_def)
  obtain rv' gen' w3 where w3: "run_state (setSuspend sv False (site_name s) rq') w2 =
      (writeJSON 200 (SiteBody (toDTO (edited rv' gen' (suspend_edit False s2)))), w3)"
    "standing vs vx down (edited rv' gen' (suspend_edit False s2)) x d w3"
    using stored_edit [OF assms(2) s2(2) assms(1) switchable_cong [OF assms(4) k2], of False rq'] k2(1) assms(5) by auto
  let ?u = "edited rv' gen' (suspend_edit False s2)"
  have u: "site_key ?u = site_key s" "site_spec ?u = (site_spec s)\<lparr>sp_suspend := False\<rparr>" "m_deletion (site_meta ?u) = None"
    using k2 by simp_all
  from settles_ready [OF assms(1) switchable_takes_on [OF assms(4) u] w3(2) assms(6)]
  obtain n2 w4 s4 where w4: "run_state (until_settled fuel r (site_ns s) (site_name s)) w3 = (n2, w4)"
    "n2 = Some (waits_then_done d)" "same_site ?u s4" "\<exists>y. standing vs vx down s4 (Some y) 0 w4" "ready_site s4"
    using u(1) by (auto split: prod.splits)
  have "vs (env w4) (site_key s) = Some s4" "site_spec s4 = (site_spec s)\<lparr>sp_suspend := False\<rparr>"
    using w4(3,4) u by (auto simp: same_site_def standing_def)
  moreover have "vs (env w2) (site_key s) = Some s2" "down (env w2) = d"
    using s2(2) k2(1) by (simp_all add: standing_def)
  moreover have "\<exists>l. trace w2 = trace w1 @ l \<and> scaled_down l \<and> leaves_mysql l"
    using n1(2) by (simp add: put_to_sleep_def)
  ultimately show ?thesis
    using w1(1) w2 n1(1) s2(3) w3(1) w4(1,2,5) by (simp add: writeJSON_def waits_then_done_def)
qed

section \<open>A shared cluster\<close>

definition open_kube :: "home kube" where
  "open_kube = home_kube\<lparr>k_createSite := (\<lambda>s e. if fst e (site_key s) = None
     then (let s' = s\<lparr>site_spec := defaulted (site_spec s), site_meta := (site_meta s)\<lparr>m_deletion := None\<rparr>\<rparr> in (Inr s', ((fst e)(site_key s \<mapsto> s'), snd e)))
     else (Inl (KubeErr AlreadyExists ''already exists''), e))\<rparr>"

lemma open_kube_simps:
  "k_getSite open_kube = k_getSite home_kube" "k_updateSite open_kube = k_updateSite home_kube"
  "k_statusUpdate open_kube = k_statusUpdate home_kube" "k_getSecret open_kube = k_getSecret home_kube"
  "k_createSecret open_kube = k_createSecret home_kube" "k_updateSecret open_kube = k_updateSecret home_kube"
  "k_patchOwned open_kube = k_patchOwned home_kube" "k_now open_kube = k_now home_kube"
  "k_rand open_kube = k_rand home_kube" "k_gvk open_kube = k_gvk home_kube"
  "k_setControllerRef open_kube = k_setControllerRef home_kube"
  "k_containsFinalizer open_kube = k_containsFinalizer home_kube"
  "k_addFinalizer open_kube = k_addFinalizer home_kube" "k_removeFinalizer open_kube = k_removeFinalizer home_kube"
  by (simp_all add: open_kube_def)

abbreviation home_operator :: "home reconciler" where
  "home_operator \<equiv> operator_reconciler (\<lambda>_. []) open_kube home_drv"

lemma open_operates:
  "operates home_rules home_operator home_drv (operator_mysql (\<lambda>_. [])) fst (\<lambda>e. fst (snd e)) (\<lambda>e. snd (snd e))"
proof -
  have "own_sites open_kube vs vx down = own_sites home_kube vs vx down"
    "own_secrets W open_kube vs vx down = own_secrets W home_kube vs vx down"
    "own_rest W open_kube R = own_rest W home_kube R" "owner_only open_kube = owner_only home_kube"
    "finalizer_laws open_kube = finalizer_laws home_kube" for W vs vx and down :: "home \<Rightarrow> nat" and R
    by (unfold own_sites_def own_secrets_def own_rest_def owner_only_def finalizer_laws_def open_kube_simps) (rule refl)+
  then show ?thesis
    using home_operates [of "\<lambda>_. []"] by (simp add: operates_def own_cluster_def operator_reconciler_def)
qed

definition home_server :: "home server" where
  "home_server = \<lparr>sv_kube = open_kube,
     sv_auth = \<lparr>au_pkg = \<lparr>a_bcryptGenerate = \<lambda>p e. (Inr p, e), a_bcryptCompare = \<lambda>h p. h = p,
       a_sign = \<lambda>c key e. (Inr ''token'', e), a_parse = \<lambda>t f e. (Inl (GoErr ''expired''), e)\<rparr>,
       au_kube = open_kube, au_username = ''admin'', au_passwordHash = ''secret'',
       au_jwtSecret = ''key'', au_ttl = 86400\<rparr>,
     sv_namespace = ''wordpress-sites'', sv_dbHost = ''mysql'', sv_dbPort = ''3306'', sv_metrics = None,
     sv_twoFA = None, sv_reconcile = None, sv_globals = default_globals, sv_codec = sv_codec edit_server\<rparr>"

lemma home_server_simps [simp]:
  "sv_kube home_server = open_kube" "sv_reconcile home_server = None"
  "sv_namespace home_server = ''wordpress-sites''" "cx_site (sv_codec home_server) b = Inr edit_form"
  by (simp_all add: home_server_def edit_server_def)

lemma bumped_stored:
  "bumped rv (s\<lparr>site_spec := defaulted (site_spec s), site_status := st\<rparr>) =
   stored_as rv (m_generation (site_meta s)) (s\<lparr>site_status := st\<rparr>)"
  by (simp add: bumped_def stored_as_def edited_def)

lemma open_shared:
  "shares_cluster home_rules home_server home_operator fst (\<lambda>e. fst (snd e)) (\<lambda>e. snd (snd e))"
proof -
  have "own_edits home_rules open_kube fst (\<lambda>e. fst (snd e)) (\<lambda>e. snd (snd e))"
    unfolding own_edits_def open_kube_simps
    by (auto simp: open_kube_def home_kube_def home_store_def finished_def Let_def bumped_stored admitted_def
        split: if_splits) blast
  then show ?thesis
    by (simp add: shares_cluster_def operator_reconciler_def)
qed

theorem created_sites_become_ready_witness:
  "case run_state (createSite home_server [] edit_request) (home_world Map.empty 2) of (rs, w1) \<Rightarrow> rs_code rs = 201 \<and>
    (case run_state (until_settled 9 home_operator ''wordpress-sites'' (sd_name edit_form)) w1 of (rounds, w2) \<Rightarrow>
      rounds = Some (replicate 2 (retry_after 15) @ [done_with None]) \<and>
      (\<exists>s y. fst (env w2) (''wordpress-sites'', sd_name edit_form) = Some s \<and> ready_site s \<and>
        sp_domain (site_spec s) = sd_domain edit_form \<and> Finalizer \<in> set (m_finalizers (site_meta s)) \<and>
        fst (snd (env w2)) (''wordpress-sites'', SecretName s) = Some y \<and> secret_complete (sec_data y)))"
proof -
  have names: "sd_name edit_form \<noteq> []" "sd_domain edit_form \<noteq> []"
    by (simp_all add: edit_form_def toDTO_def sample_site_def new_site_def new_meta_def empty_spec_def)
  have "form_accepted home_rules r ns edit_form" for r ns
  proof -
    let ?t = "toSite edit_form ns" and ?s = "stored_form edit_form ns"
    have "DatabaseName ?s = DatabaseName ?t" "DatabaseUser ?s = DatabaseUser ?t" "DatabaseHost ?s = DatabaseHost ?t"
      using defaulted_names [of "site_spec ?t" ?t] by (simp_all add: stored_form_def)
    moreover have "no_override ?t" "sp_domain (site_spec ?t) \<noteq> []"
      using names(2) by (simp_all add: no_override_def toSite_def new_site_def empty_spec_def)
    ultimately show ?thesis
      using home_names [of ?t] by (simp add: form_accepted_def Let_def) (simp add: home_rules_def list_all_iff)
  qed
  from created_sites_become_ready [OF open_operates open_shared _ names _ _ this, of edit_request "home_world Map.empty 2" 9 "[]"]
  show ?thesis
    by simp
qed

theorem suspend_and_resume_witness:
  "case run_state (setSuspend home_server True (site_name home_site) edit_request)
      (home_world [site_key home_site \<mapsto> home_site] 1) of (rs1, w1) \<Rightarrow> rs_code rs1 = 200 \<and>
    (case run_state (until_settled 9 home_operator (site_ns home_site) (site_name home_site)) w1 of (n1, w2) \<Rightarrow>
      n1 = Some [done_with None] \<and> (\<exists>l. trace w2 = trace w1 @ l \<and> scaled_down l \<and> leaves_mysql l) \<and> snd (snd (env w2)) = 1 \<and>
      (\<exists>s2. fst (env w2) (site_key home_site) = Some s2 \<and> ss_phase (site_status s2) = PhaseSuspended) \<and>
      (case run_state (setSuspend home_server False (site_name home_site) edit_request) w2 of
        (rs2, w3) \<Rightarrow> rs_code rs2 = 200 \<and>
        (case run_state (until_settled 9 home_operator (site_ns home_site) (site_name home_site)) w3 of (n2, w4) \<Rightarrow>
          n2 = Some (replicate 1 (retry_after 15) @ [done_with None]) \<and>
          (\<exists>s4. fst (env w4) (site_key home_site) = Some s4 \<and> ready_site s4 \<and>
            site_spec s4 = (site_spec home_site)\<lparr>sp_suspend := False\<rparr>))))"
proof -
  have "sp_domain (site_spec home_site) \<noteq> []"
    by (simp add: home_site_def sample_site_def new_site_def defaulted_def)
  then have "switchable home_rules home_operator home_site"
    using home_takes_on [of home_operator]
    by (simp add: switchable_def takes_on_def) (simp add: home_rules_def list_all_iff)
  from suspend_and_resume [OF open_operates open_shared _ this,
      of None 1 "home_world [site_key home_site \<mapsto> home_site] 1" 9 edit_request edit_request]
  show ?thesis
    by (simp add: standing_def)
qed

end
