(* ===== verification/CallBounds.thy ===== *)
theory CallBounds
imports Convergence ApiProps
begin

text \<open>
  How many calls the programs make. Every operation is a total function; what bounds its running time is
  the number of calls it makes to the cluster, the database, the clock and the random source. The bounds
  are composed along the structure of the programs and hold for every answer of the other side.
\<close>

section \<open>Costs\<close>

definition costs :: "nat \<Rightarrow> ('e, 'c, 'a) act \<Rightarrow> bool" where
  "costs n m \<longleftrightarrow> runs m (\<lambda>_ l. length l \<le> n)"

named_theorems cost \<open>how costs compose\<close>

lemma costsD: "costs n m \<Longrightarrow> length (emitted m w) \<le> n"
  unfolding costs_def by (drule runsD)

lemma costs_weaken: "costs a m \<Longrightarrow> a \<le> b \<Longrightarrow> costs b m"
  unfolding costs_def by (erule runs_mono) simp

lemma costs_return [cost]: "costs 0 (ret a)"
  unfolding costs_def by (intro wp) simp

lemma costs_call [cost]: "costs 1 (call c f)"
  unfolding costs_def by (intro wp) simp

lemma costs_query [cost]: "costs 1 (query c f)"
  unfolding costs_def by (intro wp) simp

lemma costs_noted [cost]: "costs n m \<Longrightarrow> costs (n + 1) (noted c m)"
  unfolding costs_def by (intro wp, elim runs_mono) simp

lemma costs_bind [cost]: "costs a m \<Longrightarrow> (\<And>x. costs b (f x)) \<Longrightarrow> costs (a + b) (State_Monad.bind m f)"
  unfolding costs_def by (intro wp, erule runs_mono, rule runs_mono, assumption) simp

lemma costs_if [cost]: "costs a m \<Longrightarrow> costs b n \<Longrightarrow> costs (max a b) (if c then m else n)"
  by (simp add: costs_weaken [OF _ max.cobounded1] costs_weaken [OF _ max.cobounded2])

lemma costs_sum [cost]:
  "(\<And>x. costs a (f x)) \<Longrightarrow> (\<And>y. costs b (g y)) \<Longrightarrow> costs (max a b) (case r of Inl x \<Rightarrow> f x | Inr y \<Rightarrow> g y)"
  by (cases r) (simp_all add: costs_weaken [OF _ max.cobounded1] costs_weaken [OF _ max.cobounded2])

lemma costs_option [cost]:
  "costs a m \<Longrightarrow> (\<And>x. costs b (g x)) \<Longrightarrow> costs (max a b) (case r of None \<Rightarrow> m | Some x \<Rightarrow> g x)"
  by (cases r) (simp_all add: costs_weaken [OF _ max.cobounded1] costs_weaken [OF _ max.cobounded2])

lemma costs_prod [cost]: "(\<And>x y. costs a (g x y)) \<Longrightarrow> costs a (case r of (x, y) \<Rightarrow> g x y)"
  by (cases r) auto

lemma costs_let [cost]: "costs a (f t) \<Longrightarrow> costs a (let x = t in f x)"
  by simp

text \<open>The calls of the client, the driver, the authenticator and the second factor.\<close>

lemma costs_client [cost]:
  "costs 1 (getSite k ns n)" "costs 1 (listSites k ns)" "costs 1 (createSiteObj k s)"
  "costs 1 (updateSiteObj k s)" "costs 1 (deleteSiteObj k s)" "costs 1 (statusUpdate k s)"
  "costs 1 (getSecret k ns n)" "costs 1 (createSecret k x)" "costs 1 (updateSecret k x)"
  "costs 1 (getOwned k b)" "costs 1 (createOwned k b)" "costs 1 (updateOwned k b)"
  "costs 1 (patchOwned k gvk b)" "costs 1 (listPods k ns n)" "costs 1 (listEvents k ns)"
  "costs 1 (listNodes k)" "costs 1 (listNodeUsage k)" "costs 1 (listPodUsage k ns)"
  "costs 1 (timeNow k)" "costs 1 (randRead k m)"
  unfolding client_defs by (intro cost)+

lemma costs_driver [cost]:
  "costs 1 (sqlOpen q drv dsn)" "costs 1 (sqlPing q)" "costs 1 (sqlExec q st args)" "costs 1 (sqlClose q)"
  "costs 1 (osRemove q f)" "costs 1 (osMkdirAll q f)" "costs 1 (mapOrder q)"
  unfolding driver_defs by (intro cost)+

lemma costs_token [cost]:
  "costs 1 (totpGenerate pk i a)" "costs 1 (totpValidate pk c s)" "costs 1 (parse_token au t)"
  unfolding totpGenerate_def totpValidate_def parse_token_def by (intro cost)+

section \<open>The operator\<close>

lemma costs_exec_labelled: "costs (length sts) (exec_labelled q sts)"
proof (induction sts rule: exec_labelled.induct)
  case (2 q st label rest)
  show ?case
    unfolding exec_labelled.simps by (rule costs_weaken, (rule cost 2)+) simp
qed (simp add: cost)

lemma costs_exec_plain: "costs (length sts) (exec_plain q sts)"
proof (induction sts rule: exec_plain.induct)
  case (2 q st rest)
  show ?case
    unfolding exec_plain.simps by (rule costs_weaken, (rule cost 2)+) simp
qed (simp add: cost)

lemma costs_exec_upserts: "costs (length kvs) (exec_upserts q kvs)"
proof (induction kvs rule: exec_upserts.induct)
  case (2 q k v rest)
  show ?case
    unfolding exec_upserts.simps by (rule costs_weaken, (rule cost 2)+) simp
qed (simp add: cost)

text \<open>A session: when the ping fails, the handle is closed and no statement runs.\<close>

lemma costs_session:
  assumes "costs n m"
  shows "costs (n + 3) (do {
    o1 \<leftarrow> mysql_open q cfg;
    case o1 of Inl e \<Rightarrow> ret (Inl e) | Inr _ \<Rightarrow> do { r \<leftarrow> m; _ \<leftarrow> sqlClose q; ret r }
  })"
  unfolding costs_def
proof (intro wp)
  have opened: "runs (mysql_open q cfg) (\<lambda>r l. length l \<le> (case r of Inl _ \<Rightarrow> 3 | Inr _ \<Rightarrow> 2))"
    unfolding mysql_open_def by (intro wp) simp_all
  have rest: "runs (do { r \<leftarrow> m; _ \<leftarrow> sqlClose q; ret r }) (\<lambda>_ l. length l \<le> n + 1)"
    unfolding costs_def [symmetric] by (rule costs_weaken, (rule cost assms)+) simp
  show "runs (mysql_open q cfg) (\<lambda>x l. runs (case x of Inl e \<Rightarrow> ret (Inl e)
      | Inr _ \<Rightarrow> do { r \<leftarrow> m; _ \<leftarrow> sqlClose q; ret r }) (\<lambda>_ l'. length (l @ l') \<le> n + 3))"
    by (rule runs_mono [OF opened]) (auto split: sum.splits intro: wp runs_mono [OF rest])
qed

lemma costs_mysql [cost]:
  "costs 8 (EnsureDatabase q cfg name user host pw)" "costs 6 (DropDatabase q cfg name user host)"
proof -
  have stmts: "costs 5 (exec_labelled q (ensure_stmts name user host pw))"
    "costs 3 (exec_plain q (drop_stmts name user host))"
    by (rule costs_weaken [OF costs_exec_labelled], simp add: ensure_stmts_def)
      (rule costs_weaken [OF costs_exec_plain], simp add: drop_stmts_def)
  show "costs 8 (EnsureDatabase q cfg name user host pw)"
    unfolding EnsureDatabase_def by (rule costs_weaken, (rule cost costs_session stmts)+) simp
  show "costs 6 (DropDatabase q cfg name user host)"
    unfolding DropDatabase_def by (rule costs_weaken, (rule cost costs_session stmts)+) simp
qed

lemma costs_sqlite [cost]:
  "costs 6 (LiteEnsure q p name user host pw)" "costs 1 (LiteDrop q p name user host)"
proof -
  have upserts: "costs 2 (exec_upserts q (meta_entries b user host))" for b
    using costs_exec_upserts [of "meta_entries b user host" q]
    by (rule costs_weaken) (simp add: meta_entries_def)
  show "costs 6 (LiteEnsure q p name user host pw)"
    unfolding LiteEnsure_def by (rule costs_weaken, (rule cost upserts)+) simp
  show "costs 1 (LiteDrop q p name user host)"
    unfolding LiteDrop_def by (rule costs_weaken, (rule cost)+) simp
qed

lemma costs_fill_salts: "costs (length keys) (fill_salts k keys d)"
proof (induction keys arbitrary: d)
  case (Cons key keys)
  show ?case
    unfolding fill_salts.simps fill_key_def RandomPassword_def by (rule costs_weaken, (rule cost Cons)+) simp
qed (simp add: cost)

lemma costs_ensureSecret [cost]: "costs 11 (ensureSecret r s)"
proof -
  have salts: "costs 8 (fill_salts k saltKeys d)" for k and d :: sdata
    using costs_fill_salts by (rule costs_weaken) (simp add: saltKeys_def)
  have "costs 9 (DesiredSecret k s x)" for k :: "'b kube" and x
    unfolding DesiredSecret_def fill_key_def RandomPassword_def by (rule costs_weaken, (rule cost salts)+) simp
  note desired = this
  show ?thesis
    unfolding ensureSecret_def store_secret_def by (rule costs_weaken, (rule cost desired)+) simp
qed

lemma costs_apply_obj [cost]: "costs (if r_noServerSideApply r then 2 else 1) (apply_obj r s b)"
  unfolding apply_obj_def costs_def by (intro wp) simp_all

lemma costs_apply_each: "costs (length bs * (if r_noServerSideApply r then 2 else 1)) (apply_each r s bs)"
proof (induction bs)
  case (Cons b bs)
  show ?case
    unfolding apply_each.simps by (rule costs_weaken, (rule cost Cons)+) simp
qed (simp add: cost)

lemma costs_workload [cost]: "costs (4 * (if r_noServerSideApply r then 2 else 1)) (reconcileWorkload r s)"
  unfolding reconcileWorkload_def using costs_apply_each by (rule costs_weaken) (simp add: desired_objects_def)

lemma costs_phase [cost]: "costs 2 (setPhase r s p msg)" "costs 2 (fail r s stage e)"
proof -
  show *: "costs 2 (setPhase r s p msg)" for s p msg
    unfolding setPhase_def by (rule costs_weaken, (rule cost)+) simp
  show "costs 2 (fail r s stage e)"
    unfolding fail_def by (rule costs_weaken, (rule cost *)+) simp
qed

text \<open>The reconcile, with a database whose operations make at most \<open>d\<close> calls.\<close>

lemma costs_Reconcile:
  assumes "\<And>name user host pw. costs d (d_ensure (r_db r) name user host pw)"
    and "\<And>name user host. costs d (d_drop (r_db r) name user host)"
  shows "costs (d + (if r_noServerSideApply r then 24 else 20)) (Reconcile r ns n)"
  unfolding Reconcile_def reconcileDelete_def reconcileBody_def reconcileSuspended_def reconcileActive_def
    ensureDatabase_def dropDatabase_def
  by (rule costs_weaken, (rule cost assms)+) simp

lemma costs_operator [cost]: "costs 28 (Reconcile (operator_reconciler g k q) ns n)"
  by (rule costs_weaken, rule costs_Reconcile [where d = 8])
    (simp_all add: operator_reconciler_def mysql_provisioner_def cost costs_weaken [OF costs_mysql(2)])

lemma costs_dev_reconciler [cost]: "costs 30 (Reconcile (dev_reconciler g k q p) ns n)"
  by (rule costs_weaken, rule costs_Reconcile [where d = 6])
    (simp_all add: dev_reconciler_def sqlite_provisioner_def cost costs_weaken [OF costs_sqlite(2)])

section \<open>The API server\<close>

lemma costs_two_fa [cost]:
  "costs 1 (Enabled t)" "costs 3 (Setup t)" "costs 3 (Enable t code)" "costs 3 (Disable t code)"
  "costs 2 (Validate t code)"
proof -
  have *: "costs 1 (load t)" "costs 1 (save t x d)" for x d
    unfolding load_def save_def by (rule costs_weaken, (rule cost)+, simp)+
  show "costs 1 (Enabled t)" "costs 3 (Setup t)" "costs 3 (Enable t code)" "costs 3 (Disable t code)"
    "costs 2 (Validate t code)"
    unfolding Enabled_def Setup_def Enable_def Disable_def Validate_def
    by (rule costs_weaken, (rule cost *)+, simp)+
qed

lemma costs_Issue [cost]: "costs 3 (Issue a u)"
  unfolding Issue_def by (rule costs_weaken, (rule cost)+) simp

lemma costs_metrics [cost]:
  "costs 2 (KubeCluster k)" "costs 1 (KubeSites k order ns)" "costs 1 (DevCluster k ns)" "costs 1 (DevSites k ns)"
  unfolding KubeCluster_def KubeSites_def DevCluster_def DevSites_def by (rule costs_weaken, (rule cost)+, simp)+

lemma costs_guard: "(\<And>u. costs n (f u)) \<Longrightarrow> costs (Suc n) (guard a h f refuse)"
  unfolding guard_def by (rule costs_weaken, (rule cost | assumption)+) simp

text \<open>A server whose second factor is \<open>KubeTwoFA\<close> and whose figures come from one of the two providers.\<close>

definition wired :: "'e server \<Rightarrow> bool" where
  "wired sv \<longleftrightarrow> (\<exists>t. sv_twoFA sv = Some (kube_two_factor t)) \<and>
     (\<forall>p. sv_metrics sv = Some p \<longrightarrow> costs 2 (mp_cluster p) \<and> costs 1 (mp_sites p)) \<and>
     (\<forall>f ns n. sv_reconcile sv = Some f \<longrightarrow> costs 30 (f ns n))"

text \<open>In dev mode an endpoint may run the reconciler in the process, once, and read the site again.\<close>

definition converge_cost :: "'e server \<Rightarrow> nat" where
  "converge_cost sv = (case sv_reconcile sv of None \<Rightarrow> 0 | Some _ \<Rightarrow> 31)"

lemma costs_converge:
  assumes "wired sv"
  shows "costs (converge_cost sv) (do { _ \<leftarrow> maybeReconcile sv n; s1 \<leftarrow> reread sv s; ret (h s1) })"
    "costs (converge_cost sv) (do { _ \<leftarrow> maybeReconcile sv n; ret x })"
proof -
  have "costs (converge_cost sv) (do { _ \<leftarrow> maybeReconcile sv n; s1 \<leftarrow> reread sv s; ret (h s1) }) \<and>
    costs (converge_cost sv) (do { _ \<leftarrow> maybeReconcile sv n; ret x })"
  proof (cases "sv_reconcile sv")
    case None
    then show ?thesis
      by (simp add: maybeReconcile_def reread_def converge_cost_def cost)
  next
    case (Some f)
    then have f: "costs 30 (f ns n)" for ns n
      using assms by (simp add: wired_def)
    show ?thesis
      unfolding maybeReconcile_def reread_def converge_cost_def Some option.case
      by (intro conjI; rule costs_weaken, (rule cost f)+) simp_all
  qed
  then show "costs (converge_cost sv) (do { _ \<leftarrow> maybeReconcile sv n; s1 \<leftarrow> reread sv s; ret (h s1) })"
    "costs (converge_cost sv) (do { _ \<leftarrow> maybeReconcile sv n; ret x })"
    by blast+
qed

lemma api_server_wired: "wired (api_server g k q pk cx order p auth)"
proof -
  have "costs 30 (dev_reconcile_func (dev_reconciler g k q p) ns n)" for ns n
    unfolding dev_reconcile_func_def by (rule costs_weaken, (rule cost)+) simp
  moreover have "costs 2 (DevCluster k ns)" for ns
    using costs_metrics(3) by (rule costs_weaken) simp
  ultimately show ?thesis
    using costs_metrics(1,2,4)
    by (auto simp: wired_def api_server_def dev_provider_def kube_provider_def)
qed

lemma converge_cost_api_server:
  "converge_cost (api_server g k q pk cx order p auth) = (if dev_mode g then 31 else 0)"
  by (simp add: converge_cost_def api_server_def)

lemma costs_kube_two_factor [cost]:
  "costs 1 (tf_enabled (kube_two_factor t))" "costs 3 (tf_setup (kube_two_factor t))"
  "costs 3 (tf_enable (kube_two_factor t) code)" "costs 3 (tf_disable (kube_two_factor t) code)"
  "costs 2 (tf_validate (kube_two_factor t) code)"
  using costs_two_fa by (simp_all add: kube_two_factor_def)

lemma costs_login:
  assumes "wired sv"
  shows "costs 6 (login sv rq)"
proof -
  obtain t where t: "sv_twoFA sv = Some (kube_two_factor t)"
    using assms by (auto simp: wired_def)
  show ?thesis
    unfolding login_def issue_token_def t option.case by (rule costs_weaken, (rule cost)+) simp
qed

lemma costs_with_site: "(\<And>s. costs n (f s)) \<Longrightarrow> costs (1 + n) (with_site sv name f)"
  unfolding with_site_def fetch_def by (rule costs_weaken, (rule cost | assumption)+) simp

lemma costs_endpoint:
  assumes "wired sv" and "ep \<noteq> ELogin"
  shows "costs (max 4 (2 + converge_cost sv)) (run_endpoint sv ep user n rq)"
proof -
  obtain t where t: "sv_twoFA sv = Some (kube_two_factor t)"
    using assms by (auto simp: wired_def)
  have figures: "costs 3 (getMetrics sv)"
  proof (cases "sv_metrics sv")
    case (Some p)
    then have p: "costs 2 (mp_cluster p)" "costs 1 (mp_sites p)"
      using assms(1) by (auto simp: wired_def)
    show ?thesis
      unfolding getMetrics_def Some option.case by (rule costs_weaken, (rule cost p)+) simp
  qed (simp add: getMetrics_def costs_weaken [OF costs_return])
  note step = costs_converge [OF assms(1)] costs_with_site cost figures
  show ?thesis
    using assms(2)
    by (cases ep; simp only: run_endpoint.simps listSitesH_def createSite_def previewYAML_def getSiteH_def
        updateSite_def deleteSite_def getSiteYAML_def updateSiteYAML_def getSiteStatus_def setSuspend_def
        store_site_def twoFAStatus_def twoFASetup_def twoFAEnable_def twoFADisable_def twoFAMutate_def t option.case)
      (rule costs_weaken, (rule step)+, simp)+
qed

lemma costs_Router:
  assumes "wired sv"
  shows "costs (max 6 (3 + converge_cost sv)) (Router sv pick rq)"
proof -
  have public: "costs 6 (run_endpoint sv (rt_endpoint (open_routes ! i)) u n rq)" if "i < length open_routes" for i u n
  proof -
    have "rt_endpoint (open_routes ! i) \<in> {EHealthz, ELogin}"
      using that by (auto simp: open_routes_def less_Suc_eq)
    then show ?thesis
      using costs_login [OF assms] by (auto intro: costs_weaken [OF costs_return])
  qed
  have "\<forall>rt \<in> set guarded_routes. rt_endpoint rt \<noteq> ELogin"
    by (simp add: guarded_routes_def)
  then have inside: "costs (max 4 (2 + converge_cost sv)) (run_endpoint sv (rt_endpoint (guarded_routes ! j)) u n rq)"
    if "j < length guarded_routes" for j u n
    using that by (intro costs_endpoint assms) (metis nth_mem)
  show ?thesis
  proof (cases "pick (open_routes @ guarded_routes) (rq_method rq) (rq_path rq)")
    case (Inr x)
    obtain i n where x: "x = (i, n)"
      by fastforce
    show ?thesis
      unfolding Router_def Inr x sum.case prod.case
      by (auto elim!: costs_weaken intro: costs_weaken [OF costs_return] costs_weaken [OF costs_guard [OF inside]]
          costs_weaken [OF public])
  qed (simp add: Router_def costs_weaken [OF costs_return])
qed

section \<open>The bounds\<close>

text \<open>
  C11. Termination with a bound: a reconcile of the operator returns after at most 28 calls (to the
  cluster, the database server, the clock and the random source, and the operation of the database
  interface itself), one of the in-process reconciler of dev mode after at most 30, and a request to the
  API server is answered after at most 6, or 34 in dev mode, whatever the answers are.
\<close>

theorem calls_are_bounded:
  "length (emitted (Reconcile (operator_reconciler g k q) ns n) w) \<le> 28 \<and>
   length (emitted (Reconcile (dev_reconciler g k q p) ns n) w) \<le> 30 \<and>
   length (emitted (Router (api_server g k q pk cx order p auth) pick rq) w) \<le> (if dev_mode g then 34 else 6)"
proof (intro conjI)
  show "length (emitted (Reconcile (operator_reconciler g k q) ns n) w) \<le> 28"
    by (rule costsD) (rule cost)
  show "length (emitted (Reconcile (dev_reconciler g k q p) ns n) w) \<le> 30"
    by (rule costsD) (rule cost)
  show "length (emitted (Router (api_server g k q pk cx order p auth) pick rq) w) \<le> (if dev_mode g then 34 else 6)"
    by (rule costsD, rule costs_weaken, rule costs_Router, rule api_server_wired)
      (simp add: converge_cost_api_server)
qed

text \<open>The number of rounds bounds the calls.\<close>

lemma settled_calls:
  assumes "\<And>ns n. costs b (Reconcile r ns n)" and "run_state (until_settled fuel r ns n) w = (Some outs, w')"
  shows "length (trace w') \<le> length (trace w) + length outs * b"
  using assms(2)
proof (induction fuel arbitrary: w outs)
  case (Suc fuel)
  obtain out w1 where out: "run_state (Reconcile r ns n) w = (out, w1)"
    by fastforce
  have "trace w1 = trace w @ emitted (Reconcile r ns n) w"
    using runs_trace [OF assms(1) [unfolded costs_def], of ns n w] out by simp
  then have b: "length (trace w1) \<le> length (trace w) + b"
    using costsD [OF assms(1), of ns n w] by simp
  show ?case
  proof (cases "ro_err out = None \<and> ro_requeueAfter out = 0")
    case True
    then have "outs = [out]" "w1 = w'"
      using Suc.prems out by simp_all
    with b show ?thesis
      by simp
  next
    case False
    then obtain j where "run_state (until_settled fuel r ns n) w1 = (Some j, w')" "outs = out # j"
      using Suc.prems out by (auto split: prod.splits)
    with Suc.IH [OF this(1)] b show ?thesis
      by simp
  qed
qed simp

lemma costs_operates: "operates W r q cfg vs vx down \<Longrightarrow> costs 28 (Reconcile r ns n)"
  by (rule costs_weaken, rule costs_Reconcile [where d = 8])
    (simp_all add: operates_def mysql_provisioner_def cost costs_weaken [OF costs_mysql(2)])

text \<open>
  C9. Bounded work: under the conditions of C3 (a cluster of its own, a MySQL server that refuses the
  first \<open>d\<close> pings; a stored site that is neither suspended nor being deleted, with valid identifiers and
  the defaults of the schema, whose names MySQL accepts and whose Secret and objects the cluster accepts)
  the operator has finished the site after \<open>d + 1\<close> rounds and at most \<open>28 * (d + 1)\<close> calls.
\<close>

theorem sites_settle_in_bounded_work:
  assumes "operates W r q cfg vs vx down" and "takes_on W r s" and "standing vs vx down s x d w" and "d < fuel"
  shows "case run_state (until_settled fuel r (site_ns s) (site_name s)) w of (rounds, w') \<Rightarrow>
    map_option length rounds = Some (Suc d) \<and> length (trace w') \<le> length (trace w) + 28 * Suc d"
proof -
  obtain rounds w' where run: "run_state (until_settled fuel r (site_ns s) (site_name s)) w = (rounds, w')"
    by fastforce
  then have "rounds = Some (waits_then_done d)"
    using settles_ready [OF assms] by simp
  moreover have l: "length (waits_then_done d) = Suc d"
    by (simp add: waits_then_done_def)
  moreover have "length (trace w') \<le> length (trace w) + length (waits_then_done d) * 28"
    using run calculation(1) by (intro settled_calls [OF costs_operates [OF assms(1)]]) simp
  ultimately show ?thesis
    using run by simp
qed

theorem sites_settle_in_bounded_work_witness:
  "case run_state (until_settled 9 (operator_reconciler (\<lambda>_. []) home_kube home_drv)
       ''wordpress-sites'' ''blog-acme'') (home_world [(''wordpress-sites'', ''blog-acme'') \<mapsto> home_site] 3) of
     (rounds, w') \<Rightarrow> map_option length rounds = Some 4 \<and> length (trace w') \<le> 112"
  using sites_settle_in_bounded_work [OF home_operates home_takes_on,
      of None 3 "home_world [(''wordpress-sites'', ''blog-acme'') \<mapsto> home_site] 3" 9]
  by (simp add: standing_def)

end
