(* ===== verification/Cors.thy ===== *)
theory Cors
imports Server Startup
begin

text \<open>
  The middleware of the API server (internal/apiserver/server.go) and its policy for pages of other
  origins: what the browser must be allowed for the admin UI to reach every route.
\<close>

section \<open>The middleware\<close>

record cors_options =
  co_allowedOrigins :: "string list"
  co_allowedMethods :: "string list"
  co_allowedHeaders :: "string list"
  co_allowCredentials :: bool
  co_maxAge :: nat

datatype middleware =
    RequestID
  | RealIP
  | Logger
  | Recoverer
  | Timeout nat
  | CorsHandler cors_options

definition cors_policy :: "string list \<Rightarrow> cors_options" where
  "cors_policy corsOrigins =
     \<lparr>co_allowedOrigins = corsOrigins,
      co_allowedMethods = [''GET'', ''POST'', ''PUT'', ''DELETE'', ''OPTIONS''],
      co_allowedHeaders = [''Authorization'', ''Content-Type''],
      co_allowCredentials = False,
      co_maxAge = 300\<rparr>"

text \<open>The list of \<open>r.Use\<close>, the outermost first; the timeout is in seconds.\<close>

definition Router_middleware :: "string list \<Rightarrow> middleware list" where
  "Router_middleware corsOrigins =
     [RequestID, RealIP, Logger, Recoverer, Timeout 30, CorsHandler (cors_policy corsOrigins)]"

section \<open>Preflights\<close>

text \<open>
  What the documentation of go-chi/cors says of a preflight: it is granted when the origin, the method
  and every header it asks for are in the lists, where the origin \<open>*\<close> stands for all, and credentials
  are only granted when the option is set. Origins with an embedded wildcard are left open.
\<close>

record preflight =
  pf_origin :: string
  pf_method :: string
  pf_headers :: "string list"

definition plain_origin :: "string \<Rightarrow> bool" where
  "plain_origin s \<longleftrightarrow> s = ''*'' \<or> CHR ''*'' \<notin> set s"

definition origin_listed :: "string list \<Rightarrow> string \<Rightarrow> bool" where
  "origin_listed os s \<longleftrightarrow> ''*'' \<in> set os \<or> s \<in> set os"

definition answers_preflights :: "(cors_options \<Rightarrow> preflight \<Rightarrow> bool) \<Rightarrow> bool" where
  "answers_preflights f \<longleftrightarrow> (\<forall>c p. list_all plain_origin (co_allowedOrigins c) \<longrightarrow>
     f c p = (origin_listed (co_allowedOrigins c) (pf_origin p) \<and>
       pf_method p \<in> set (co_allowedMethods c) \<and> set (pf_headers p) \<subseteq> set (co_allowedHeaders c)))"

definition documented_preflight :: "cors_options \<Rightarrow> preflight \<Rightarrow> bool" where
  "documented_preflight c p \<longleftrightarrow> origin_listed (co_allowedOrigins c) (pf_origin p) \<and>
     pf_method p \<in> set (co_allowedMethods c) \<and> list_all (\<lambda>h. h \<in> set (co_allowedHeaders c)) (pf_headers p)"

lemma documented_answers: "answers_preflights documented_preflight"
  by (auto simp: answers_preflights_def documented_preflight_def list_all_iff)

text \<open>The words of a text that has no comma are that text.\<close>

lemma split_comma_plain: "CHR '','' \<notin> set s \<Longrightarrow> split_comma s = [s]"
  by (induction s) auto

lemma default_origins: "g ''CORS_ORIGINS'' = [] \<Longrightarrow> cors_origins g = [''*'']"
  by (simp add: cors_origins_def env_or_def split_comma_plain)

lemma one_origin:
  "g ''CORS_ORIGINS'' = u \<Longrightarrow> u \<noteq> [] \<Longrightarrow> CHR '','' \<notin> set u \<Longrightarrow> cors_origins g = [u]"
  by (simp add: cors_origins_def env_or_def split_comma_plain)

text \<open>
  The admin UI can reach every route from an origin it is configured for: the method of each route is
  allowed, and the two headers the UI sends are. A page of another origin is refused every one of them.
\<close>

theorem routes_pass_preflights:
  assumes "answers_preflights f" and "list_all plain_origin (cors_origins g)"
    and "rt \<in> set (open_routes @ guarded_routes)" and "set hs \<subseteq> {''Authorization'', ''Content-Type''}"
  shows "f (cors_policy (cors_origins g)) \<lparr>pf_origin = u, pf_method = rt_method rt, pf_headers = hs\<rparr> \<longleftrightarrow>
    origin_listed (cors_origins g) u"
proof -
  have "\<forall>rt \<in> set (open_routes @ guarded_routes). rt_method rt \<in> set (co_allowedMethods (cors_policy os))" for os
    by (simp add: open_routes_def guarded_routes_def cors_policy_def)
  then have "rt_method rt \<in> set (co_allowedMethods (cors_policy os))" for os
    using assms(3) by blast
  moreover have "co_allowedHeaders (cors_policy os) = [''Authorization'', ''Content-Type'']"
    "co_allowedOrigins (cors_policy os) = os" for os
    by (simp_all add: cors_policy_def)
  ultimately show ?thesis
    using assms(1,2,4) by (simp add: answers_preflights_def)
qed

theorem routes_pass_preflights_witness:
  "documented_preflight (cors_policy (cors_origins (\<lambda>_. ''https://wp.example'')))
     \<lparr>pf_origin = ''https://evil.example'', pf_method = rt_method (hd guarded_routes), pf_headers = [''Authorization'']\<rparr> \<longleftrightarrow>
   origin_listed (cors_origins (\<lambda>_. ''https://wp.example'')) ''https://evil.example''"
  by (rule routes_pass_preflights [OF documented_answers])
    (simp_all add: one_origin plain_origin_def guarded_routes_def)

end
