(* ===== verification/PostStart.thy ===== *)
theory PostStart
imports Workloads Fixtures
begin

text \<open>
  What the script in \<open>forwardedProtoPostStart\<close> (internal/resources/deployment.go) does to the site's
  wp-config.php: the shell commands of the script as steps on a directory of files, run by the pods of
  the Deployment at the same time, on the one volume they share.
\<close>

section \<open>Files\<close>

text \<open>Names refer to files, files have bytes; \<open>mv\<close> changes the name and leaves an open file alone.\<close>

record disk =
  dk_dir :: "string \<rightharpoonup> nat"
  dk_data :: "nat \<Rightarrow> string"
  dk_next :: nat

definition file_text :: "disk \<Rightarrow> string \<Rightarrow> string option" where
  "file_text d n = map_option (dk_data d) (dk_dir d n)"

text \<open>Bytes written from the start of a file that is open for writing.\<close>

definition overwrite :: "string \<Rightarrow> string \<Rightarrow> string" where
  "overwrite new old = new @ drop (length new) old"

text \<open>The text of \<open>$f\<close>, and of the file \<open>sed\<close> writes to.\<close>

definition wp_config :: string where
  "wp_config = ''/var/www/html/wp-config.php''"

definition wp_config_tmp :: string where
  "wp_config_tmp = wp_config @ ''.wpmgr''"

section \<open>grep and sed\<close>

fun occurs :: "string \<Rightarrow> string \<Rightarrow> bool" where
  "occurs p s = (has_prefix s p \<or> (case s of [] \<Rightarrow> False | _ # t \<Rightarrow> occurs p t))"

declare occurs.simps [simp del]

lemma occurs_iff: "occurs p s \<longleftrightarrow> (\<exists>a b. s = a @ p @ b)"
proof (induction s)
  case Nil
  then show ?case
    by (auto simp: occurs.simps [of p "[]"] has_prefix_def)
next
  case (Cons c s)
  have "has_prefix (c # s) p \<longleftrightarrow> (\<exists>b. c # s = p @ b)"
    unfolding has_prefix_def by (metis append_eq_conv_conj append_take_drop_id)
  moreover have "(\<exists>a b. s = a @ p @ b) \<longleftrightarrow> (\<exists>a b. a \<noteq> [] \<and> c # s = a @ p @ b)"
    by (auto simp: Cons_eq_append_conv)
  ultimately show ?case
    by (subst occurs.simps) (simp add: Cons.IH, metis append_Nil)
qed

text \<open>The lines of a text, each with its newline.\<close>

fun file_lines :: "string \<Rightarrow> string list" where
  "file_lines [] = []"
| "file_lines (c # s) =
     (if c = CHR 0x0A then [c] # file_lines s
      else case file_lines s of [] \<Rightarrow> [[c]] | l # ls \<Rightarrow> (c # l) # ls)"

lemma concat_file_lines [simp]: "concat (file_lines s) = s"
  by (induction s rule: file_lines.induct) (auto split: list.splits)

lemma file_lines_line: "CHR 0x0A \<notin> set l \<Longrightarrow> file_lines (l @ newline @ s) = (l @ newline) # file_lines s"
  by (induction l) (auto simp: newline_def)

text \<open>\<open>sed "/^<?php/r $snip"\<close>: the text of the snippet after each line that starts with \<open><?php\<close>.\<close>

definition opens_php :: "string \<Rightarrow> bool" where
  "opens_php l \<longleftrightarrow> has_prefix l ''<?php''"

definition sed_line :: "string \<Rightarrow> string \<Rightarrow> string" where
  "sed_line snip l =
     (if opens_php l then (if l \<noteq> [] \<and> last l = CHR 0x0A then l else l @ newline) @ snip else l)"

definition sed_insert :: "string \<Rightarrow> string \<Rightarrow> string" where
  "sed_insert snip s = concat (map (sed_line snip) (file_lines s))"

lemma sed_insert_none: "\<not> list_ex opens_php (file_lines s) \<Longrightarrow> sed_insert snip s = s"
proof -
  assume "\<not> list_ex opens_php (file_lines s)"
  then have "map (sed_line snip) (file_lines s) = file_lines s"
    by (intro map_idI) (auto simp: list_ex_iff sed_line_def)
  then show ?thesis
    by (simp add: sed_insert_def)
qed

lemma sed_insert_occurs: "list_ex opens_php (file_lines s) \<Longrightarrow> occurs snip (sed_insert snip s)"
proof -
  assume "list_ex opens_php (file_lines s)"
  then obtain l where "l \<in> set (file_lines s)" "opens_php l"
    by (auto simp: list_ex_iff)
  then obtain as bs b where "map (sed_line snip) (file_lines s) = as @ (b @ snip) # bs"
    by (fastforce simp: sed_line_def dest: split_list)
  then show ?thesis
    unfolding sed_insert_def occurs_iff by (intro exI [of _ "concat as @ b"] exI [of _ "concat bs"]) simp
qed

lemma sed_insert_first:
  assumes "\<not> list_ex opens_php (file_lines rest)"
  shows "sed_insert snip (''<?php'' @ newline @ rest) = ''<?php'' @ newline @ snip @ rest"
proof -
  have "file_lines (''<?php'' @ newline @ rest) = (''<?php'' @ newline) # file_lines rest"
    by (rule file_lines_line) simp
  moreover have "sed_line snip (''<?php'' @ newline) = ''<?php'' @ newline @ snip"
    by (simp add: sed_line_def opens_php_def has_prefix_def newline_def)
  ultimately show ?thesis
    using sed_insert_none [OF assms, of snip] by (simp add: sed_insert_def)
qed

section \<open>The script\<close>

text \<open>
  Where a run of the script is: \<open>Polling k\<close> has \<open>k\<close> rounds of the loop left; \<open>Testing\<close> is at the
  condition; \<open>Opening\<close> is where the shell opens the output of \<open>sed\<close>; \<open>Editing i\<close> is before \<open>sed\<close> reads,
  with the output open as file \<open>i\<close>; \<open>Moving\<close> is before \<open>mv\<close>. The script always exits with 0, after
  all of its commands (\<open>Done\<close>) or after one that failed (\<open>Failed\<close>).
\<close>

datatype hook = Polling nat | Testing | Opening | Editing nat | Moving | Done | Failed

fun hook_next :: "string \<Rightarrow> disk \<Rightarrow> hook \<Rightarrow> disk \<times> hook" where
  "hook_next snip d (Polling 0) = (d, Testing)"
| "hook_next snip d (Polling (Suc k)) = (d, if dk_dir d wp_config \<noteq> None then Testing else Polling k)"
| "hook_next snip d Testing =
     (d, case file_text d wp_config of
       None \<Rightarrow> Done
     | Some c \<Rightarrow> if occurs forwardedProtoMarker c then Done else Opening)"
| "hook_next snip d Opening =
     (case dk_dir d wp_config_tmp of
        Some i \<Rightarrow> (d\<lparr>dk_data := (dk_data d)(i := [])\<rparr>, Editing i)
      | None \<Rightarrow> (d\<lparr>dk_dir := (dk_dir d)(wp_config_tmp \<mapsto> dk_next d),
           dk_data := (dk_data d)(dk_next d := []), dk_next := dk_next d + 1\<rparr>, Editing (dk_next d)))"
| "hook_next snip d (Editing i) =
     (case file_text d wp_config of
        None \<Rightarrow> (d, Failed)
      | Some c \<Rightarrow> (d\<lparr>dk_data := (dk_data d)(i := overwrite (sed_insert snip c) (dk_data d i))\<rparr>, Moving))"
| "hook_next snip d Moving =
     (case dk_dir d wp_config_tmp of
        None \<Rightarrow> (d, Failed)
      | Some i \<Rightarrow> (d\<lparr>dk_dir := (dk_dir d)(wp_config_tmp := None, wp_config \<mapsto> i)\<rparr>, Done))"
| "hook_next snip d Done = (d, Done)"
| "hook_next snip d Failed = (d, Failed)"

text \<open>
  A step of one run: the next command, or a failure of \<open>sed\<close> (a full volume, with any text written so
  far) or of \<open>mv\<close>.
\<close>

inductive hook_step :: "string \<Rightarrow> disk \<times> hook \<Rightarrow> disk \<times> hook \<Rightarrow> bool" for snip where
  command: "h \<noteq> Done \<Longrightarrow> h \<noteq> Failed \<Longrightarrow> hook_step snip (d, h) (hook_next snip d h)"
| sed_fails: "hook_step snip (d, Editing i) (d\<lparr>dk_data := (dk_data d)(i := x)\<rparr>, Failed)"
| mv_fails: "hook_step snip (d, Moving) (d, Failed)"

text \<open>The pods of a site: one of them takes a step.\<close>

inductive pods_step :: "string \<Rightarrow> disk \<times> hook list \<Rightarrow> disk \<times> hook list \<Rightarrow> bool" for snip where
  pod: "p < length hs \<Longrightarrow> hook_step snip (d, hs ! p) (d', h) \<Longrightarrow> pods_step snip (d, hs) (d', hs[p := h])"

inductive_cases hook_stepE: "hook_step snip (d, h) (d', h')"
inductive_cases pods_stepE: "pods_step snip (d, hs) w"

section \<open>The pods of a Deployment\<close>

text \<open>The file mounted at a path, when it comes from the ConfigMap.\<close>

definition mounted_file :: "configmap \<Rightarrow> container \<Rightarrow> string \<Rightarrow> string option" where
  "mounted_file cm c path =
     (case find (\<lambda>m. vm_mountPath m = path) (ct_mounts c) of
        None \<Rightarrow> None
      | Some m \<Rightarrow> if vm_name m = ''php-config'' then cm_data cm (vm_subPath m) else None)"

definition snippet_of :: "configmap \<Rightarrow> container \<Rightarrow> string" where
  "snippet_of cm c = (case mounted_file cm c ForwardedProtoMount of None \<Rightarrow> [] | Some t \<Rightarrow> t)"

definition started_hook :: "container \<Rightarrow> hook" where
  "started_hook c =
     (if ct_postStart c = Some [''sh'', ''-c'', forwardedProtoPostStart] then Polling 60 else Done)"

definition started_pods :: "deployment \<Rightarrow> hook list" where
  "started_pods d = concat (replicate (unat (dep_replicas d)) (map started_hook (dep_containers d)))"

abbreviation site_container :: "globals \<Rightarrow> site \<Rightarrow> string \<Rightarrow> string \<Rightarrow> container" where
  "site_container g s h p \<equiv> hd (dep_containers (DesiredDeployment g s h p))"

abbreviation proto_line :: string where
  "proto_line \<equiv> ForceHTTPSSnippet @ '' // '' @ forwardedProtoMarker @ newline"

lemma site_snippet:
  "ForceHTTPSEnabled s \<Longrightarrow> snippet_of (DesiredPHPConfigMap s) (site_container g s h p) = proto_line"
  by (simp add: snippet_of_def mounted_file_def DesiredDeployment_def dep_mounts_def build_simps
      PHPMountPath_def ForwardedProtoMount_def)

lemma site_hooks:
  "started_pods (DesiredDeployment g s h p) =
     replicate (unat (dep_replica_count s)) (if ForceHTTPSEnabled s then Polling 60 else Done)"
proof -
  have "map started_hook (dep_containers (DesiredDeployment g s h p)) =
      [if ForceHTTPSEnabled s then Polling 60 else Done]"
    by (simp add: DesiredDeployment_def started_hook_def)
  moreover have "dep_replicas (DesiredDeployment g s h p) = dep_replica_count s"
    by (simp add: DesiredDeployment_def)
  moreover have "concat (replicate n [x]) = replicate n x" for n and x :: hook
    by (induction n) simp_all
  ultimately show ?thesis
    by (simp add: started_pods_def)
qed

lemma proto_line_marked: "occurs forwardedProtoMarker (a @ proto_line @ b)"
  unfolding occurs_iff by (intro exI [of _ "a @ ForceHTTPSSnippet @ '' // ''"] exI [of _ "newline @ b"]) simp

section \<open>Every run ends\<close>

fun hook_rank :: "hook \<Rightarrow> nat" where
  "hook_rank (Polling k) = k + 5"
| "hook_rank Testing = 4"
| "hook_rank Opening = 3"
| "hook_rank (Editing i) = 2"
| "hook_rank Moving = 1"
| "hook_rank Done = 0"
| "hook_rank Failed = 0"

definition pods_rank :: "hook list \<Rightarrow> nat" where
  "pods_rank hs = sum_list (map hook_rank hs)"

lemma hook_next_rank: "h \<noteq> Done \<Longrightarrow> h \<noteq> Failed \<Longrightarrow> hook_rank (snd (hook_next snip d h)) < hook_rank h"
  by (cases "(snip, d, h)" rule: hook_next.cases) (auto split: option.splits)

lemma hook_step_rank: "hook_step snip (d, h) (d', h') \<Longrightarrow> hook_rank h' < hook_rank h"
  by (erule hook_stepE) (use hook_next_rank [of h snip d] in \<open>auto simp: prod_eq_iff\<close>)

lemma pods_step_rank:
  assumes "pods_step snip (d, hs) (d', hs')"
  shows "pods_rank hs' < pods_rank hs"
proof -
  obtain q h where q: "q < length hs" "hook_step snip (d, hs ! q) (d', h)" "hs' = hs[q := h]"
    using assms by (auto elim: pods_stepE)
  then have "hook_rank h < map hook_rank hs ! q" "map hook_rank hs ! q \<le> pods_rank hs"
    using hook_step_rank [OF q(2)] elem_le_sum_list [of q "map hook_rank hs"] by (simp_all add: pods_rank_def)
  moreover have "pods_rank hs' = pods_rank hs + hook_rank h - map hook_rank hs ! q"
    unfolding pods_rank_def using q by (simp add: map_update sum_list_update)
  ultimately show ?thesis
    by linarith
qed

lemma pods_steps_bound: "(pods_step snip ^^ n) (d, hs) (d', hs') \<Longrightarrow> n + pods_rank hs' \<le> pods_rank hs"
proof (induction n arbitrary: d' hs')
  case (Suc n)
  then obtain d1 hs1 where "(pods_step snip ^^ n) (d, hs) (d1, hs1)" "pods_step snip (d1, hs1) (d', hs')"
    by (auto elim: relpowp_Suc_E)
  then show ?case
    using Suc.IH [of d1 hs1] pods_step_rank [of snip d1 hs1 d' hs'] by simp
qed simp

text \<open>
  Every run of the hook ends: however the pods of a site are scheduled on the shared volume, and
  whichever commands fail, they take at most 65 steps each.
\<close>

theorem hooks_terminate:
  "(pods_step snip ^^ n) (d, started_pods (DesiredDeployment g s h p)) w \<Longrightarrow> n \<le> 65 * unat (dep_replica_count s)"
  using pods_steps_bound [of n snip d "started_pods (DesiredDeployment g s h p)" "fst w" "snd w"]
  by (auto simp: site_hooks pods_rank_def sum_list_replicate split: if_splits)

section \<open>One pod\<close>

text \<open>The configuration with its text \<open>c\<close>, on a disk where a left-over output is another file.\<close>

definition config_ready :: "disk \<Rightarrow> string \<Rightarrow> bool" where
  "config_ready d c \<longleftrightarrow> file_text d wp_config = Some c \<and> dk_dir d wp_config_tmp \<noteq> dk_dir d wp_config \<and>
     (\<forall>n i. dk_dir d n = Some i \<longrightarrow> i < dk_next d)"

text \<open>What the hook is for: the line after each opening tag, unless it is there.\<close>

definition with_line :: "string \<Rightarrow> string" where
  "with_line c = (if occurs forwardedProtoMarker c then c else sed_insert proto_line c)"

lemma with_line_again: "with_line (with_line c) = with_line c"
proof (cases "list_ex opens_php (file_lines c)")
  case True
  obtain a b where "sed_insert proto_line c = a @ proto_line @ b"
    using sed_insert_occurs [OF True, of proto_line] unfolding occurs_iff by blast
  then have "occurs forwardedProtoMarker (sed_insert proto_line c)"
    using proto_line_marked by simp
  then show ?thesis
    by (simp add: with_line_def)
next
  case False
  then show ?thesis
    by (simp add: with_line_def sed_insert_none)
qed

fun hook_state :: "string \<Rightarrow> disk \<Rightarrow> hook \<Rightarrow> bool" where
  "hook_state c d Opening \<longleftrightarrow> config_ready d c \<and> \<not> occurs forwardedProtoMarker c"
| "hook_state c d (Editing i) \<longleftrightarrow> config_ready d c \<and> \<not> occurs forwardedProtoMarker c \<and>
     dk_dir d wp_config_tmp = Some i \<and> dk_data d i = []"
| "hook_state c d Moving \<longleftrightarrow> config_ready d c \<and> file_text d wp_config_tmp = Some (with_line c)"
| "hook_state c d Done \<longleftrightarrow> config_ready d (with_line c)"
| "hook_state c d _ \<longleftrightarrow> config_ready d c"

lemma tmp_name: "wp_config_tmp \<noteq> wp_config" "wp_config \<noteq> wp_config_tmp"
  by (simp_all add: wp_config_tmp_def)

lemma config_readyE:
  assumes "config_ready d c"
  obtains i where "dk_dir d wp_config = Some i" "dk_data d i = c" "dk_dir d wp_config_tmp \<noteq> Some i"
    "\<And>n j. dk_dir d n = Some j \<Longrightarrow> j < dk_next d" "i \<noteq> dk_next d" "file_text d wp_config = Some c"
  using assms by (force simp: config_ready_def file_text_def)

lemma config_readyI:
  "dk_dir d wp_config = Some i \<Longrightarrow> dk_data d i = c \<Longrightarrow> dk_dir d wp_config_tmp \<noteq> Some i \<Longrightarrow>
     (\<And>n j. dk_dir d n = Some j \<Longrightarrow> j < dk_next d) \<Longrightarrow> config_ready d c"
  by (auto simp: config_ready_def file_text_def)

text \<open>Writing to another file leaves the configuration as it was.\<close>

lemma config_ready_write:
  assumes "config_ready d c" and "dk_dir d wp_config_tmp = Some j"
  shows "config_ready (d\<lparr>dk_data := (dk_data d)(j := x)\<rparr>) c"
  using assms by (elim config_readyE, intro config_readyI) auto

lemma config_ready_create:
  assumes "config_ready d c"
  shows "config_ready (d\<lparr>dk_dir := (dk_dir d)(wp_config_tmp \<mapsto> dk_next d),
    dk_data := (dk_data d)(dk_next d := x), dk_next := dk_next d + 1\<rparr>) c"
  using assms by (elim config_readyE, intro config_readyI) (auto simp: tmp_name less_SucI split: if_splits)

lemma config_ready_move:
  assumes "config_ready d c" and "dk_dir d wp_config_tmp = Some j"
  shows "config_ready (d\<lparr>dk_dir := (dk_dir d)(wp_config_tmp := None, wp_config \<mapsto> j)\<rparr>) (dk_data d j)"
  using assms by (elim config_readyE, intro config_readyI) (auto simp: tmp_name split: if_splits)

lemma hook_next_state: "hook_state c d h \<Longrightarrow> (case hook_next proto_line d h of (d', h') \<Rightarrow> hook_state c d' h')"
proof (induction proto_line d h rule: hook_next.induct)
  case (3 d)
  then have "file_text d wp_config = Some c"
    by (auto elim: config_readyE)
  then show ?case
    using 3 by (simp add: with_line_def)
next
  case (4 d)
  then show ?case
    using config_ready_create [of d c "[]"] config_ready_write [of d c _ "[]"]
    by (auto split: option.splits)
next
  case (5 d i)
  then obtain j where "dk_dir d wp_config = Some j" "dk_data d j = c"
    by (auto elim: config_readyE)
  then show ?case
    using 5 config_ready_write [of d c i]
    by (simp add: with_line_def overwrite_def file_text_def)
next
  case (6 d)
  then show ?case
    using config_ready_move [of d c] by (auto simp: file_text_def)
qed auto

lemma hook_step_state:
  assumes "hook_step proto_line (d, h) (d', h')" and "hook_state c d h"
  shows "hook_state c d' h'"
proof -
  have "hook_state c d' h'" if "(d', h') = hook_next proto_line d h"
    using hook_next_state [OF assms(2)] that [symmetric] by simp
  moreover have "hook_state c d' h'" if "h = Editing i" "d' = d\<lparr>dk_data := (dk_data d)(i := x)\<rparr>" "h' = Failed" for i x
    using that assms(2) config_ready_write [of d c i] by simp
  moreover have "hook_state c d' h'" if "h = Moving" "d' = d" "h' = Failed"
    using that assms(2) by simp
  ultimately show ?thesis
    using assms(1) by (elim hook_stepE) blast+
qed

lemma one_pod_state:
  assumes "(pods_step proto_line)\<^sup>*\<^sup>* w w'" and "snd w = [x]" and "hook_state c (fst w) x"
  shows "\<exists>y. snd w' = [y] \<and> hook_state c (fst w') y"
  using assms
proof (induction rule: rtranclp_induct)
  case (step w1 w2)
  then obtain d1 y where w1: "w1 = (d1, [y])" "hook_state c d1 y"
    by (cases w1) auto
  then obtain d2 z where "w2 = (d2, [z])" "hook_step proto_line (d1, y) (d2, z)"
    using step(2) by (auto elim: pods_stepE)
  then show ?case
    using hook_step_state w1(2) by auto
qed simp

text \<open>
  C18. With one pod, the hook edits wp-config.php atomically and once: whatever fails, at every moment
  the file is either as it was or complete with the line after each opening tag; it is complete when
  all commands succeeded, and from either state a restart of the pod leads to no other text.
\<close>

theorem one_pod_edits_once:
  assumes "ForceHTTPSEnabled s" and "dep_replica_count s = 1" and "config_ready d c"
    and "(pods_step (snippet_of (DesiredPHPConfigMap s) (site_container g s h p)))\<^sup>*\<^sup>*
      (d, started_pods (DesiredDeployment g s h p)) (d', hs)"
  shows "\<exists>c'. config_ready d' c' \<and> c' \<in> {c, with_line c} \<and> (hs = [Done] \<longrightarrow> c' = with_line c) \<and>
    with_line c' = with_line c"
proof -
  have "\<exists>x. hs = [x] \<and> hook_state c d' x"
    using one_pod_state [of "(d, [Polling 60])" "(d', hs)" "Polling 60" c] assms
    by (simp add: site_snippet site_hooks)
  then obtain x where "hs = [x]" "hook_state c d' x"
    by blast
  then show ?thesis
    by (cases x) (auto simp: with_line_again)
qed

text \<open>A configuration like that of the Go test: the image's own lines mention the header, too.\<close>

definition shipped_rest :: string where
  "shipped_rest = ''// from the wordpress image:'' @ newline @
     ''if (isset($_SERVER['' @ squote @ ''HTTP_X_FORWARDED_PROTO'' @ squote @ ''])) { }'' @ newline @
     ''define('' @ squote @ ''DB_NAME'' @ squote @ '', '' @ squote @ ''wp'' @ squote @ '');'' @ newline"

definition fresh_disk :: "string \<Rightarrow> disk" where
  "fresh_disk c = \<lparr>dk_dir = [wp_config \<mapsto> 0], dk_data = (\<lambda>_. c), dk_next = 1\<rparr>"

lemma fresh_ready: "config_ready (fresh_disk c) c"
  by (auto simp: config_ready_def file_text_def fresh_disk_def tmp_name split: if_splits)

text \<open>Playing a schedule: the pods take their next command in the given order.\<close>

fun play :: "string \<Rightarrow> nat list \<Rightarrow> disk \<times> hook list \<Rightarrow> disk \<times> hook list" where
  "play snip [] w = w"
| "play snip (p # ps) (d, hs) =
     (if p < length hs \<and> hs ! p \<noteq> Done \<and> hs ! p \<noteq> Failed
      then play snip ps (case hook_next snip d (hs ! p) of (d', h) \<Rightarrow> (d', hs[p := h]))
      else (d, hs))"

lemma play_reaches: "(pods_step snip)\<^sup>*\<^sup>* w (play snip ps w)"
proof (induction snip ps w rule: play.induct)
  case (2 snip p ps d hs)
  show ?case
  proof (cases "p < length hs \<and> hs ! p \<noteq> Done \<and> hs ! p \<noteq> Failed")
    case True
    obtain d' h where n: "hook_next snip d (hs ! p) = (d', h)"
      by fastforce
    then have "pods_step snip (d, hs) (d', hs[p := h])"
      using True hook_step.command [of "hs ! p" snip d] by (auto intro: pods_step.intros)
    with 2 True n show ?thesis
      by (auto intro: converse_rtranclp_into_rtranclp)
  qed auto
qed simp

section \<open>Two pods\<close>

text \<open>
  C22. With two pods, which share the volume, the hooks can destroy wp-config.php: both see no line; one
  has written its output when the other opens, and so empties, the same output file; the first moves
  it over the configuration, which is then the empty file the second reads and writes.
\<close>

theorem two_pods_lose_the_config:
  assumes "ForceHTTPSEnabled s" and "dep_replica_count s = 2" and "config_ready d c"
    and "\<not> occurs forwardedProtoMarker c" and "dk_dir d wp_config_tmp = None"
  shows "\<exists>d'. (pods_step (snippet_of (DesiredPHPConfigMap s) (site_container g s h p)))\<^sup>*\<^sup>*
      (d, started_pods (DesiredDeployment g s h p)) (d', [Done, Failed]) \<and> file_text d' wp_config = Some []"
proof -
  obtain i where i: "dk_dir d wp_config = Some i" "dk_data d i = c" "i \<noteq> dk_next d"
    using assms(3) by (auto elim: config_readyE)
  have "unat (dep_replica_count s) = Suc (Suc 0)"
    using assms(2) by simp
  then have "started_pods (DesiredDeployment g s h p) = [Polling 60, Polling 60]"
    using assms(1) by (simp add: site_hooks)
  moreover have "\<exists>d'. play proto_line [0, 0, 1, 1, 0, 0, 1, 0, 1, 1] (d, [Polling 60, Polling 60]) = (d', [Done, Failed]) \<and>
      file_text d' wp_config = Some []"
    using i assms(4,5)
    by (simp add: numeral_eq_Suc file_text_def tmp_name overwrite_def sed_insert_def)
  ultimately show ?thesis
    using play_reaches [of proto_line "(d, [Polling 60, Polling 60])" "[0, 0, 1, 1, 0, 0, 1, 0, 1, 1]"]
    by (auto simp: site_snippet [OF assms(1)])
qed

text \<open>
  Turning \<open>forceHTTPS\<close> off stops the hook, and with it every change of the file: the line that an
  earlier pod has put there stays.
\<close>

theorem line_outlives_the_switch:
  assumes "\<not> ForceHTTPSEnabled s"
    and "(pods_step snip)\<^sup>*\<^sup>* (d, started_pods (DesiredDeployment g s h p)) (d', hs)"
  shows "d' = d"
proof -
  have "w = (d, started_pods (DesiredDeployment g s h p))"
    if "(pods_step snip)\<^sup>*\<^sup>* (d, started_pods (DesiredDeployment g s h p)) w" for w
    using that
  proof (induction rule: rtranclp_induct)
    case (step w1 w2)
    then show ?case
      using assms(1) by (auto simp: site_hooks elim!: pods_stepE hook_stepE)
  qed simp
  with assms(2) show ?thesis
    by blast
qed

section \<open>Instances\<close>

definition two_pods_site :: site where
  "two_pods_site = sample_site\<lparr>site_spec := (site_spec sample_site)\<lparr>sp_replicas := Some 2\<rparr>\<rparr>"

lemma two_pods_spec: "ForceHTTPSEnabled two_pods_site" "dep_replica_count two_pods_site = 2"
  by (simp_all add: two_pods_site_def sample_site_def new_site_def empty_spec_def ForceHTTPSEnabled_def
      dep_replica_count_def)

lemma one_pod_spec: "ForceHTTPSEnabled sample_site" "dep_replica_count sample_site = 1"
  by (simp_all add: sample_site_def new_site_def empty_spec_def ForceHTTPSEnabled_def dep_replica_count_def)

definition shipped_config :: string where
  "shipped_config = ''<?php'' @ newline @ shipped_rest"

lemma shipped_unmarked: "\<not> occurs forwardedProtoMarker shipped_config"
  by (simp add: shipped_config_def shipped_rest_def forwardedProtoMarker_def newline_def squote_def
      occurs.simps [of _ "_ # _"] occurs.simps [of _ "[]"] has_prefix_def)

lemma shipped_with_line: "with_line shipped_config = ''<?php'' @ newline @ proto_line @ shipped_rest"
proof -
  have "\<not> list_ex opens_php (file_lines shipped_rest)"
    by (simp add: shipped_rest_def newline_def squote_def opens_php_def has_prefix_def)
  from sed_insert_first [OF this, of proto_line] shipped_unmarked show ?thesis
    by (simp add: with_line_def shipped_config_def)
qed

theorem two_pods_lose_the_config_witness:
  "\<exists>d'. (pods_step (snippet_of (DesiredPHPConfigMap two_pods_site)
        (site_container default_globals two_pods_site ''mysql'' ''3306'')))\<^sup>*\<^sup>*
      (fresh_disk shipped_config, started_pods (DesiredDeployment default_globals two_pods_site ''mysql'' ''3306''))
      (d', [Done, Failed]) \<and> file_text d' wp_config = Some []"
  by (rule two_pods_lose_the_config [OF two_pods_spec fresh_ready shipped_unmarked])
    (simp add: fresh_disk_def tmp_name)

text \<open>The one pod of the sample site, its commands in order: the file of the example has the line.\<close>

theorem one_pod_edits_once_witness:
  "\<exists>d' hs. play proto_line [0, 0, 0, 0, 0] (fresh_disk shipped_config, [Polling 60]) = (d', hs) \<and> hs = [Done] \<and>
    (\<exists>c'. config_ready d' c' \<and> c' = ''<?php'' @ newline @ proto_line @ shipped_rest)"
proof -
  obtain d' hs where run: "play proto_line [0, 0, 0, 0, 0] (fresh_disk shipped_config, [Polling 60]) = (d', hs)"
    by fastforce
  have "hs = [Done]"
    using run shipped_unmarked
    by (simp add: fresh_disk_def numeral_eq_Suc file_text_def tmp_name)
  moreover have "started_pods (DesiredDeployment default_globals sample_site ''mysql'' ''3306'') = [Polling 60]"
    using one_pod_spec by (simp add: site_hooks)
  ultimately show ?thesis
    using one_pod_edits_once [OF one_pod_spec fresh_ready, of default_globals "''mysql''" "''3306''" shipped_config d' hs]
      play_reaches [of proto_line "(fresh_disk shipped_config, [Polling 60])" "[0, 0, 0, 0, 0]"] run
    by (simp add: site_snippet [OF one_pod_spec(1)] shipped_with_line)
qed

end
