(* ===== verification/Spec2Isabelle.thy ===== *)
theory Spec2Isabelle
imports ReconcileProps ProvisionerProps WorkloadProps MetricsProps TwoFactorProps ApiProps DtoProps DeepCopy StartupProps StatusProps MysqlServer Access EndToEnd CallBounds Cors PostStart
begin

text \<open>
  A model of wordpress-manager-operator: a Kubernetes operator that runs WordPress sites described
  by a custom resource, and the admin API server that edits those resources.

  The program. \<open>cmd/operator\<close> starts a controller that reconciles each \<open>WordPressSite\<close>: it makes
  sure of a Secret, of a database with a user of its own, and of a ConfigMap, a Deployment, a Service
  and an Ingress, and reports phase and conditions in the status; on deletion it may drop the
  database before it removes its finalizer. \<open>cmd/apiserver\<close> serves the admin UI: login with a
  password and optionally TOTP, the endpoints that create, edit, suspend, delete and diagnose sites,
  and resource figures. The two programs share only the custom resources in the cluster; in local
  dev mode the API server calls the reconciler itself, with SQLite files instead of MySQL.

  How it is modelled. Pure Go functions are HOL functions with the names of the source. Effectful
  ones are programs in \<open>('e, 'a) prog\<close>, the state monad over an unknown environment \<open>'e\<close> and a
  ghost trace of the external calls made, each with its error (\<open>Prelude\<close>, \<open>Externals\<close>). What
  src/ does not hold is a parameter, a field of a record of functions: the Kubernetes client
  (\<open>kube\<close>), the SQL driver, the file system, the clock, the random source, bcrypt, JWT, TOTP, the
  JSON and YAML codecs, chi's choice of a route, the text of a time, the order of a map range and
  of equal elements of \<open>sort.Slice\<close>. Nothing is assumed about any of them except where a property
  states it as a hypothesis; the theorems hold for every environment, hence for every failure and
  every concurrent change between two calls. Integers of the source are words of their width,
  strings are byte sequences, errors are the datatype \<open>goerror\<close>. Every definition is total and
  none needs fuel: all loops of the program run over finite slices. (\<open>until_settled\<close>, the work queue
  of controller-runtime around the controller, has fuel; \<open>sites_become_ready\<close> and
  \<open>deletions_complete\<close> show how much is enough, and that more changes nothing.) A process that
  never returns from an external call is outside the model. Where sharing of memory matters, in the
  deep copies, there is an explicit heap.

  The theories, with the code they model and what their lemmas show.
  \<^item> \<open>Prelude\<close>: 64-bit integers, errors, the program monad, and the program logic \<open>runs\<close>, which
    computes what is to be shown of a program from the calls it makes (the collection \<open>wp\<close>);
    \<open>emits\<close> and \<open>precedes\<close> speak about which calls occur and in which order.
  \<^item> \<open>GoStrings\<close>, \<open>Sha256\<close>: the functions of Go's standard library the program applies to strings,
    on bytes, with UTF-8 decoding as Go does it; SHA-256 and hex.
  \<^item> \<open>ApiTypes\<close>: api/v1alpha1/wordpresssite_types.go and the used fields of Kubernetes types.
  \<^item> \<open>Naming\<close>: internal/resources/names.go; alphabet, length and injectivity of the names.
  \<^item> \<open>Externals\<close>, \<open>Database\<close>: the parameters and the trace; the interface \<open>controller.Database\<close> as
    the locale \<open>database_provider\<close>.
  \<^item> \<open>PhpConfig\<close>, \<open>Secrets\<close>, \<open>Workloads\<close>: configmap.go, secret.go, deployment.go, service.go and
    ingress.go of internal/resources. The locale \<open>owned_builder\<close> is what the controller's \<open>apply\<close>
    relies on; each builder interprets it.
  \<^item> \<open>Mysql\<close>, \<open>Sqlite\<close>: internal/mysql and internal/sqlite; both interpret \<open>database_provider\<close>.
    \<open>Mysql\<close> has a reader of MySQL string literals, the reference against which escaping is proved.
  \<^item> \<open>Controller\<close>: internal/controller/wordpresssite_controller.go. \<open>ReconcileOrder\<close> computes the
    calls of every operation, once for every provider (locale \<open>reconciles_with\<close>, an extension of
    \<open>database_provider\<close>); \<open>ReconcileOutcome\<close> computes what is written and how a reconcile ends, and
    interprets the locale for the two providers.
  \<^item> \<open>Metrics\<close>: internal/metrics (metrics.go, kube.go, dev.go); the interface \<open>Provider\<close> as the
    locale \<open>metrics_source\<close>, interpreted for both providers.
  \<^item> \<open>Auth\<close>, \<open>TwoFactor\<close>, \<open>SiteDto\<close>, \<open>Handlers\<close>, \<open>Server\<close>: internal/apiserver (auth.go, twofa.go,
    handlers.go, status.go, server.go). The interface \<open>TwoFA\<close> is the locale \<open>two_factor\<close>, interpreted
    for \<open>KubeTwoFA\<close>.
  \<^item> \<open>Wiring\<close>, \<open>Startup\<close>: what cmd/operator/main.go and cmd/apiserver/main.go build from their
    environment, and the two main functions from their first call to their exit status.
  \<^item> \<open>DeepCopy\<close>: api/v1alpha1/zz_generated.deepcopy.go (maintained by hand) on a heap of cells. The
    locale \<open>deep_copier\<close> is the contract of a deep copy; pointers, slices, structs and new objects
    keep it, so every function of the file does when the library's own copies do.
  \<^item> \<open>Triples\<close>, \<open>Sharing\<close>: Hoare triples over the world, and rely/guarantee reasoning with them: each
    call is an environment transition in which other reconcilers may act before and after.
  \<^item> \<open>Convergence\<close>, \<open>Deletion\<close>: the controller with its work queue on a cluster that follows the
    documented behaviour of Get, Create, Update and Status().Update (creating what is there fails, and so
    does updating an old version), for a site and for its deletion. What this cluster and its MySQL server
    accept is a parameter (\<open>world_rules\<close>): the properties speak of the sites, Secrets, objects, database
    names, users and hosts that it accepts. Stored specs have the defaults of deploy/01-crd.yaml
    (\<open>defaulted\<close>).
  \<^item> \<open>Editing\<close>: the editing endpoints on a cluster that others write to, too; what the cluster stores
    differs from what was sent in the defaults of the schema, version and generation. \<open>EndToEnd\<close>: a request to
    the API server followed by the reconciles of the operator, on one cluster.
  \<^item> \<open>PostStart\<close>: the shell script of deployment.go as steps on the files of the volume, taken by all
    pods of a site at the same time.
  \<^item> \<open>MysqlServer\<close>: a reference MySQL server (databases, accounts, grants) with the documented effect
    of the statements, and the abstract effect of the two operations of the provisioner.
  \<^item> \<open>Access\<close>: the roles of deploy/02-rbac.yaml, the rbac markers of the controller, the schemes of
    both programs (api/v1alpha1/groupversion_info.go), and the requests behind each call.
  \<^item> \<open>CallBounds\<close>: the number of external calls of every operation. \<open>Cors\<close>: the middleware of
    internal/apiserver/server.go and its CORS policy.
  \<^item> \<open>Fixtures\<close>: concrete parameters (an in-memory cluster, a driver, a sample site) on which the
    witnesses evaluate the model. No theorem about the code rests on them.

  The properties, by theory.
  \<^item> \<open>ReconcileProps\<close>: order and outcome of a reconcile (Ready is reported only after all of its
    steps succeeded, workload after database, finalizer after drop), what is written (desired
    objects only, the Secret once), conditions and their fixpoint, suspension, deletion.
  \<^item> \<open>ProvisionerProps\<close>: names (accepted, injective on regular sites, and the collisions on the
    others), the SQL session of an ensure, statement by statement, reading back the generated statements, paths.
  \<^item> \<open>WorkloadProps\<close>: the built objects refer to each other consistently.
  \<^item> \<open>MetricsProps\<close>: totals, clamping, aggregation per site, bounds without overflow.
  \<^item> \<open>TwoFactorProps\<close>: the operations on the Secret refine an abstract machine with an active and a
    pending secret, for which invariants are proved by induction over its runs.
  \<^item> \<open>ApiProps\<close>: authentication of every writing route, what a refused request can touch, reading
    endpoints only read, both login factors.
  \<^item> \<open>DtoProps\<close>: conversions between form and resource, shown events, rendered manifests.
  \<^item> \<open>StatusProps\<close>: every status a reconcile reports is well typed; the YAML editor's round trip.
  \<^item> \<open>StartupProps\<close>: what must have succeeded before either program serves, and how it exits.
  \<^item> \<open>Sharing\<close>, \<open>Convergence\<close>, \<open>Deletion\<close>, \<open>DeepCopy\<close>: the password in MySQL is the one in the
    Secret under any interleaving; a site becomes ready, or a deleted one is gone, after as many
    rounds as MySQL refuses pings, plus one; copies are independent of their originals.
  \<^item> \<open>Editing\<close>: no lost updates; an edit that succeeds was applied to the site that was stored then.
  \<^item> \<open>EndToEnd\<close>: a site created through the API becomes ready; a suspended one is scaled to zero,
    without a call to MySQL, and resumed, it is ready again with its spec.
  \<^item> \<open>MysqlServer\<close>: both operations refine their effect on the server, whichever statement fails; a
    grant on a generated name reaches other databases, and which; sites whose names collide take over
    each other's account.
  \<^item> \<open>Access\<close>: the roles permit every request the programs make, the markers do not; every kind they
    handle is registered. \<open>CallBounds\<close>: a reconcile and a request end after a bounded number of calls,
    and so does the whole work on a site. \<open>Cors\<close>: every route passes the preflight of an allowed origin.
  \<^item> \<open>PostStart\<close>: one pod edits wp-config.php once and atomically, two can leave it empty, and every
    run of the script ends.

  Not modelled: logging, what chi's middleware does beside the CORS policy (timeouts, recovery), what
  the manager, the HTTP server, the signal handler and the fake client of dev mode do inside, and the
  admin UI, a client in another language.

  To be extended next: an edit of php.ini through the API followed by the rollout; the totals of \<open>podStatus\<close>.
\<close>

end
